(* ===== verification/Prelude.thy ===== *)
theory Prelude
  imports Complex_Main "HOL-Library.Word" "HOL-Library.Log_Nat"
begin

text \<open>
  Shared vocabulary of the development: results that may be an error, Python helpers the
  components use (decimal printing, grouping of lists, powers of two), the generic lemmas
  about them, and the \<open>named_theorems\<close> collections the component proofs draw on.
\<close>

named_theorems result_simps \<open>inversion rules for results that may be errors\<close>
named_theorems rounding_simps \<open>facts about correctly rounded arithmetic\<close>
named_theorems path_simps \<open>the constants of the bench paths, unfolded\<close>

subsection \<open>Results\<close>

text \<open>
  A Python function that may raise is a function into \<open>'e + 'a\<close>: \<open>Inl\<close> is the exception that
  leaves the function, \<open>Inr\<close> its return value. \<open>bindE\<close> runs a continuation on a returned
  value and lets an exception pass.
\<close>

type_synonym ('e, 'a) result = "'e + 'a"

definition bindE :: "('e, 'a) result \<Rightarrow> ('a \<Rightarrow> ('e, 'b) result) \<Rightarrow> ('e, 'b) result" where
  "bindE m f = (case m of Inl e \<Rightarrow> Inl e | Inr x \<Rightarrow> f x)"

lemma bindE_simps [simp]: "bindE (Inl e) f = Inl e" "bindE (Inr x) f = f x"
  by (simp_all add: bindE_def)

lemma bindE_eq_Inr [result_simps]: "bindE m f = Inr y \<longleftrightarrow> (\<exists>x. m = Inr x \<and> f x = Inr y)"
  by (cases m) auto

lemma bindE_eq_Inl [result_simps]:
  "bindE m f = Inl e \<longleftrightarrow> m = Inl e \<or> (\<exists>x. m = Inr x \<and> f x = Inl e)"
  by (cases m) auto

lemma bindE_cong [fundef_cong]:
  "m = m' \<Longrightarrow> (\<And>x. m' = Inr x \<Longrightarrow> f x = g x) \<Longrightarrow> bindE m f = bindE m' g"
  by (cases m') auto

fun traverse :: "('a \<Rightarrow> ('e, 'b) result) \<Rightarrow> 'a list \<Rightarrow> ('e, 'b list) result" where
  "traverse f [] = Inr []"
| "traverse f (x # xs) = bindE (f x) (\<lambda>y. bindE (traverse f xs) (\<lambda>ys. Inr (y # ys)))"

lemma traverse_Inr_iff:
  "traverse f xs = Inr ys \<longleftrightarrow> list_all2 (\<lambda>x y. f x = Inr y) xs ys"
proof (induction xs arbitrary: ys)
  case Nil
  then show ?case by (cases ys) auto
next
  case (Cons x xs)
  then show ?case by (cases ys) (auto simp: result_simps)
qed

lemma traverse_length: "traverse f xs = Inr ys \<Longrightarrow> length ys = length xs"
  by (simp add: traverse_Inr_iff list_all2_lengthD)

subsection \<open>State and exceptions\<close>

text \<open>
  Code that runs processes or reads files threads a state \<open>'p\<close>: it returns or raises, and leaves a
  new state in both cases.
\<close>

type_synonym ('p, 'e, 'a) st = "'p \<Rightarrow> ('e, 'a) result \<times> 'p"

definition st_return :: "'a \<Rightarrow> ('p, 'e, 'a) st" where
  "st_return x = (\<lambda>p. (Inr x, p))"

definition st_fail :: "'e \<Rightarrow> ('p, 'e, 'a) st" where
  "st_fail e = (\<lambda>p. (Inl e, p))"

definition st_bind :: "('p, 'e, 'a) st \<Rightarrow> ('a \<Rightarrow> ('p, 'e, 'b) st) \<Rightarrow> ('p, 'e, 'b) st" where
  "st_bind m f = (\<lambda>p. case m p of (Inl e, p') \<Rightarrow> (Inl e, p') | (Inr x, p') \<Rightarrow> f x p')"

definition st_lift :: "('e, 'a) result \<Rightarrow> ('p, 'e, 'a) st" where
  "st_lift m = (\<lambda>p. (m, p))"

lemma st_bind_Inr [result_simps]:
  "st_bind m f p = (Inr y, p') \<longleftrightarrow> (\<exists>x p1. m p = (Inr x, p1) \<and> f x p1 = (Inr y, p'))"
  by (auto simp: st_bind_def split: prod.splits sum.splits)

lemma st_bindE:
  assumes "st_bind m f p = (Inr y, p')"
  obtains x p1 where "m p = (Inr x, p1)" "f x p1 = (Inr y, p')"
  using assms by (auto simp: st_bind_Inr)

lemma st_return_Inr [result_simps]: "st_return x p = (Inr y, p') \<longleftrightarrow> x = y \<and> p = p'"
  by (auto simp: st_return_def)

lemma st_fail_Inr [result_simps]: "st_fail e p = (Inr y, p') \<longleftrightarrow> False"
  by (simp add: st_fail_def)

lemma st_lift_Inr [result_simps]: "st_lift m p = (Inr y, p') \<longleftrightarrow> m = Inr y \<and> p = p'"
  by (auto simp: st_lift_def)

lemma st_bind_cong [fundef_cong]:
  "m = m' \<Longrightarrow> p = p' \<Longrightarrow> (\<And>x q. m' p' = (Inr x, q) \<Longrightarrow> f x q = g x q) \<Longrightarrow> st_bind m f p = st_bind m' g p'"
  by (auto simp: st_bind_def split: prod.splits sum.splits)

fun st_traverse :: "('a \<Rightarrow> ('p, 'e, 'b) st) \<Rightarrow> 'a list \<Rightarrow> ('p, 'e, 'b list) st" where
  "st_traverse f [] = st_return []"
| "st_traverse f (x # xs) = st_bind (f x) (\<lambda>y. st_bind (st_traverse f xs) (\<lambda>ys. st_return (y # ys)))"

text \<open>The exceptions of the standard library the program raises, with their messages.\<close>

datatype py_exn =
    ValueError string
  | TypeError string
  | KeyError string
  | OverflowError string
  | RuntimeError string
  | FileExistsError string
  | FileNotFoundError string
  | OSError string
  | IndexError string
  | ZeroDivisionError
  | SubprocessError string

subsection \<open>Decimal printing\<close>

text \<open>\<open>str(n)\<close> of a Python integer.\<close>

fun str_nat :: "nat \<Rightarrow> string" where
  "str_nat n = (if n < 10 then [char_of (48 + n)] else str_nat (n div 10) @ [char_of (48 + n mod 10)])"

declare str_nat.simps [simp del]

definition str_int :: "int \<Rightarrow> string" where
  "str_int z = (if z < 0 then CHR ''-'' # str_nat (nat (- z)) else str_nat (nat z))"

fun join :: "string \<Rightarrow> string list \<Rightarrow> string" where
  "join sep [] = []"
| "join sep [x] = x"
| "join sep (x # y # ys) = x @ sep @ join sep (y # ys)"

definition starts_with :: "'a list \<Rightarrow> 'a list \<Rightarrow> bool" where
  "starts_with p s \<longleftrightarrow> take (length p) s = p"

definition ends_with :: "'a list \<Rightarrow> 'a list \<Rightarrow> bool" where
  "ends_with p s \<longleftrightarrow> length p \<le> length s \<and> drop (length s - length p) s = p"

subsection \<open>Lists\<close>

text \<open>\<open>range(n)\<close> with an index beside each element: Python's \<open>enumerate\<close> is \<open>List.enumerate 0\<close>.\<close>

fun chunks :: "nat \<Rightarrow> 'a list \<Rightarrow> 'a list list" where
  "chunks n [] = []"
| "chunks n (x # xs) = (if n = 0 then [x # xs] else take n (x # xs) # chunks n (drop n (x # xs)))"

lemma chunks_concat [simp]: "concat (chunks n xs) = xs"
  by (induction n xs rule: chunks.induct) auto

lemma chunks_length_le: "0 < n \<Longrightarrow> c \<in> set (chunks n xs) \<Longrightarrow> length c \<le> n"
  by (induction n xs rule: chunks.induct) auto

lemma chunks_nonempty: "c \<in> set (chunks n xs) \<Longrightarrow> c \<noteq> []"
  by (induction n xs rule: chunks.induct) (auto split: if_splits)

subsection \<open>Bit lengths\<close>

text \<open>Python's \<open>int.bit_length\<close> of a non-negative integer.\<close>

definition bit_length :: "nat \<Rightarrow> nat" where
  "bit_length n = floorlog 2 n"

lemma bit_length_bounds: "0 < n \<Longrightarrow> 2 ^ (bit_length n - 1) \<le> n \<and> n < 2 ^ bit_length n"
  using floorlog_bounds [of n 2] by (simp add: bit_length_def)

lemma of_nat_less_pow2: "n < 2 ^ k \<Longrightarrow> of_nat n + 1 \<le> (2::rat) ^ k"
proof -
  assume "n < 2 ^ k"
  then have "of_nat (Suc n) \<le> (of_nat (2 ^ k) :: rat)" by (simp only: of_nat_le_iff Suc_le_eq)
  then show ?thesis by simp
qed

lemma of_nat_pow2_le: "2 ^ k \<le> n \<Longrightarrow> (2::rat) ^ k \<le> of_nat n"
proof -
  assume "2 ^ k \<le> n"
  then have "(of_nat (2 ^ k) :: rat) \<le> of_nat n" by (simp only: of_nat_le_iff)
  then show ?thesis by simp
qed

lemma bit_length_0 [simp]: "bit_length 0 = 0"
  by (simp add: bit_length_def floorlog_def)

lemma bit_length_pos: "0 < n \<Longrightarrow> 0 < bit_length n"
  using floorlog_eq_zero_iff [of 2 n] by (auto simp: bit_length_def)

subsection \<open>Groups of mapped lists\<close>

lemma chunks_map: "chunks n (map f xs) = map (map f) (chunks n xs)"
proof (induction n xs rule: chunks.induct)
  case (2 n x xs)
  show ?case
  proof (cases "n = 0")
    case False
    have "chunks n (map f (x # xs)) = take n (map f (x # xs)) # chunks n (drop n (map f (x # xs)))"
      using False by simp
    also have "\<dots> = map f (take n (x # xs)) # map (map f) (chunks n (drop n (x # xs)))"
      by (simp only: take_map drop_map 2 [OF False])
    finally show ?thesis using False by simp
  qed simp
qed simp

lemma in_some_chunk: "x \<in> set xs \<Longrightarrow> \<exists>c \<in> set (chunks n xs). x \<in> set c"
  using chunks_concat [of n xs] by (metis UN_iff set_concat)

lemma chunk_subset: "c \<in> set (chunks n xs) \<Longrightarrow> set c \<subseteq> set xs"
  using chunks_concat [of n xs] by (metis UN_upper set_concat)

end
