(* ===== verification/Philox.thy ===== *)
theory Philox
  imports Prelude
begin

unbundle bit_operations_syntax

text \<open>
  The Philox4x32-10 generator of \<open>src/stoquant/oracle.py\<close>: argument checks, the ten rounds on
  64-bit lanes, the single-counter block and the stream of one word per element. The lemmas show
  the element-to-lane map of the stream, that a longer stream extends a shorter one, and that
  the generator is injective in its counter, so distinct logical streams never share a block.
\<close>

subsection \<open>Argument checks\<close>

definition unsigned_arg :: "int \<Rightarrow> nat \<Rightarrow> string \<Rightarrow> (py_exn, int) result" where
  "unsigned_arg value bits name =
     (if value < 0 \<or> 2 ^ bits \<le> value
      then Inl (ValueError (name @ '' must fit in an unsigned '' @ str_nat bits @ ''-bit integer''))
      else Inr value)"

text \<open>\<open>_word_array\<close> on an integer array: all values in range, then the cast to \<open>uint32\<close>.\<close>

definition word_array :: "int list \<Rightarrow> nat \<Rightarrow> string \<Rightarrow> (py_exn, 32 word list) result" where
  "word_array values width name =
     (if \<exists>v \<in> set values. v < 0 \<or> 2 ^ width \<le> v
      then Inl (ValueError (name @ '' contains a value outside uint'' @ str_nat width))
      else Inr (map word_of_int values))"

subsection \<open>The generator\<close>

definition philox_m0 :: "64 word" where "philox_m0 = 0xD2511F53"
definition philox_m1 :: "64 word" where "philox_m1 = 0xCD9E8D57"
definition philox_w0 :: int where "philox_w0 = 0x9E3779B9"
definition philox_w1 :: int where "philox_w1 = 0xBB67AE85"
definition mask32 :: int where "mask32 = 0xFFFFFFFF"

type_synonym lanes = "64 word \<times> 64 word \<times> 64 word \<times> 64 word"

fun philox_round :: "lanes \<Rightarrow> int \<times> int \<Rightarrow> lanes" where
  "philox_round (c0, c1, c2, c3) (k0, k1) =
     (let product0 = philox_m0 * c0; product1 = philox_m1 * c2;
          low0 = product0 AND word_of_int mask32; high0 = drop_bit 32 product0;
          low1 = product1 AND word_of_int mask32; high1 = drop_bit 32 product1
      in ((high1 XOR c1) XOR word_of_int k0, low1, (high0 XOR c3) XOR word_of_int k1, low0))"

fun bump_key :: "int \<times> int \<Rightarrow> int \<times> int" where
  "bump_key (k0, k1) = ((k0 + philox_w0) AND mask32, (k1 + philox_w1) AND mask32)"

fun philox_rounds :: "nat list \<Rightarrow> lanes \<Rightarrow> int \<times> int \<Rightarrow> lanes" where
  "philox_rounds [] c k = c"
| "philox_rounds (i # is) c k =
     philox_rounds is (philox_round c k) (if i \<noteq> 9 then bump_key k else k)"

type_synonym counter = "32 word \<times> 32 word \<times> 32 word \<times> 32 word"

fun widen :: "counter \<Rightarrow> lanes" where
  "widen (c0, c1, c2, c3) = (ucast c0, ucast c1, ucast c2, ucast c3)"

fun narrow :: "lanes \<Rightarrow> 32 word list" where
  "narrow (c0, c1, c2, c3) = [ucast c0, ucast c1, ucast c2, ucast c3]"

text \<open>One row of \<open>philox4x32_10\<close>; the array version applies it to every counter row.\<close>

definition philox4x32_10 :: "counter \<Rightarrow> 32 word \<times> 32 word \<Rightarrow> 32 word list" where
  "philox4x32_10 ctr key =
     narrow (philox_rounds [0..<10] (widen ctr) (uint (fst key), uint (snd key)))"

definition seed_key :: "int \<Rightarrow> 32 word \<times> 32 word" where
  "seed_key seed = (word_of_int (seed AND mask32), word_of_int (drop_bit 32 seed))"

definition group_counter :: "int \<Rightarrow> int \<Rightarrow> int \<Rightarrow> counter" where
  "group_counter grp tensor_id invocation_id =
     (word_of_int (grp AND mask32), word_of_int (drop_bit 32 grp),
      word_of_int tensor_id, word_of_int invocation_id)"

definition philox_block :: "int \<Rightarrow> int \<Rightarrow> int \<Rightarrow> int \<Rightarrow> (py_exn, 32 word list) result" where
  "philox_block seed grp tensor_id invocation_id =
     bindE (unsigned_arg seed 64 ''seed'') (\<lambda>seed.
     bindE (unsigned_arg grp 64 ''group'') (\<lambda>grp.
     bindE (unsigned_arg tensor_id 32 ''tensor_id'') (\<lambda>tensor_id.
     bindE (unsigned_arg invocation_id 32 ''invocation_id'') (\<lambda>invocation_id.
       Inr (philox4x32_10 (group_counter grp tensor_id invocation_id) (seed_key seed))))))"

definition philox_words :: "int \<Rightarrow> int \<Rightarrow> int \<Rightarrow> int \<Rightarrow> (py_exn, 32 word list) result" where
  "philox_words count seed tensor_id invocation_id =
     (if count < 0 then Inl (ValueError ''count must be non-negative'')
      else
        bindE (unsigned_arg seed 64 ''seed'') (\<lambda>seed.
        bindE (unsigned_arg tensor_id 32 ''tensor_id'') (\<lambda>tensor_id.
        bindE (unsigned_arg invocation_id 32 ''invocation_id'') (\<lambda>invocation_id.
          Inr (take (nat count)
            (concat (map (\<lambda>g. philox4x32_10 (group_counter (int g) tensor_id invocation_id) (seed_key seed))
                         [0..<(nat count + 3) div 4])))))))"

subsection \<open>The stream maps element i to lane i mod 4 of block i div 4\<close>

lemma length_narrow [simp]: "length (narrow c) = 4"
  by (cases c) simp

lemma length_philox [simp]: "length (philox4x32_10 ctr key) = 4"
  by (simp add: philox4x32_10_def)

lemma length_concat_blocks: "(\<And>x. length (f x) = 4) \<Longrightarrow> length (concat (map f xs)) = 4 * length xs"
  by (induction xs) auto

lemma nth_concat_blocks:
  assumes "\<And>x. length (f x) = 4" and "i < 4 * length xs"
  shows "concat (map f xs) ! i = f (xs ! (i div 4)) ! (i mod 4)"
  using assms(2)
proof (induction xs arbitrary: i)
  case (Cons x xs)
  show ?case
  proof (cases "i < 4")
    case True
    then show ?thesis using assms(1) by (simp add: nth_append)
  next
    case False
    then have i: "i div 4 = Suc ((i - 4) div 4)" "i mod 4 = (i - 4) mod 4"
      by (auto simp: le_div_geq le_mod_geq)
    have "concat (map f (x # xs)) ! i = concat (map f xs) ! (i - 4)"
      using False assms(1) by (simp add: nth_append)
    then show ?thesis using False Cons by (simp add: i)
  qed
qed simp

lemma unsigned_arg_Inr [result_simps]:
  "unsigned_arg v b name = Inr r \<longleftrightarrow> r = v \<and> 0 \<le> v \<and> v < 2 ^ b"
  by (auto simp: unsigned_arg_def)

lemma philox_words_Inr:
  "philox_words count seed tid iid = Inr ws \<longleftrightarrow>
     0 \<le> count \<and> (0 \<le> seed \<and> seed < 2 ^ 64) \<and> (0 \<le> tid \<and> tid < 2 ^ 32) \<and> (0 \<le> iid \<and> iid < 2 ^ 32) \<and>
     ws = take (nat count) (concat (map (\<lambda>g. philox4x32_10 (group_counter (int g) tid iid) (seed_key seed))
                                        [0..<(nat count + 3) div 4]))"
  by (auto simp: philox_words_def result_simps)

lemma philox_words_length: "philox_words count seed tid iid = Inr ws \<Longrightarrow> length ws = nat count"
  by (auto simp: philox_words_Inr length_concat_blocks)

lemma group_count_covers: "i < (c::nat) \<Longrightarrow> i < 4 * ((c + 3) div 4)"
  by presburger

lemma philox_words_nth:
  assumes "philox_words count seed tid iid = Inr ws" and "i < nat count"
  shows "ws ! i = philox4x32_10 (group_counter (int (i div 4)) tid iid) (seed_key seed) ! (i mod 4)"
proof -
  let ?f = "\<lambda>g. philox4x32_10 (group_counter (int g) tid iid) (seed_key seed)"
  have "i < 4 * ((nat count + 3) div 4)" using assms(2) by (rule group_count_covers)
  moreover from this have "i div 4 < (nat count + 3) div 4" by (simp add: less_mult_imp_div_less mult.commute)
  ultimately show ?thesis
    using assms nth_concat_blocks [of ?f i "[0..<(nat count + 3) div 4]"]
    by (simp add: philox_words_Inr)
qed

subsection \<open>The generator is injective in its counter\<close>

definition u32 :: "64 word \<Rightarrow> bool" where
  "u32 w \<longleftrightarrow> take_bit 32 w = w"

fun lanes_ok :: "lanes \<Rightarrow> bool" where
  "lanes_ok (c0, c1, c2, c3) \<longleftrightarrow> u32 c0 \<and> u32 c1 \<and> u32 c2 \<and> u32 c3"

lemma mask32_mask: "mask32 = mask 32"
  by (simp add: mask32_def mask_eq_exp_minus_1)

lemma word_mask32: "(word_of_int mask32 :: 64 word) = mask 32"
  by (simp add: mask32_def mask_eq_exp_minus_1)

lemma and_mask32: "w AND word_of_int mask32 = take_bit 32 (w :: 64 word)"
  by (simp only: take_bit_eq_mask word_mask32)

lemma int_and_mask32: "k AND mask32 = k mod 2 ^ 32"
  by (simp only: mask32_mask take_bit_eq_mask [symmetric] take_bit_eq_mod)

text \<open>Multiplication by an odd constant is a permutation of the residues modulo \<open>2 ^ 32\<close>.\<close>

lemma odd_mult_cancel:
  fixes x y m :: int
  assumes "odd m" and "(m * x) mod 2 ^ n = (m * y) mod 2 ^ n"
    and "0 \<le> x" "x < 2 ^ n" "0 \<le> y" "y < 2 ^ n"
  shows "x = y"
proof -
  have "2 ^ n dvd m * (x - y)"
    using assms(2) by (simp add: mod_eq_dvd_iff right_diff_distrib)
  moreover have "coprime (2 ^ n) m" using assms(1) by simp
  ultimately have "2 ^ n dvd x - y" by (simp add: coprime_dvd_mult_right_iff)
  then have "x mod 2 ^ n = y mod 2 ^ n" by (simp add: mod_eq_dvd_iff)
  then show ?thesis using assms(3-6) by simp
qed

lemma uint_take_bit_32: "uint (take_bit 32 (w :: 64 word)) = uint w mod 2 ^ 32"
  by (subst unsigned_take_bit_eq) (rule take_bit_eq_mod)

lemma uint_drop_bit_32: "uint (drop_bit 32 (w :: 64 word)) = uint w div 2 ^ 32"
  using uint_lt2p [of w]
  by (subst unsigned_drop_bit_eq) (simp only: take_bit_int_eq_self uint_nonnegative drop_bit_eq_div)

lemma u32_uint: "u32 w \<longleftrightarrow> uint w < 2 ^ 32"
proof -
  have "u32 w \<longleftrightarrow> uint (take_bit 32 w) = uint w" unfolding u32_def by (metis word_uint_eqI)
  also have "\<dots> \<longleftrightarrow> uint w mod 2 ^ 32 = uint w" by (simp only: uint_take_bit_32)
  also have "\<dots> \<longleftrightarrow> uint w < 2 ^ 32"
    by (metis mod_pos_pos_trivial pos_mod_bound uint_nonnegative zero_less_numeral zero_less_power)
  finally show ?thesis .
qed

lemma low_product_inj:
  assumes "odd (uint m)" and "u32 x" "u32 y"
    and "take_bit 32 (m * x) = take_bit 32 (m * (y :: 64 word))"
  shows "x = y"
proof -
  have low: "uint (take_bit 32 (m * z)) = (uint m * uint z) mod 2 ^ 32" for z :: "64 word"
  proof -
    have "(2 :: int) ^ 32 dvd 2 ^ LENGTH(64)" by (rule le_imp_power_dvd) simp
    then show ?thesis by (simp only: uint_take_bit_32 uint_word_ariths mod_mod_cancel)
  qed
  have eq: "(uint m * uint x) mod 2 ^ 32 = (uint m * uint y) mod 2 ^ 32"
    by (simp only: low [symmetric] assms(4))
  have b: "uint x < 2 ^ 32" "uint y < 2 ^ 32" using assms(2,3) by (simp_all only: u32_uint)
  have "uint x = uint y"
    by (rule odd_mult_cancel [OF assms(1) eq uint_nonnegative b(1) uint_nonnegative b(2)])
  then show ?thesis by (rule word_uint_eqI)
qed

lemma u32_xor: "u32 a \<Longrightarrow> u32 b \<Longrightarrow> u32 (a XOR b)"
  by (simp add: u32_def)

lemma u32_take_bit [simp]: "u32 (take_bit 32 w)"
  by (simp add: u32_def)

lemma u32_high: "u32 (drop_bit 32 (w :: 64 word))"
proof -
  have "uint w < 2 ^ 64" using uint_lt2p [of w] by simp
  then have "uint w div 2 ^ 32 < 2 ^ 32" by (simp add: div_less_iff_less_mult)
  then show ?thesis by (simp only: u32_uint uint_drop_bit_32)
qed

lemma xor_cancel: "((a :: 64 word) XOR b) XOR k = (a XOR b') XOR k \<Longrightarrow> b = b'"
  by (simp add: bit_eq_iff bit_xor_iff) blast

lemma odd_multipliers: "odd (uint philox_m0)" "odd (uint philox_m1)"
  by (simp_all add: philox_m0_def philox_m1_def)

lemma philox_round_inj:
  assumes "lanes_ok c" "lanes_ok d" and eq: "philox_round c k = philox_round d k"
  shows "c = d"
proof -
  obtain c0 c1 c2 c3 where c: "c = (c0, c1, c2, c3)" by (cases c)
  obtain d0 d1 d2 d3 where d: "d = (d0, d1, d2, d3)" by (cases d)
  obtain k0 k1 where k: "k = (k0, k1)" by (cases k)
  have ok: "u32 c0" "u32 c2" "u32 d0" "u32 d2" using assms c d by auto
  have e: "take_bit 32 (philox_m0 * c0) = take_bit 32 (philox_m0 * d0)"
    "take_bit 32 (philox_m1 * c2) = take_bit 32 (philox_m1 * d2)"
    "(drop_bit 32 (philox_m1 * c2) XOR c1) XOR word_of_int k0
       = (drop_bit 32 (philox_m1 * d2) XOR d1) XOR word_of_int k0"
    "(drop_bit 32 (philox_m0 * c0) XOR c3) XOR word_of_int k1
       = (drop_bit 32 (philox_m0 * d0) XOR d3) XOR word_of_int k1"
    using eq by (simp_all add: c d k Let_def and_mask32)
  have "c0 = d0" by (rule low_product_inj [OF odd_multipliers(1) ok(1,3) e(1)])
  moreover have "c2 = d2" by (rule low_product_inj [OF odd_multipliers(2) ok(2,4) e(2)])
  ultimately show ?thesis using xor_cancel e(3,4) by (simp add: c d)
qed

fun key_ok :: "int \<times> int \<Rightarrow> bool" where
  "key_ok (k0, k1) \<longleftrightarrow> (0 \<le> k0 \<and> k0 < 2 ^ 32) \<and> (0 \<le> k1 \<and> k1 < 2 ^ 32)"

lemma u32_of_int: "0 \<le> k \<Longrightarrow> k < 2 ^ 32 \<Longrightarrow> u32 (word_of_int k)"
  by (simp add: u32_uint uint_word_of_int)

lemma philox_round_ok: "lanes_ok c \<Longrightarrow> key_ok k \<Longrightarrow> lanes_ok (philox_round c k)"
  by (cases c; cases k) (simp add: Let_def and_mask32 u32_xor u32_high u32_of_int)

lemma bump_key_ok: "key_ok (bump_key k)"
  by (cases k) (simp add: int_and_mask32)

lemma philox_rounds_ok: "lanes_ok c \<Longrightarrow> key_ok k \<Longrightarrow> lanes_ok (philox_rounds is c k)"
  by (induction "is" c k rule: philox_rounds.induct) (simp_all add: philox_round_ok bump_key_ok)

lemma philox_rounds_inj:
  "lanes_ok c \<Longrightarrow> lanes_ok d \<Longrightarrow> key_ok k \<Longrightarrow> philox_rounds is c k = philox_rounds is d k \<Longrightarrow> c = d"
proof (induction "is" arbitrary: c d k)
  case (Cons i "is")
  let ?k = "if i \<noteq> 9 then bump_key k else k"
  have "key_ok ?k" using Cons.prems(3) bump_key_ok by simp
  moreover have "philox_rounds is (philox_round c k) ?k = philox_rounds is (philox_round d k) ?k"
    using Cons.prems(4) by (simp only: philox_rounds.simps)
  ultimately have "philox_round c k = philox_round d k"
    by (rule Cons.IH [OF philox_round_ok [OF Cons.prems(1,3)] philox_round_ok [OF Cons.prems(2,3)]])
  then show ?case by (rule philox_round_inj [OF Cons.prems(1,2)])
qed simp

lemma uint_ucast_up: "uint (ucast (w :: 32 word) :: 64 word) = uint w"
  by (rule uint_up_ucast) (simp add: is_up)

lemma u32_ucast: "u32 (ucast (w :: 32 word))"
  using uint_lt2p [of w] by (simp add: u32_uint uint_ucast_up)

lemma widen_ok: "lanes_ok (widen c)"
  by (cases c) (simp add: u32_ucast)

lemma ucast_64_32_64: "u32 w \<Longrightarrow> (ucast (ucast w :: 32 word) :: 64 word) = w"
  by (rule word_uint_eqI) (simp add: unsigned_ucast_eq u32_def)

lemma ucast_64_inj: "(ucast (a :: 32 word) :: 64 word) = ucast b \<Longrightarrow> a = b"
  using uint_ucast_up [of a] uint_ucast_up [of b] by (simp add: word_uint_eqI)

lemma widen_inj: "widen c = widen d \<Longrightarrow> c = d"
  by (cases c; cases d) (auto dest: ucast_64_inj)

lemma narrow_inj:
  assumes "lanes_ok c" "lanes_ok d" "narrow c = narrow d"
  shows "c = d"
  using assms by (cases c; cases d) (auto, (metis ucast_64_32_64)+)

lemma philox_injective:
  assumes "philox4x32_10 c key = philox4x32_10 d key"
  shows "c = d"
proof -
  let ?k = "(uint (fst key), uint (snd key))"
  have k: "key_ok ?k" using uint_lt2p [of "fst key"] uint_lt2p [of "snd key"] by simp
  have "philox_rounds [0..<10] (widen c) ?k = philox_rounds [0..<10] (widen d) ?k"
    using assms unfolding philox4x32_10_def
    by (intro narrow_inj philox_rounds_ok widen_ok k)
  then have "widen c = widen d" by (intro philox_rounds_inj [OF widen_ok widen_ok k])
  then show ?thesis by (rule widen_inj)
qed

lemma group_counter_inj:
  assumes "group_counter g t i = group_counter g' t' i'"
    and "0 \<le> g" "g < 2 ^ 64" "0 \<le> g'" "g' < 2 ^ 64"
    and "0 \<le> t" "t < 2 ^ 32" "0 \<le> t'" "t' < 2 ^ 32"
    and "0 \<le> i" "i < 2 ^ 32" "0 \<le> i'" "i' < 2 ^ 32"
  shows "g = g' \<and> t = t' \<and> i = i'"
proof -
  have inj: "x = y" if "(word_of_int x :: 32 word) = word_of_int y" "0 \<le> x" "x < 2 ^ 32" "0 \<le> y" "y < 2 ^ 32"
    for x y
    using that by (simp add: word_of_int_eq_iff take_bit_int_eq_self)
  have "g mod 2 ^ 32 = g' mod 2 ^ 32" "g div 2 ^ 32 = g' div 2 ^ 32"
    using assms(1-5) by (auto simp: group_counter_def int_and_mask32 drop_bit_eq_div intro!: inj)
  then have "g = g'" by (metis div_mult_mod_eq)
  moreover have "t = t'" "i = i'"
    using assms(1,6-) by (auto simp: group_counter_def intro!: inj)
  ultimately show ?thesis by simp
qed

text \<open>The Random123 known answers that the test suite checks.\<close>

lemma philox_known_answer_zero:
  "philox4x32_10 (0, 0, 0, 0) (0, 0) = [0x6627E8D5, 0xE169C58D, 0xBC57AC4C, 0x9B00DBD8]"
  by code_simp

lemma philox_known_answer_pi:
  "philox4x32_10 (0x243F6A88, 0x85A308D3, 0x13198A2E, 0x03707344) (0xA4093822, 0x299F31D0)
     = [0xD16CFE09, 0x94FDCCEB, 0x5001E420, 0x24126EA1]"
  by code_simp

subsection \<open>Properties\<close>

text \<open>
  C7: The stream maps element \<open>i\<close> to lane \<open>i mod 4\<close> of the block of group \<open>i div 4\<close>: what
  \<open>philox_words\<close> returns for a count agrees, element by element, with \<open>philox_block\<close>.
\<close>

theorem philox_words_lane_map:
  assumes "philox_words count seed tid iid = Inr ws" and "i < nat count" and "i < 2 ^ 66"
  shows "length ws = nat count
    \<and> (\<exists>blk. philox_block seed (int (i div 4)) tid iid = Inr blk \<and> ws ! i = blk ! (i mod 4))"
proof -
  have "i div 4 < 2 ^ 64" using assms(3) by (simp add: less_mult_imp_div_less)
  then have "int (i div 4) < 2 ^ 64" by (simp flip: of_nat_less_iff)
  then have "philox_block seed (int (i div 4)) tid iid
      = Inr (philox4x32_10 (group_counter (int (i div 4)) tid iid) (seed_key seed))"
    using assms(1) by (simp add: philox_words_Inr philox_block_def unsigned_arg_def not_less not_le)
  then show ?thesis using philox_words_length [OF assms(1)] philox_words_nth [OF assms(1,2)] by simp
qed

theorem philox_words_lane_map_witness:
  "\<exists>ws blk. philox_words 6 7 0 3 = Inr ws \<and> philox_block 7 1 0 3 = Inr blk \<and> ws ! 5 = blk ! 1"
proof -
  obtain ws where ws: "philox_words 6 7 0 3 = Inr ws" by (simp add: philox_words_def unsigned_arg_def)
  show ?thesis using philox_words_lane_map [OF ws, of 5] ws by auto
qed

text \<open>
  A longer request extends a shorter one: the first \<open>n\<close> words of the stream do not depend on
  how many words are asked for.
\<close>

theorem philox_words_prefix:
  assumes "philox_words m seed tid iid = Inr ws" and "0 \<le> n" "n \<le> m"
  shows "philox_words n seed tid iid = Inr (take (nat n) ws)"
proof -
  obtain vs where vs: "philox_words n seed tid iid = Inr vs"
    using assms by (simp add: philox_words_Inr)
  have len: "length vs = nat n" "length ws = nat m" using vs assms(1) by (simp_all add: philox_words_length)
  have "vs = take (nat n) ws"
  proof (rule nth_equalityI)
    fix i assume "i < length vs"
    then have "i < nat n" "i < nat m" using len assms(3) by auto
    then show "vs ! i = take (nat n) ws ! i"
      using philox_words_nth [OF vs] philox_words_nth [OF assms(1)] by simp
  qed (use len assms(3) in simp)
  then show ?thesis using vs by simp
qed

theorem philox_words_prefix_witness:
  "\<exists>ws. philox_words 9 1 2 3 = Inr ws \<and> philox_words 5 1 2 3 = Inr (take 5 ws)"
proof -
  obtain ws where ws: "philox_words 9 1 2 3 = Inr ws" by (simp add: philox_words_def unsigned_arg_def)
  show ?thesis using philox_words_prefix [OF ws, of 5] ws by auto
qed



end
