(* ===== verification/Ieee754.thy ===== *)
theory Ieee754
  imports Prelude "HOL-Library.Code_Target_Nat"
begin

text \<open>
  The floating-point values of the program. A Python \<open>float\<close> and a NumPy \<open>float64\<close> are IEEE 754
  binary64 values, a NumPy \<open>float32\<close> is a binary32 value, and every elementary operation rounds
  its exact result to nearest, ties to even. A finite value is kept as its sign and its exact
  rational magnitude, so signed zeros are distinct and every operation is computed exactly and
  then rounded. The \<open>rounding\<close> locale states what the numerical components use of a format:
  rounding is monotone and leaves the values of the format alone.
\<close>

subsection \<open>Formats and values\<close>

datatype fp = FNaN | FInf bool | FFin bool rat

text \<open>Precision in bits, exponent of the smallest quantum, exponent of the largest quantum.\<close>

record fp_format =
  fprec :: nat
  fmin :: int
  fmax :: int

definition binary32 :: fp_format where
  "binary32 = \<lparr>fprec = 24, fmin = - 149, fmax = 104\<rparr>"

definition binary64 :: fp_format where
  "binary64 = \<lparr>fprec = 53, fmin = - 1074, fmax = 971\<rparr>"

definition maxfin :: "fp_format \<Rightarrow> rat" where
  "maxfin F = (2 ^ fprec F - 1) * 2 powi fmax F"

lemma fprec_pos [simp]: "0 < fprec binary32" "0 < fprec binary64"
  by (simp_all add: binary32_def binary64_def)

subsection \<open>Rounding to nearest, ties to even\<close>

text \<open>The exponent of the leading bit of a positive rational.\<close>

definition ilog2 :: "rat \<Rightarrow> int" where
  "ilog2 r = (if 1 \<le> r then int (bit_length (nat \<lfloor>r\<rfloor>)) - 1
              else - int (bit_length (nat (\<lceil>1 / r\<rceil> - 1))))"

definition quantum_exp :: "fp_format \<Rightarrow> rat \<Rightarrow> int" where
  "quantum_exp F r = max (ilog2 r - (int (fprec F) - 1)) (fmin F)"

definition round_half_even :: "rat \<Rightarrow> int" where
  "round_half_even r =
     (let f = \<lfloor>r\<rfloor>; d = r - of_int f in
      if d < 1 / 2 then f else if 1 / 2 < d then f + 1 else if even f then f else f + 1)"

definition round_mag :: "fp_format \<Rightarrow> rat \<Rightarrow> rat" where
  "round_mag F r =
     (if r \<le> 0 then 0
      else of_int (round_half_even (r / 2 powi quantum_exp F r)) * 2 powi quantum_exp F r)"

text \<open>The magnitudes of a format (without its upper bound): the multiples of their quantum.\<close>

definition on_grid :: "fp_format \<Rightarrow> rat \<Rightarrow> bool" where
  "on_grid F r \<longleftrightarrow> r = 0 \<or> of_int \<lfloor>r / 2 powi quantum_exp F r\<rfloor> = r / 2 powi quantum_exp F r"

definition fp_round :: "fp_format \<Rightarrow> bool \<Rightarrow> rat \<Rightarrow> fp" where
  "fp_round F s r = (if maxfin F < round_mag F r then FInf s else FFin s (round_mag F r))"

lemma powi2_pos [simp]: "(0::rat) < 2 powi k" "(2::rat) powi k \<noteq> 0"
  by simp_all

lemma powi2_add: "(2::rat) powi (a + b) = 2 powi a * 2 powi b"
  by (simp add: power_int_add)

lemma powi2_Suc: "(2::rat) powi (a + 1) = 2 * 2 powi a"
  by (simp add: power_int_add)

lemma powi2_mono: "a \<le> b \<Longrightarrow> (2::rat) powi a \<le> 2 powi b"
  by (rule power_int_increasing) auto

lemma powi2_less_iff [simp]: "(2::rat) powi a < 2 powi b \<longleftrightarrow> a < b"
  by (metis powi2_mono less_le_not_le linorder_not_less order_less_le power_int_strict_increasing one_less_numeral_iff semiring_norm(76))

lemma powi2_nonneg_int: "0 \<le> a \<Longrightarrow> (2::rat) powi a = of_int (2 ^ nat a)"
  by (simp add: power_int_def)

lemma powi2_minus_nat: "(2::rat) powi (- int m) = 1 / 2 ^ m"
  by (simp add: power_int_minus inverse_eq_divide)

lemma ilog2_bounds:
  assumes "0 < r"
  shows "2 powi ilog2 r \<le> r" and "r < 2 powi (ilog2 r + 1)"
proof -
  have "2 powi ilog2 r \<le> r \<and> r < 2 powi (ilog2 r + 1)"
  proof (cases "1 \<le> r")
    case True
    define n where "n = nat \<lfloor>r\<rfloor>"
    have n: "0 < n" "of_nat n \<le> r" "r < of_nat n + 1"
      using True by (auto simp: n_def) linarith+
    have b: "2 ^ (bit_length n - 1) \<le> n" "n < 2 ^ bit_length n"
      using bit_length_bounds [OF n(1)] by auto
    have "(2::rat) ^ (bit_length n - 1) \<le> of_nat n"
      using b(1) by (rule of_nat_pow2_le)
    moreover have "of_nat n + 1 \<le> (2::rat) ^ bit_length n"
      using b(2) by (rule of_nat_less_pow2)
    moreover have "ilog2 r = int (bit_length n - 1)"
      using True bit_length_pos [OF n(1)] by (simp add: ilog2_def n_def)
    moreover have "ilog2 r + 1 = int (bit_length n)"
      using True by (simp add: ilog2_def n_def)
    ultimately show ?thesis using n by (simp only: power_int_of_nat) linarith
  next
    case False
    define n where "n = nat (\<lceil>1 / r\<rceil> - 1)"
    have "1 < 1 / r" using False assms by (simp add: field_simps)
    then have n: "0 < n" "of_nat n < 1 / r" "1 / r \<le> of_nat n + 1"
      by (auto simp: n_def) linarith+
    have b: "2 ^ (bit_length n - 1) \<le> n" "n < 2 ^ bit_length n"
      using bit_length_bounds [OF n(1)] by auto
    have lo: "(2::rat) ^ (bit_length n - 1) < 1 / r"
      using of_nat_pow2_le [OF b(1)] n(2) by linarith
    have hi: "1 / r \<le> (2::rat) ^ bit_length n"
      using of_nat_less_pow2 [OF b(2)] n(3) by linarith
    have k: "ilog2 r = - int (bit_length n)"
      using False by (simp add: ilog2_def n_def)
    have k1: "ilog2 r + 1 = - int (bit_length n - 1)"
      using k bit_length_pos [OF n(1)] by simp
    have "1 / 2 ^ bit_length n \<le> r" using hi assms by (simp add: field_simps)
    moreover have "r < 1 / 2 ^ (bit_length n - 1)" using lo assms by (simp add: field_simps)
    ultimately show ?thesis
      unfolding k1 unfolding k unfolding powi2_minus_nat by simp
  qed
  then show "2 powi ilog2 r \<le> r" and "r < 2 powi (ilog2 r + 1)" by auto
qed

lemma ilog2_unique:
  assumes "2 powi k \<le> r" "r < 2 powi (k + 1)"
  shows "ilog2 r = k"
proof -
  have r: "0 < r" using assms(1) by (rule less_le_trans [rotated]) simp
  have "2 powi ilog2 r < (2::rat) powi (k + 1)" "2 powi k < (2::rat) powi (ilog2 r + 1)"
    using ilog2_bounds [OF r] assms by linarith+
  then show ?thesis by simp
qed

lemma ilog2_mono: "0 < a \<Longrightarrow> a \<le> b \<Longrightarrow> ilog2 a \<le> ilog2 b"
proof -
  assume ab: "0 < a" "a \<le> b"
  have "2 powi ilog2 a < (2::rat) powi (ilog2 b + 1)"
    using ilog2_bounds [of a] ilog2_bounds [of b] ab by linarith
  then show ?thesis by simp
qed

lemma quantum_mono: "0 < a \<Longrightarrow> a \<le> b \<Longrightarrow> quantum_exp F a \<le> quantum_exp F b"
  using ilog2_mono [of a b] by (simp add: quantum_exp_def)

lemma round_half_even_bounds:
  "of_int (round_half_even r) - r \<le> 1 / 2" "r - of_int (round_half_even r) \<le> 1 / 2"
  by (simp_all add: round_half_even_def Let_def) linarith+

lemma round_half_even_of_int [simp]: "round_half_even (of_int n) = n"
  by (simp add: round_half_even_def)

lemma round_half_even_mono: "a \<le> b \<Longrightarrow> round_half_even a \<le> round_half_even b"
proof (cases "\<lfloor>a\<rfloor> = \<lfloor>b\<rfloor>")
  case True
  assume "a \<le> b"
  with True show ?thesis by (auto simp: round_half_even_def Let_def)
next
  case False
  assume "a \<le> b"
  with False have "\<lfloor>a\<rfloor> + 1 \<le> \<lfloor>b\<rfloor>" using floor_mono [of a b] by linarith
  moreover have "round_half_even a \<le> \<lfloor>a\<rfloor> + 1" "\<lfloor>b\<rfloor> \<le> round_half_even b"
    by (simp_all add: round_half_even_def Let_def)
  ultimately show ?thesis by linarith
qed

lemma round_half_even_ge: "of_int n \<le> r \<Longrightarrow> n \<le> round_half_even r"
  using round_half_even_mono [of "of_int n" r] by simp

lemma round_half_even_le: "r \<le> of_int n \<Longrightarrow> round_half_even r \<le> n"
  using round_half_even_mono [of r "of_int n"] by simp

subsection \<open>Rounding is monotone and exact on the grid\<close>

lemma on_grid_multiple:
  assumes "on_grid F r"
  obtains m where "r = of_int m * 2 powi quantum_exp F r"
proof (cases "r = 0")
  case True
  then show ?thesis using that [of 0] by simp
next
  case False
  with assms have "of_int \<lfloor>r / 2 powi quantum_exp F r\<rfloor> = r / 2 powi quantum_exp F r"
    by (simp add: on_grid_def)
  then have "r = of_int \<lfloor>r / 2 powi quantum_exp F r\<rfloor> * 2 powi quantum_exp F r"
    by (metis nonzero_eq_divide_eq powi2_pos(2))
  then show ?thesis by (rule that)
qed

lemma on_gridI:
  assumes "r = of_int m * 2 powi e" and "quantum_exp F r \<le> e"
  shows "on_grid F r"
proof -
  have "2 powi e = (2::rat) powi quantum_exp F r * 2 powi (e - quantum_exp F r)"
    by (simp add: power_int_add [symmetric])
  moreover have "(2::rat) powi (e - quantum_exp F r) = of_int (2 ^ nat (e - quantum_exp F r))"
    using assms(2) by (intro powi2_nonneg_int) simp
  ultimately have "r / 2 powi quantum_exp F r = of_int (m * 2 ^ nat (e - quantum_exp F r))"
    by (subst assms(1)) simp
  then show ?thesis unfolding on_grid_def by (metis floor_of_int)
qed

lemma on_grid_small:
  assumes "0 < fprec F" and "r = of_int m * 2 powi e" and "0 \<le> m" "m \<le> 2 ^ fprec F" and "fmin F \<le> e"
  shows "on_grid F r"
proof (cases "m = 0")
  case True
  then show ?thesis using assms(2) by (simp add: on_grid_def)
next
  case False
  then have m: "0 < m" using assms(3) by simp
  then have r: "0 < r" using assms(2) by simp
  show ?thesis
  proof (cases "m = 2 ^ fprec F")
    case True
    obtain p where p: "fprec F = Suc p" using assms(1) by (cases "fprec F") auto
    have r2: "r = 2 powi (e + int (fprec F))"
      using assms(2) True by (simp add: power_int_add)
    then have "ilog2 r = e + int (fprec F)"
      by (intro ilog2_unique) (simp_all add: power_int_add)
    then have "quantum_exp F r \<le> e + 1"
      using assms(5) by (simp add: quantum_exp_def)
    moreover have "r = of_int (2 ^ p) * 2 powi (e + 1)"
      using r2 p by (simp add: power_int_add)
    ultimately show ?thesis by (intro on_gridI)
  next
    case False
    then have "of_int m < (2::rat) powi int (fprec F)"
      using assms(4) by (metis less_le of_int_less_iff of_int_numeral of_int_power power_int_of_nat)
    then have "r < 2 powi (e + int (fprec F))"
      using assms(2) by (simp add: power_int_add mult.commute)
    then have "(2::rat) powi ilog2 r < 2 powi (e + int (fprec F))"
      using ilog2_bounds(1) [OF r] by linarith
    then have "ilog2 r < e + int (fprec F)" by simp
    then have "quantum_exp F r \<le> e" using assms(5) by (simp add: quantum_exp_def)
    with assms(2) show ?thesis by (intro on_gridI)
  qed
qed

lemma round_mag_nonneg [simp]: "0 \<le> round_mag F r"
proof (cases "r \<le> 0")
  case False
  then have "0 \<le> round_half_even (r / 2 powi quantum_exp F r)"
    by (intro round_half_even_ge) simp
  with False show ?thesis by (simp add: round_mag_def)
qed (simp add: round_mag_def)

lemma round_mag_0 [simp]: "round_mag F 0 = 0"
  by (simp add: round_mag_def)

lemma scaled_below_2p:
  assumes "0 < r"
  shows "r / 2 powi quantum_exp F r < 2 powi int (fprec F)"
proof -
  have "ilog2 r + 1 \<le> quantum_exp F r + int (fprec F)" by (simp add: quantum_exp_def)
  then have "(2::rat) powi (ilog2 r + 1) \<le> 2 powi (quantum_exp F r + int (fprec F))"
    by (rule powi2_mono)
  then have "r < 2 powi quantum_exp F r * 2 powi int (fprec F)"
    using ilog2_bounds(2) [OF assms] by (simp add: power_int_add)
  then show ?thesis by (simp add: field_simps)
qed

lemma round_significand_le:
  assumes "0 < r"
  shows "round_half_even (r / 2 powi quantum_exp F r) \<le> 2 ^ fprec F"
  using scaled_below_2p [OF assms, of F] by (intro round_half_even_le) simp

lemma round_mag_on_grid:
  assumes "0 < fprec F"
  shows "on_grid F (round_mag F r)"
proof (cases "r \<le> 0")
  case False
  then have r: "0 < r" by simp
  show ?thesis
  proof (rule on_grid_small [OF assms])
    show "round_mag F r = of_int (round_half_even (r / 2 powi quantum_exp F r)) * 2 powi quantum_exp F r"
      using False by (simp add: round_mag_def)
    show "0 \<le> round_half_even (r / 2 powi quantum_exp F r)"
      using r by (intro round_half_even_ge) simp
    show "round_half_even (r / 2 powi quantum_exp F r) \<le> 2 ^ fprec F"
      using round_significand_le [OF r] .
    show "fmin F \<le> quantum_exp F r" by (simp add: quantum_exp_def)
  qed
qed (simp add: round_mag_def on_grid_def)

lemma round_mag_id:
  assumes "0 \<le> r" and "on_grid F r"
  shows "round_mag F r = r"
proof (cases "r = 0")
  case False
  obtain m where m: "r = of_int m * 2 powi quantum_exp F r"
    using assms(2) by (rule on_grid_multiple)
  then have "r / 2 powi quantum_exp F r = of_int m" by (simp add: field_simps)
  then have "round_half_even (r / 2 powi quantum_exp F r) = m" by simp
  with m assms(1) False show ?thesis by (simp add: round_mag_def)
qed simp

lemma round_mag_mono:
  assumes p: "0 < fprec F" and "a \<le> b"
  shows "round_mag F a \<le> round_mag F b"
proof (cases "a \<le> 0")
  case True
  then show ?thesis by (simp add: round_mag_def [of F a])
next
  case False
  then have a: "0 < a" "0 < b" using assms(2) by linarith+
  let ?qa = "quantum_exp F a" and ?qb = "quantum_exp F b"
  show ?thesis
  proof (cases "?qa = ?qb")
    case True
    have "round_half_even (a / 2 powi ?qb) \<le> round_half_even (b / 2 powi ?qb)"
      using assms(2) by (intro round_half_even_mono divide_right_mono) auto
    then show ?thesis using True a by (simp add: round_mag_def)
  next
    case False
    then have less: "?qa + 1 \<le> ?qb" using quantum_mono [OF a(1) assms(2), of F] by simp
    then have qb: "?qb = ilog2 b - (int (fprec F) - 1)"
      by (simp add: quantum_exp_def)
    obtain k where k: "fprec F = Suc k" using p by (cases "fprec F") auto
    have "round_mag F a \<le> 2 ^ fprec F * 2 powi ?qa"
      using round_significand_le [OF a(1), of F] a by (simp add: round_mag_def)
    also have "\<dots> = 2 ^ k * 2 powi (?qa + 1)" using k by (simp add: power_int_add)
    also have "\<dots> \<le> 2 ^ k * 2 powi ?qb" using less powi2_mono by simp
    also have "\<dots> \<le> round_mag F b"
    proof -
      have "2 powi ilog2 b = (2::rat) ^ k * 2 powi ?qb"
        using qb k by (simp add: power_int_add [symmetric] flip: power_int_of_nat)
      then have "of_int (2 ^ k) \<le> b / 2 powi ?qb"
        using ilog2_bounds(1) [OF a(2)] by (simp add: field_simps)
      then have "2 ^ k \<le> round_half_even (b / 2 powi ?qb)" by (rule round_half_even_ge)
      then show ?thesis using a by (simp add: round_mag_def)
    qed
    finally show ?thesis .
  qed
qed

subsection \<open>The rounding interface\<close>

locale rounding =
  fixes rnd :: "rat \<Rightarrow> rat" and grid :: "rat \<Rightarrow> bool" and p :: nat
  assumes rnd_nonneg: "0 \<le> rnd r"
    and rnd_grid: "grid (rnd r)"
    and rnd_id: "0 \<le> r \<Longrightarrow> grid r \<Longrightarrow> rnd r = r"
    and rnd_mono: "a \<le> b \<Longrightarrow> rnd a \<le> rnd b"
    and grid_nat: "n \<le> 2 ^ p \<Longrightarrow> grid (of_nat n)"
begin

lemma grid_0: "grid 0"
  using grid_nat [of 0] by simp

lemma grid_1: "grid 1"
  using grid_nat [of 1] by simp

lemma rnd_le_grid: "grid g \<Longrightarrow> 0 \<le> g \<Longrightarrow> r \<le> g \<Longrightarrow> rnd r \<le> g"
  using rnd_mono [of r g] rnd_id [of g] by simp

lemma rnd_ge_grid: "grid g \<Longrightarrow> 0 \<le> g \<Longrightarrow> g \<le> r \<Longrightarrow> g \<le> rnd r"
  using rnd_mono [of g r] rnd_id [of g] by simp

lemma rnd_idem: "rnd (rnd r) = rnd r"
  by (rule rnd_id [OF rnd_nonneg rnd_grid])

lemma rnd_nat: "n \<le> 2 ^ p \<Longrightarrow> rnd (of_nat n) = of_nat n"
  by (rule rnd_id) (simp_all add: grid_nat)

lemma rnd_unit: "0 \<le> r \<Longrightarrow> r \<le> 1 \<Longrightarrow> rnd r \<le> 1"
  by (rule rnd_le_grid [OF grid_1]) simp_all

lemma rnd_self_quotient: "0 < r \<Longrightarrow> rnd (r / r) = 1"
  using rnd_id [OF _ grid_1] by simp

lemma rnd_sum_ge_left: "grid a \<Longrightarrow> 0 \<le> a \<Longrightarrow> 0 \<le> b \<Longrightarrow> a \<le> rnd (a + b)"
  by (rule rnd_ge_grid) simp_all

lemma rnd_sum_ge_right: "grid b \<Longrightarrow> 0 \<le> a \<Longrightarrow> 0 \<le> b \<Longrightarrow> b \<le> rnd (a + b)"
  by (rule rnd_ge_grid) simp_all

lemma rnd_product_ge: "grid a \<Longrightarrow> 0 \<le> a \<Longrightarrow> 1 \<le> b \<Longrightarrow> a \<le> rnd (a * b)"
  by (rule rnd_ge_grid) (simp_all add: mult_le_cancel_left1)

end

lemma on_grid_nat:
  assumes "0 < fprec F" and "fmin F \<le> 0" and "n \<le> 2 ^ fprec F"
  shows "on_grid F (of_nat n)"
proof (rule on_grid_small [OF assms(1)])
  show "of_nat n = of_int (int n) * (2::rat) powi 0" by simp
  show "int n \<le> 2 ^ fprec F" using assms(3) by (metis of_nat_le_iff of_nat_numeral of_nat_power)
qed (use assms(2) in auto)

interpretation r32: rounding "round_mag binary32" "on_grid binary32" 24
proof
  show "n \<le> 2 ^ 24 \<Longrightarrow> on_grid binary32 (of_nat n)" for n
    using on_grid_nat [of binary32 n] by (simp add: binary32_def)
qed (simp_all add: round_mag_on_grid round_mag_id round_mag_mono)

interpretation r64: rounding "round_mag binary64" "on_grid binary64" 53
proof
  show "n \<le> 2 ^ 53 \<Longrightarrow> on_grid binary64 (of_nat n)" for n
    using on_grid_nat [of binary64 n] by (simp add: binary64_def)
qed (simp_all add: round_mag_on_grid round_mag_id round_mag_mono)

subsection \<open>Operations\<close>

definition fp_num :: "fp \<Rightarrow> rat" where
  "fp_num x = (case x of FFin s r \<Rightarrow> if s then - r else r | _ \<Rightarrow> 0)"

definition fp_finite :: "fp \<Rightarrow> bool" where
  "fp_finite x = (case x of FFin s r \<Rightarrow> True | _ \<Rightarrow> False)"

definition fp_isnan :: "fp \<Rightarrow> bool" where
  "fp_isnan x \<longleftrightarrow> x = FNaN"

definition fp_signbit :: "fp \<Rightarrow> bool" where
  "fp_signbit x = (case x of FNaN \<Rightarrow> False | FInf s \<Rightarrow> s | FFin s r \<Rightarrow> s)"

text \<open>A value of the format: finite values lie on the grid and under the largest finite value.\<close>

definition fp_ok :: "fp_format \<Rightarrow> fp \<Rightarrow> bool" where
  "fp_ok F x = (case x of FFin s r \<Rightarrow> 0 \<le> r \<and> r \<le> maxfin F \<and> on_grid F r | _ \<Rightarrow> True)"

definition fp_zero :: fp where
  "fp_zero = FFin False 0"

definition fp_of_nat :: "nat \<Rightarrow> fp" where
  "fp_of_nat n = FFin False (of_nat n)"

definition fp_neg :: "fp \<Rightarrow> fp" where
  "fp_neg x = (case x of FNaN \<Rightarrow> FNaN | FInf s \<Rightarrow> FInf (\<not> s) | FFin s r \<Rightarrow> FFin (\<not> s) r)"

definition fp_abs :: "fp \<Rightarrow> fp" where
  "fp_abs x = (case x of FNaN \<Rightarrow> FNaN | FInf s \<Rightarrow> FInf False | FFin s r \<Rightarrow> FFin False r)"

text \<open>The exact value \<open>v\<close> rounded; \<open>z\<close> is the sign of an exact zero.\<close>

definition fp_of_rat :: "fp_format \<Rightarrow> bool \<Rightarrow> rat \<Rightarrow> fp" where
  "fp_of_rat F z v = (if v = 0 then FFin z 0 else fp_round F (v < 0) \<bar>v\<bar>)"

fun fp_add :: "fp_format \<Rightarrow> fp \<Rightarrow> fp \<Rightarrow> fp" where
  "fp_add F FNaN y = FNaN"
| "fp_add F x FNaN = FNaN"
| "fp_add F (FInf s) (FInf t) = (if s = t then FInf s else FNaN)"
| "fp_add F (FInf s) (FFin t r) = FInf s"
| "fp_add F (FFin s r) (FInf t) = FInf t"
| "fp_add F (FFin s a) (FFin t b) =
     fp_of_rat F (s \<and> t) (fp_num (FFin s a) + fp_num (FFin t b))"

definition fp_sub :: "fp_format \<Rightarrow> fp \<Rightarrow> fp \<Rightarrow> fp" where
  "fp_sub F x y = fp_add F x (fp_neg y)"

fun fp_mul :: "fp_format \<Rightarrow> fp \<Rightarrow> fp \<Rightarrow> fp" where
  "fp_mul F FNaN y = FNaN"
| "fp_mul F x FNaN = FNaN"
| "fp_mul F (FInf s) (FInf t) = FInf (s \<noteq> t)"
| "fp_mul F (FInf s) (FFin t b) = (if b = 0 then FNaN else FInf (s \<noteq> t))"
| "fp_mul F (FFin s a) (FInf t) = (if a = 0 then FNaN else FInf (s \<noteq> t))"
| "fp_mul F (FFin s a) (FFin t b) = fp_round F (s \<noteq> t) (a * b)"

fun fp_div :: "fp_format \<Rightarrow> fp \<Rightarrow> fp \<Rightarrow> fp" where
  "fp_div F FNaN y = FNaN"
| "fp_div F x FNaN = FNaN"
| "fp_div F (FInf s) (FInf t) = FNaN"
| "fp_div F (FInf s) (FFin t b) = FInf (s \<noteq> t)"
| "fp_div F (FFin s a) (FInf t) = FFin (s \<noteq> t) 0"
| "fp_div F (FFin s a) (FFin t b) =
     (if b = 0 then if a = 0 then FNaN else FInf (s \<noteq> t) else fp_round F (s \<noteq> t) (a / b))"

text \<open>\<open>np.floor\<close>: the result of a value in a binary format is again in the format.\<close>

definition fp_floor :: "fp \<Rightarrow> fp" where
  "fp_floor x = (case x of FFin s r \<Rightarrow> FFin s (if s then of_int \<lceil>r\<rceil> else of_int \<lfloor>r\<rfloor>) | _ \<Rightarrow> x)"

text \<open>Conversion from another format.\<close>

definition fp_cast :: "fp_format \<Rightarrow> fp \<Rightarrow> fp" where
  "fp_cast F x = (case x of FFin s r \<Rightarrow> fp_round F s r | _ \<Rightarrow> x)"

text \<open>Comparisons are false as soon as one side is a NaN; the two zeros are equal.\<close>

fun fp_lt :: "fp \<Rightarrow> fp \<Rightarrow> bool" where
  "fp_lt FNaN y = False"
| "fp_lt x FNaN = False"
| "fp_lt (FInf s) (FInf t) = (s \<and> \<not> t)"
| "fp_lt (FInf s) (FFin t b) = s"
| "fp_lt (FFin s a) (FInf t) = (\<not> t)"
| "fp_lt (FFin s a) (FFin t b) = (fp_num (FFin s a) < fp_num (FFin t b))"

definition fp_eq :: "fp \<Rightarrow> fp \<Rightarrow> bool" where
  "fp_eq x y \<longleftrightarrow> (case (x, y) of (FInf s, FInf t) \<Rightarrow> s = t
     | (FFin s a, FFin t b) \<Rightarrow> fp_num (FFin s a) = fp_num (FFin t b) | _ \<Rightarrow> False)"

instantiation fp :: ord
begin

definition less_fp :: "fp \<Rightarrow> fp \<Rightarrow> bool" where
  "less_fp x y = fp_lt x y"

definition less_eq_fp :: "fp \<Rightarrow> fp \<Rightarrow> bool" where
  "less_eq_fp x y \<longleftrightarrow> fp_lt x y \<or> fp_eq x y"

instance ..

end

text \<open>\<open>np.minimum\<close> and \<open>np.maximum\<close> propagate a NaN.\<close>

definition fp_min :: "fp \<Rightarrow> fp \<Rightarrow> fp" where
  "fp_min x y = (if x = FNaN then x else if y = FNaN then y else if fp_lt y x then y else x)"

definition fp_max :: "fp \<Rightarrow> fp \<Rightarrow> fp" where
  "fp_max x y = (if x = FNaN then x else if y = FNaN then y else if fp_lt x y then y else x)"

subsection \<open>Square root\<close>

fun isqrt :: "nat \<Rightarrow> nat" where
  "isqrt n = (if n = 0 then 0
              else let r = 2 * isqrt (n div 4) in if (r + 1) * (r + 1) \<le> n then r + 1 else r)"

declare isqrt.simps [simp del]

text \<open>
  The exact root of \<open>x\<close> lies between \<open>m\<close> and \<open>m + 1\<close> quanta, where \<open>m\<close> is the integer root of
  \<open>x\<close> in squared quanta; the tie with \<open>m + 1/2\<close> is decided on the squares.
\<close>

definition root_quantum :: "fp_format \<Rightarrow> rat \<Rightarrow> int" where
  "root_quantum F x = max (ilog2 x div 2 - (int (fprec F) - 1)) (fmin F)"

definition root_significand :: "rat \<Rightarrow> int" where
  "root_significand y =
     (let m = int (isqrt (nat \<lfloor>y\<rfloor>)); h = (of_int m + 1 / 2) * (of_int m + 1 / 2) in
      if y < h then m else if h < y then m + 1 else if even m then m else m + 1)"

definition round_sqrt :: "fp_format \<Rightarrow> rat \<Rightarrow> rat" where
  "round_sqrt F x =
     (if x \<le> 0 then 0
      else of_int (root_significand (x / (2 powi root_quantum F x * 2 powi root_quantum F x)))
           * 2 powi root_quantum F x)"

definition fp_sqrt :: "fp_format \<Rightarrow> fp \<Rightarrow> fp" where
  "fp_sqrt F x = (case x of FNaN \<Rightarrow> FNaN
     | FInf s \<Rightarrow> if s then FNaN else FInf False
     | FFin s r \<Rightarrow> if r = 0 then FFin s 0 else if s then FNaN else FFin False (round_sqrt F r))"

lemma isqrt_0 [simp]: "isqrt 0 = 0"
  by (subst isqrt.simps) simp

lemma isqrt_bounds: "isqrt n * isqrt n \<le> n \<and> n < (isqrt n + 1) * (isqrt n + 1)"
proof (induction n rule: isqrt.induct)
  case (1 n)
  show ?case
  proof (cases "n = 0")
    case True
    then show ?thesis by simp
  next
    case False
    define k where "k = isqrt (n div 4)"
    have k: "k * k \<le> n div 4" "n div 4 < (k + 1) * (k + 1)"
      using 1 [OF False] by (auto simp: k_def)
    then have lo: "(2 * k) * (2 * k) \<le> n" and hi: "n < (2 * k + 2) * (2 * k + 2)"
      by (auto simp: algebra_simps)
    have "isqrt n = (if (2 * k + 1) * (2 * k + 1) \<le> n then 2 * k + 1 else 2 * k)"
      using False by (subst isqrt.simps) (simp add: Let_def k_def)
    then show ?thesis using lo hi by simp
  qed
qed

lemma isqrt_le: "n < m * m \<Longrightarrow> isqrt n < m"
  using isqrt_bounds [of n] by (metis le_less_trans mult_le_mono not_less)

lemma isqrt_ge: "m * m \<le> n \<Longrightarrow> m \<le> isqrt n"
  using isqrt_bounds [of n]
  by (metis Suc_eq_plus1 less_le_trans mult_le_mono not_less not_less_eq_eq)

lemma root_significand_ge:
  assumes "of_nat m * of_nat m \<le> y"
  shows "int m \<le> root_significand y"
proof -
  have "of_nat (m * m) \<le> y" using assms by simp
  then have "int (m * m) \<le> \<lfloor>y\<rfloor>" by (simp add: le_floor_iff)
  then have "m * m \<le> nat \<lfloor>y\<rfloor>" by (metis nat_int nat_mono)
  then have "m \<le> isqrt (nat \<lfloor>y\<rfloor>)" by (rule isqrt_ge)
  then show ?thesis by (auto simp: root_significand_def Let_def)
qed

lemma root_significand_le:
  assumes "y < of_nat m * of_nat m"
  shows "root_significand y \<le> int m"
proof -
  have "isqrt (nat \<lfloor>y\<rfloor>) < m" if "0 \<le> y"
  proof (rule isqrt_le)
    have "of_int \<lfloor>y\<rfloor> \<le> y" by simp
    then have "of_int \<lfloor>y\<rfloor> < (of_nat m * of_nat m :: rat)" using assms by (rule le_less_trans)
    then have "of_int \<lfloor>y\<rfloor> < (of_int (int (m * m)) :: rat)" by simp
    then have "\<lfloor>y\<rfloor> < int (m * m)" by (simp only: of_int_less_iff)
    moreover have "0 \<le> \<lfloor>y\<rfloor>" using that by simp
    ultimately show "nat \<lfloor>y\<rfloor> < m * m" by (metis nat_less_iff)
  qed
  moreover have "isqrt (nat \<lfloor>y\<rfloor>) = 0" if "\<not> 0 \<le> y"
    using that by simp
  moreover have "root_significand y \<le> 0" if "\<not> 0 \<le> y"
    using that calculation(2) [OF that] by (simp add: root_significand_def Let_def)
  ultimately show ?thesis by (cases "0 \<le> y") (force simp: root_significand_def Let_def)+
qed

lemma on_grid_0 [simp]: "on_grid F 0"
  by (simp add: on_grid_def)

lemma root_scaled_below:
  assumes "0 < x"
  shows "x / (2 powi root_quantum F x * 2 powi root_quantum F x)
         < of_nat (2 ^ fprec F) * of_nat (2 ^ fprec F)"
proof -
  let ?q = "root_quantum F x"
  have "ilog2 x + 1 \<le> 2 * (ilog2 x div 2) + 2" by presburger
  also have "\<dots> \<le> ?q + ?q + int (fprec F) + int (fprec F)"
  proof -
    have "ilog2 x div 2 - (int (fprec F) - 1) \<le> ?q" by (simp add: root_quantum_def)
    then show ?thesis by linarith
  qed
  finally have "(2::rat) powi (ilog2 x + 1) \<le> 2 powi (?q + ?q + int (fprec F) + int (fprec F))"
    by (rule powi2_mono)
  moreover have "(2::rat) powi (?q + ?q + int (fprec F) + int (fprec F))
      = (2 powi ?q * 2 powi ?q) * (2 ^ fprec F * 2 ^ fprec F)"
    by (simp only: powi2_add power_int_of_nat mult.assoc)
  ultimately have "x < (2 powi ?q * 2 powi ?q) * (2 ^ fprec F * 2 ^ fprec F)"
    using ilog2_bounds(2) [OF assms] by linarith
  then show ?thesis by (simp add: divide_less_eq mult.commute)
qed

lemma round_sqrt_on_grid:
  assumes "0 < fprec F"
  shows "on_grid F (round_sqrt F x)"
proof (cases "x \<le> 0")
  case False
  let ?q = "root_quantum F x"
  let ?m = "root_significand (x / (2 powi ?q * 2 powi ?q))"
  show ?thesis
  proof (rule on_grid_small [OF assms])
    show "round_sqrt F x = of_int ?m * 2 powi ?q" using False by (simp add: round_sqrt_def)
    have "of_nat 0 * of_nat 0 \<le> x / (2 powi ?q * 2 powi ?q)" using False by simp
    then show "0 \<le> ?m" using root_significand_ge by fastforce
    show "?m \<le> 2 ^ fprec F"
      using root_significand_le [OF root_scaled_below [of x F]] False by simp
    show "fmin F \<le> ?q" by (simp add: root_quantum_def)
  qed
qed (simp add: round_sqrt_def)

lemma round_sqrt_ge_1:
  assumes "0 < fprec F" and "fmin F \<le> 1 - int (fprec F)" and "1 \<le> x"
  shows "1 \<le> round_sqrt F x"
proof -
  obtain k where k: "fprec F = Suc k" using assms(1) by (cases "fprec F") auto
  define h where "h = ilog2 x div 2"
  have "2 powi ilog2 x \<le> x" using ilog2_bounds(1) assms(3) by force
  moreover have "(2::rat) powi 0 < 2 powi (ilog2 x + 1)"
    using ilog2_bounds(2) [of x] assms(3) by simp
  then have "0 \<le> ilog2 x" by (subst (asm) powi2_less_iff) simp
  moreover have "h + h \<le> ilog2 x" by (simp add: h_def)
  then have "(2::rat) powi (h + h) \<le> 2 powi ilog2 x" by (rule powi2_mono)
  then have "(2::rat) powi h * 2 powi h \<le> 2 powi ilog2 x" by (simp only: powi2_add)
  ultimately have h: "0 \<le> h" "2 powi h * 2 powi h \<le> x" by (auto simp: h_def)
  have q: "root_quantum F x = h - int k"
    using assms(2) h(1) k by (simp add: root_quantum_def h_def)
  have "of_nat (2 ^ k) * of_nat (2 ^ k) \<le> x / (2 powi (h - int k) * 2 powi (h - int k))"
  proof -
    have "(2::rat) ^ k * 2 ^ k * (2 powi (h - int k) * 2 powi (h - int k)) = 2 powi h * 2 powi h"
      by (simp add: power_int_diff)
    with h(2) show ?thesis by (simp add: le_divide_eq)
  qed
  then have "int (2 ^ k) \<le> root_significand (x / (2 powi (h - int k) * 2 powi (h - int k)))"
    by (rule root_significand_ge)
  then have "of_int (2 ^ k) * 2 powi (h - int k) \<le> round_sqrt F x"
    using assms(3) by (simp add: round_sqrt_def q)
  moreover have "of_int (2 ^ k) * 2 powi (h - int k) = (2::rat) powi h"
    by (simp add: power_int_diff)
  moreover have "1 \<le> (2::rat) powi h" using powi2_mono [OF h(1)] by simp
  ultimately show ?thesis by linarith
qed

subsection \<open>Quotients of format values against one\<close>

lemma grid_gap:
  assumes "on_grid F a" "on_grid F b" "0 < a" "a < b"
  shows "2 powi quantum_exp F a \<le> b - a"
proof -
  let ?q = "quantum_exp F a"
  obtain m where m: "a = of_int m * 2 powi ?q" using assms(1) by (rule on_grid_multiple)
  obtain n where n: "b = of_int n * 2 powi quantum_exp F b"
    using assms(2) by (rule on_grid_multiple)
  have "?q \<le> quantum_exp F b" using assms by (intro quantum_mono) auto
  then have "(2::rat) powi (quantum_exp F b - ?q) = of_int (2 ^ nat (quantum_exp F b - ?q))"
    by (intro powi2_nonneg_int) simp
  moreover have "(2::rat) powi quantum_exp F b = 2 powi (quantum_exp F b - ?q) * 2 powi ?q"
    by (simp add: power_int_add [symmetric])
  ultimately have "(2::rat) powi quantum_exp F b = of_int (2 ^ nat (quantum_exp F b - ?q)) * 2 powi ?q"
    by simp
  with n have b: "b = of_int (n * 2 ^ nat (quantum_exp F b - ?q)) * 2 powi ?q" (is "b = of_int ?k * _")
    by simp
  have "of_int m < (of_int ?k :: rat)"
    using assms(4) by (subst (asm) m, subst (asm) b) (simp only: mult_less_cancel_right_pos powi2_pos)
  then have "m + 1 \<le> ?k" by (simp only: of_int_less_iff)
  then have "(of_int (m + 1) :: rat) \<le> of_int ?k" by (simp only: of_int_le_iff)
  then have "of_int (m + 1) * 2 powi ?q \<le> (of_int ?k :: rat) * 2 powi ?q"
    by (rule mult_right_mono) simp
  then have "of_int m * 2 powi ?q + 2 powi ?q \<le> b" using b by (simp add: algebra_simps)
  then show ?thesis using m by linarith
qed

lemma below_2p_quantum: "0 < r \<Longrightarrow> r < 2 ^ fprec F * 2 powi quantum_exp F r"
  using scaled_below_2p [of r F] by (simp add: field_simps)

lemma round_half_even_gt: "of_int n + 1 / 2 < r \<Longrightarrow> n + 1 \<le> round_half_even r"
  using round_half_even_bounds(2) [of r] by linarith

lemma quotient_gt_1:
  assumes p: "0 < fprec F" "fmin F \<le> 1 - int (fprec F)"
    and g: "on_grid F a" "on_grid F b" and ab: "0 < b" "b < a"
  shows "1 < round_mag F (a / b)"
proof -
  obtain k where k: "fprec F = Suc k" using p(1) by (cases "fprec F") auto
  define g' where "g' = 1 + 1 / (2::rat) ^ k"
  have two_pow: "(2::rat) powi (- int k) = 1 / 2 ^ k" by (rule powi2_minus_nat)
  have grid: "on_grid F g'"
  proof (rule on_grid_small [OF p(1)])
    show "g' = of_int (2 ^ k + 1) * 2 powi (- int k)" by (simp add: g'_def two_pow field_simps)
    show "2 ^ k + 1 \<le> (2::int) ^ fprec F" by (simp add: k)
  qed (use p k in auto)
  have "2 powi quantum_exp F b \<le> a - b" by (rule grid_gap [OF g(2,1) ab])
  then have "b < 2 ^ fprec F * (a - b)"
    using below_2p_quantum [OF ab(1), of F] by (meson less_le_trans mult_left_mono zero_le_numeral zero_le_power)
  then have big: "1 + 1 / 2 ^ fprec F < a / b" using ab by (simp add: field_simps)
  have "g' \<le> round_mag F (a / b)"
  proof (cases "g' \<le> a / b")
    case True
    then show ?thesis
      using round_mag_mono [OF p(1) True] round_mag_id [OF _ grid] by (simp add: g'_def)
  next
    case False
    have one: "1 < a / b" using ab by simp
    have "g' \<le> 2" by (simp add: g'_def)
    then have "ilog2 (a / b) = 0" using False one by (intro ilog2_unique) auto
    then have q: "quantum_exp F (a / b) = - int k" using p k by (simp add: quantum_exp_def)
    have "of_int (2 ^ k) + 1 / 2 < a / b / 2 powi (- int k)"
      using big unfolding two_pow k by (simp add: field_simps)
    then have "2 ^ k + 1 \<le> round_half_even (a / b / 2 powi (- int k))" by (rule round_half_even_gt)
    then have "(of_int (2 ^ k + 1) :: rat) \<le> of_int (round_half_even (a / b / 2 powi (- int k)))"
      by (simp only: of_int_le_iff)
    then have "of_int (2 ^ k + 1) * 2 powi (- int k)
        \<le> (of_int (round_half_even (a / b / 2 powi (- int k))) :: rat) * 2 powi (- int k)"
      by (rule mult_right_mono) simp
    also have "\<dots> = round_mag F (a / b)" using one by (simp only: round_mag_def q) simp
    finally have "of_int (2 ^ k + 1) * 2 powi (- int k) \<le> round_mag F (a / b)" .
    then show ?thesis by (simp add: g'_def two_pow field_simps)
  qed
  moreover have "1 < g'" by (simp add: g'_def)
  ultimately show ?thesis by linarith
qed

lemma quotient_lt_1:
  assumes p: "0 < fprec F" "fmin F \<le> - int (fprec F)"
    and g: "on_grid F a" "on_grid F b" and ab: "0 < a" "a < b"
  shows "round_mag F (a / b) < 1"
proof -
  define P where "P = (2::rat) ^ fprec F"
  define h where "h = 1 - 1 / P"
  have P: "1 < P" using p(1) by (simp add: P_def)
  have two_pow: "(2::rat) powi (- int (fprec F)) = 1 / P" unfolding P_def by (rule powi2_minus_nat)
  have grid: "on_grid F h"
  proof (rule on_grid_small [OF p(1)])
    show "h = of_int (2 ^ fprec F - 1) * 2 powi (- int (fprec F))"
      using P by (simp add: h_def two_pow field_simps) (simp add: P_def)
  qed (use p in auto)
  let ?q = "(2::rat) powi quantum_exp F a"
  obtain n where n: "a = of_int n * ?q" using g(1) by (rule on_grid_multiple)
  have "of_int n * ?q < P * ?q" using below_2p_quantum [OF ab(1), of F] n by (simp add: P_def)
  then have "of_int n < (of_int (2 ^ fprec F) :: rat)" by (simp add: P_def)
  then have "n \<le> 2 ^ fprec F - 1" by (simp only: of_int_less_iff)
  then have "(of_int n :: rat) \<le> of_int (2 ^ fprec F - 1)" by (simp only: of_int_le_iff)
  then have "of_int n * ?q \<le> of_int (2 ^ fprec F - 1) * ?q" by (rule mult_right_mono) simp
  then have "of_int n * ?q \<le> (P - 1) * ?q" by (simp add: P_def)
  then have top: "a \<le> (P - 1) * ?q" by (simp only: n [symmetric])
  have "a \<le> b * h"
  proof (cases "b \<le> P * ?q")
    case True
    have "?q \<le> b - a" by (rule grid_gap [OF g ab])
    moreover have "b / P \<le> ?q" using True P by (simp add: field_simps)
    ultimately show ?thesis by (simp add: h_def algebra_simps)
  next
    case False
    have "(P - 1) * ?q = (P * ?q) * h" using P by (simp add: h_def field_simps)
    also have "\<dots> \<le> b * h" using False P by (intro mult_right_mono) (auto simp: h_def)
    finally show ?thesis using top by linarith
  qed
  then have "a / b \<le> h" using ab by (simp add: field_simps)
  moreover have "0 \<le> h" using P by (simp add: h_def)
  ultimately have "round_mag F (a / b) \<le> h"
    using round_mag_mono [OF p(1), of "a / b" h] round_mag_id [OF _ grid] by simp
  moreover have "h < 1" using P by (simp add: h_def)
  ultimately show ?thesis by linarith
qed

subsection \<open>Evaluation\<close>

text \<open>
  Code equations: naturals enter the rationals through the integers, and a value up to
  \<open>2 ^ fprec\<close> is rounded without computing the largest finite value of the format.
\<close>

lemma rat_of_nat_eval [code_unfold]: "(of_nat :: nat \<Rightarrow> rat) = (\<lambda>n. of_int (int n))"
  by auto

lemma fp_round_small:
  assumes "0 < fprec F" "fmin F \<le> 0" "1 \<le> fmax F" "r \<le> 2 ^ fprec F"
  shows "round_mag F r \<le> maxfin F"
proof -
  have "on_grid F (2 ^ fprec F)" using on_grid_nat [OF assms(1,2), of "2 ^ fprec F"] by simp
  then have "round_mag F (2 ^ fprec F) = 2 ^ fprec F" by (intro round_mag_id) simp_all
  then have "round_mag F r \<le> 2 ^ fprec F" using round_mag_mono [OF assms(1,4)] by simp
  also have "2 ^ fprec F \<le> (2 ^ fprec F - 1) * (2::rat) powi 1"
    using assms(1) self_le_power [of "2::rat" "fprec F"] by simp
  also have "\<dots> \<le> (2 ^ fprec F - 1) * 2 powi fmax F"
    using powi2_mono [OF assms(3)] by (intro mult_left_mono) simp_all
  finally show ?thesis by (simp add: maxfin_def)
qed

lemma fp_round_eval [code]:
  "fp_round F s r =
     (if 0 < fprec F \<and> fmin F \<le> 0 \<and> 1 \<le> fmax F \<and> r \<le> 2 ^ fprec F then FFin s (round_mag F r)
      else if maxfin F < round_mag F r then FInf s else FFin s (round_mag F r))"
  using fp_round_small [of F r] by (auto simp: fp_round_def)

subsection \<open>The two formats\<close>

lemma binary32_fields [simp]: "fprec binary32 = 24" "fmin binary32 = - 149" "fmax binary32 = 104"
  by (simp_all add: binary32_def)

lemma binary64_fields [simp]: "fprec binary64 = 53" "fmin binary64 = - 1074" "fmax binary64 = 971"
  by (simp_all add: binary64_def)

end
