(* ===== verification/Codec.thy ===== *)
theory Codec
  imports Ieee754
begin

unbundle bit_operations_syntax

text \<open>
  The record codec of \<open>src/stoquant/oracle.py\<close>: the 20-byte header \<open><4sBBHQf\<close>, the 8-bit and
  4-bit payloads and \<open>decode_record\<close> with its checks in order. The lemmas give the round trips
  of the little-endian fields, of the binary32 bit pattern and of both payloads, and the exact
  set of records the decoder accepts.
\<close>

type_synonym byte = "8 word"

subsection \<open>Little-endian fields\<close>

fun le_bytes :: "nat \<Rightarrow> nat \<Rightarrow> byte list" where
  "le_bytes 0 n = []"
| "le_bytes (Suc k) n = of_nat (n mod 256) # le_bytes k (n div 256)"

fun le_value :: "byte list \<Rightarrow> nat" where
  "le_value [] = 0"
| "le_value (b # bs) = unat b + 256 * le_value bs"

lemma unat_byte: "unat (b :: byte) < 256"
  using unsigned_less [of b] by simp

lemma length_le_bytes [simp]: "length (le_bytes k n) = k"
  by (induction k arbitrary: n) auto

lemma le_value_bytes: "n < 256 ^ k \<Longrightarrow> le_value (le_bytes k n) = n"
proof (induction k arbitrary: n)
  case (Suc k)
  have "n div 256 < 256 ^ k" using Suc.prems by (simp add: div_less_iff_less_mult mult.commute)
  moreover have "unat (of_nat (n mod 256) :: byte) = n mod 256"
    by (simp add: unat_of_nat)
  ultimately show ?case using Suc.IH by simp
qed simp

lemma le_value_less: "le_value bs < 256 ^ length bs"
proof (induction bs)
  case (Cons b bs)
  have "unat b < 256" by (rule unat_byte)
  then show ?case using Cons by simp
qed simp

lemma le_bytes_value: "le_bytes (length bs) (le_value bs) = bs"
proof (induction bs)
  case (Cons b bs)
  have "unat b < 256" by (rule unat_byte)
  then show ?case using Cons by simp
qed simp

subsection \<open>The binary32 bit pattern\<close>

text \<open>
  \<open>struct\<close> format \<open>f\<close>: sign bit, biased exponent, fraction. The significand of a finite value is
  its magnitude in quanta; below \<open>2 ^ 23\<close> it is subnormal. Every NaN pattern reads as \<open>FNaN\<close>.
\<close>

definition significand32 :: "rat \<Rightarrow> nat" where
  "significand32 r = nat \<lfloor>r / 2 powi quantum_exp binary32 r\<rfloor>"

definition mag_bits32 :: "rat \<Rightarrow> nat" where
  "mag_bits32 r =
     (if r = 0 then 0
      else if significand32 r < 2 ^ 23 then significand32 r
      else nat (quantum_exp binary32 r + 150) * 2 ^ 23 + (significand32 r - 2 ^ 23))"

definition bits32_of_fp :: "fp \<Rightarrow> nat" where
  "bits32_of_fp x = (case x of
       FNaN \<Rightarrow> 0x7FC00000
     | FInf s \<Rightarrow> (if s then 2 ^ 31 else 0) + 0x7F800000
     | FFin s r \<Rightarrow> (if s then 2 ^ 31 else 0) + mag_bits32 r)"

definition mag_of_bits32 :: "nat \<Rightarrow> rat" where
  "mag_of_bits32 n =
     (let e = n div 2 ^ 23; f = n mod 2 ^ 23 in
      if e = 0 then of_nat f * 2 powi (- 149)
      else of_nat (2 ^ 23 + f) * 2 powi (int e - 150))"

definition fp_of_bits32 :: "nat \<Rightarrow> fp" where
  "fp_of_bits32 n =
     (let s = (2 ^ 31 \<le> n); m = n mod 2 ^ 31 in
      if m = 0x7F800000 then FInf s else if 0x7F800000 < m then FNaN else FFin s (mag_of_bits32 m))"

lemma quantum32_ge: "- 149 \<le> quantum_exp binary32 r"
  by (simp add: quantum_exp_def)

lemma significand32_value:
  assumes "0 < r" "on_grid binary32 r"
  shows "r = of_nat (significand32 r) * 2 powi quantum_exp binary32 r"
    and "significand32 r < 2 ^ 24"
    and "2 ^ 23 \<le> significand32 r \<or> quantum_exp binary32 r = - 149"
proof -
  let ?q = "quantum_exp binary32 r"
  let ?n = "nat \<lfloor>r / 2 powi ?q\<rfloor>"
  have eq: "of_int \<lfloor>r / 2 powi ?q\<rfloor> = r / 2 powi ?q" using assms by (auto simp: on_grid_def)
  have nn: "0 \<le> \<lfloor>r / 2 powi ?q\<rfloor>" using assms(1) by simp
  have n: "of_nat ?n = r / 2 powi ?q" using eq nn by (simp add: of_nat_nat)
  show "r = of_nat (significand32 r) * 2 powi ?q"
    unfolding significand32_def n by simp
  have "(of_nat ?n :: rat) < of_nat (2 ^ 24)"
    using scaled_below_2p [OF assms(1), of binary32] unfolding n by simp
  then have "?n < 2 ^ 24" by (simp only: of_nat_less_iff)
  then show "significand32 r < 2 ^ 24" by (simp only: significand32_def)
  show "2 ^ 23 \<le> significand32 r \<or> ?q = - 149"
  proof (cases "?q = - 149")
    case False
    then have "ilog2 r = ?q + 23" by (simp add: quantum_exp_def max_def split: if_splits)
    then have "(2::rat) powi (?q + 23) \<le> r" using ilog2_bounds(1) [OF assms(1)] by simp
    then have "(2::rat) ^ 23 \<le> r / 2 powi ?q" by (simp add: power_int_add le_divide_eq)
    then have "(of_nat (2 ^ 23) :: rat) \<le> of_nat ?n" unfolding n by simp
    then have "2 ^ 23 \<le> ?n" by (simp only: of_nat_le_iff)
    then show ?thesis unfolding significand32_def by (rule disjI1)
  qed simp
qed

lemma maxfin32: "maxfin binary32 = (2 ^ 24 - 1) * 2 ^ 104"
  by (simp add: maxfin_def)

lemma quantum32_le:
  assumes "0 < r" "r \<le> maxfin binary32"
  shows "quantum_exp binary32 r \<le> 104"
proof -
  have "maxfin binary32 < 2 powi 128" by (simp add: maxfin32)
  then have "2 powi ilog2 r < (2::rat) powi 128" using ilog2_bounds(1) [OF assms(1)] assms(2) by linarith
  then have "ilog2 r < 128" by (simp only: powi2_less_iff)
  then show ?thesis by (simp add: quantum_exp_def)
qed

lemma mag_bits32_roundtrip:
  assumes "0 \<le> r" "r \<le> maxfin binary32" "on_grid binary32 r"
  shows "mag_of_bits32 (mag_bits32 r) = r" and "mag_bits32 r < 0x7F800000"
proof -
  have "mag_of_bits32 (mag_bits32 r) = r \<and> mag_bits32 r < 0x7F800000"
  proof (cases "r = 0")
    case True
    then show ?thesis by (simp add: mag_bits32_def mag_of_bits32_def)
  next
    case False
    then have r: "0 < r" using assms(1) by simp
    let ?q = "quantum_exp binary32 r" and ?m = "significand32 r"
    have m: "r = of_nat ?m * 2 powi ?q" "?m < 2 ^ 24" "2 ^ 23 \<le> ?m \<or> ?q = - 149"
      using significand32_value [OF r assms(3)] by auto
    show ?thesis
    proof (cases "?m < 2 ^ 23")
      case True
      then have "?q = - 149" using m(3) by linarith
      moreover have "mag_bits32 r = ?m" using False True by (simp add: mag_bits32_def)
      ultimately show ?thesis using True m(1) by (simp add: mag_of_bits32_def)
    next
      case big: False
      define E where "E = nat (?q + 150)"
      have E: "0 < E" "E \<le> 254" "int E - 150 = ?q"
        using quantum32_le [OF r assms(2)] quantum32_ge [of r] by (auto simp: E_def)
      have b: "mag_bits32 r = E * 2 ^ 23 + (?m - 2 ^ 23)"
        using False big by (simp add: mag_bits32_def E_def)
      have f: "?m - 2 ^ 23 < 2 ^ 23" using m(2) by simp
      have "mag_of_bits32 (mag_bits32 r) = of_nat (2 ^ 23 + (?m - 2 ^ 23)) * 2 powi (int E - 150)"
        unfolding b mag_of_bits32_def Let_def using f E(1) by simp
      also have "\<dots> = r" using big m(1) E(3) by simp
      finally show ?thesis unfolding b using f E(2) by simp
    qed
  qed
  then show "mag_of_bits32 (mag_bits32 r) = r" and "mag_bits32 r < 0x7F800000" by auto
qed

lemma bits32_roundtrip: "fp_ok binary32 x \<Longrightarrow> fp_of_bits32 (bits32_of_fp x) = x"
proof (cases x)
  case (FFin s r)
  moreover assume "fp_ok binary32 x"
  ultimately have r: "0 \<le> r" "r \<le> maxfin binary32" "on_grid binary32 r" by (auto simp: fp_ok_def)
  let ?b = "mag_bits32 r"
  have b: "mag_of_bits32 ?b = r" "?b < 0x7F800000" using mag_bits32_roundtrip [OF r] by auto
  then show ?thesis using FFin
    by (cases s) (simp_all add: bits32_of_fp_def fp_of_bits32_def Let_def)
qed (simp_all add: bits32_of_fp_def fp_of_bits32_def Let_def)

lemma bits32_less: "fp_ok binary32 x \<Longrightarrow> bits32_of_fp x < 256 ^ 4"
proof (cases x)
  case (FFin s r)
  moreover assume "fp_ok binary32 x"
  ultimately have "mag_bits32 r < 0x7F800000"
    using mag_bits32_roundtrip(2) [of r] by (simp add: fp_ok_def)
  then show ?thesis using FFin by (simp add: bits32_of_fp_def)
qed (simp_all add: bits32_of_fp_def)

lemma mag_of_bits32_fields:
  assumes "m < 0x7F800000"
  obtains e n where "mag_of_bits32 m = of_nat n * 2 powi e" "n < 2 ^ 24" "- 149 \<le> e" "e \<le> 104"
    and "(e = - 149 \<and> n < 2 ^ 23 \<and> m = n) \<or> (2 ^ 23 \<le> n \<and> m = nat (e + 150) * 2 ^ 23 + (n - 2 ^ 23))"
proof (cases "m div 2 ^ 23 = 0")
  case True
  then have "m < 2 ^ 23" by (simp add: div_eq_0_iff)
  then show ?thesis using that [of m "- 149"] True by (simp add: mag_of_bits32_def)
next
  case False
  let ?e = "int (m div 2 ^ 23) - 150" and ?n = "2 ^ 23 + m mod 2 ^ 23"
  have "m div 2 ^ 23 \<le> 254" using assms by (simp add: less_mult_imp_div_less flip: less_Suc_eq_le)
  moreover have "m = m div 2 ^ 23 * 2 ^ 23 + m mod 2 ^ 23" by (rule div_mult_mod_eq [symmetric])
  moreover have "m mod 2 ^ 23 < 2 ^ 23" by simp
  moreover have "mag_of_bits32 m = of_nat ?n * 2 powi ?e"
    using False by (simp add: mag_of_bits32_def Let_def)
  ultimately show ?thesis using that [of ?n ?e] False by auto
qed

lemma mag_of_bits32_ok:
  assumes "m < 0x7F800000"
  shows "0 \<le> mag_of_bits32 m" "mag_of_bits32 m \<le> maxfin binary32" "on_grid binary32 (mag_of_bits32 m)"
    and "mag_bits32 (mag_of_bits32 m) = m"
proof -
  obtain e n where r: "mag_of_bits32 m = of_nat n * 2 powi e" "n < 2 ^ 24" "- 149 \<le> e" "e \<le> 104"
    and m: "(e = - 149 \<and> n < 2 ^ 23 \<and> m = n) \<or> (2 ^ 23 \<le> n \<and> m = nat (e + 150) * 2 ^ 23 + (n - 2 ^ 23))"
    using assms by (rule mag_of_bits32_fields)
  show "0 \<le> mag_of_bits32 m" by (simp add: r(1))
  have "n + 1 \<le> 2 ^ 24" using r(2) by simp
  then have "(of_nat n :: rat) \<le> 2 ^ 24 - 1" using of_nat_less_pow2 [OF r(2)] by simp
  then have "of_nat n * 2 powi e \<le> (2 ^ 24 - 1) * (2::rat) powi 104"
    using powi2_mono [OF r(4)] by (intro mult_mono) auto
  then show "mag_of_bits32 m \<le> maxfin binary32" by (simp add: r(1) maxfin32)
  show "on_grid binary32 (mag_of_bits32 m)"
    by (rule on_grid_small [of _ _ "int n" e]) (use r in auto)
  show "mag_bits32 (mag_of_bits32 m) = m"
  proof (cases "n = 0")
    case True
    then have "mag_bits32 (mag_of_bits32 m) = 0" by (simp add: mag_bits32_def r(1))
    moreover have "m = 0" using m True by auto
    ultimately show ?thesis by simp
  next
    case False
    have pos: "0 < mag_of_bits32 m" using False by (simp add: r(1))
    have q: "quantum_exp binary32 (mag_of_bits32 m) = e"
      using m
    proof
      assume "e = - 149 \<and> n < 2 ^ 23 \<and> m = n"
      then have "mag_of_bits32 m < 2 powi (- 126)"
      proof -
        assume a: "e = - 149 \<and> n < 2 ^ 23 \<and> m = n"
        then have "(of_nat n :: rat) < 2 powi 23" using of_nat_less_pow2 [of n 23] by simp
        then have "of_nat n * 2 powi (- 149) < 2 powi 23 * (2::rat) powi (- 149)" by simp
        then show ?thesis using a r(1) by (simp add: power_int_add [symmetric])
      qed
      then have "(2::rat) powi ilog2 (mag_of_bits32 m) < 2 powi (- 126)"
        using ilog2_bounds(1) [OF pos] by linarith
      then have "ilog2 (mag_of_bits32 m) < - 126" by (simp only: powi2_less_iff)
      then show ?thesis using \<open>e = - 149 \<and> n < 2 ^ 23 \<and> m = n\<close> by (simp add: quantum_exp_def)
    next
      assume a: "2 ^ 23 \<le> n \<and> m = nat (e + 150) * 2 ^ 23 + (n - 2 ^ 23)"
      have "(2::rat) powi (e + 23) \<le> of_nat n * 2 powi e"
        using of_nat_pow2_le [of 23 n] a by (simp add: power_int_add mult.commute)
      moreover have "of_nat n * 2 powi e < (2::rat) powi (e + 23 + 1)"
        using of_nat_less_pow2 [OF r(2)] by (simp add: power_int_add mult.commute)
      ultimately have "ilog2 (mag_of_bits32 m) = e + 23" unfolding r(1) by (rule ilog2_unique)
      then show ?thesis using r(3) by (simp add: quantum_exp_def)
    qed
    have "significand32 (mag_of_bits32 m) = n"
      unfolding significand32_def q by (simp add: r(1))
    then show ?thesis using m False pos q by (auto simp: mag_bits32_def)
  qed
qed

lemma fp_of_bits32_ok: "fp_ok binary32 (fp_of_bits32 n)"
  by (simp add: fp_of_bits32_def Let_def fp_ok_def mag_of_bits32_ok)

lemma bits32_of_fp_of_bits32:
  assumes "n < 256 ^ 4" and "fp_finite (fp_of_bits32 n)"
  shows "bits32_of_fp (fp_of_bits32 n) = n"
proof -
  have m: "n mod 2 ^ 31 < 0x7F800000"
    using assms(2) by (auto simp: fp_of_bits32_def Let_def fp_finite_def split: if_splits)
  have "n = (if 2 ^ 31 \<le> n then 2 ^ 31 else 0) + n mod 2 ^ 31"
    using assms(1) by (auto simp: mod_if)
  then show ?thesis using m mag_of_bits32_ok(4) [OF m]
    by (simp add: fp_of_bits32_def Let_def bits32_of_fp_def)
qed

subsection \<open>Header\<close>

definition signed_limit_for :: "nat \<Rightarrow> (py_exn, nat) result" where
  "signed_limit_for bits =
     (if bits = 4 then Inr 7 else if bits = 8 then Inr 127
      else Inl (ValueError ''unsupported bit width; supported widths are 4 and 8''))"

definition header_size :: nat where "header_size = 20"

definition magic :: "byte list" where "magic = [0x4D, 0x53, 0x51, 0x31]"

definition version :: nat where "version = 1"

record header =
  h_magic :: "byte list"
  h_version :: nat
  h_bits :: nat
  h_reserved :: nat
  h_count :: nat
  h_scale :: fp

text \<open>\<open>HEADER_STRUCT.pack(_MAGIC, _VERSION, bits, 0, count, scale)\<close> and \<open>unpack_from\<close>.\<close>

definition pack_header :: "nat \<Rightarrow> nat \<Rightarrow> fp \<Rightarrow> byte list" where
  "pack_header bits count scale =
     magic @ le_bytes 1 version @ le_bytes 1 bits @ le_bytes 2 0 @ le_bytes 8 count
     @ le_bytes 4 (bits32_of_fp scale)"

definition unpack_header :: "byte list \<Rightarrow> header" where
  "unpack_header data =
     \<lparr>h_magic = take 4 data, h_version = le_value (take 1 (drop 4 data)),
      h_bits = le_value (take 1 (drop 5 data)), h_reserved = le_value (take 2 (drop 6 data)),
      h_count = le_value (take 8 (drop 8 data)),
      h_scale = fp_of_bits32 (le_value (take 4 (drop 16 data)))\<rparr>"

lemma length_pack_header [simp]: "length (pack_header bits count scale) = header_size"
  by (simp add: pack_header_def magic_def header_size_def)

lemma unpack_pack_header:
  assumes "bits < 256" "count < 256 ^ 8" "fp_ok binary32 scale"
  shows "unpack_header (pack_header bits count scale @ payload) =
    \<lparr>h_magic = magic, h_version = version, h_bits = bits, h_reserved = 0, h_count = count, h_scale = scale\<rparr>"
proof -
  have "le_value (le_bytes 1 version) = version" "le_value (le_bytes 1 bits) = bits"
    "le_value (le_bytes 2 0) = 0" "le_value (le_bytes 8 count) = count"
    "le_value (le_bytes 4 (bits32_of_fp scale)) = bits32_of_fp scale"
    using assms le_value_bytes [of version 1] le_value_bytes [of bits 1] le_value_bytes [of 0 2]
      le_value_bytes [of count 8] le_value_bytes [OF bits32_less [OF assms(3)]]
    by (simp_all add: version_def del: le_bytes.simps)
  then show ?thesis
    using bits32_roundtrip [OF assms(3)]
    by (simp add: unpack_header_def pack_header_def magic_def del: le_bytes.simps)
qed

lemma pack_unpack_header:
  assumes "header_size \<le> length data"
    and "h_magic (unpack_header data) = magic" "h_version (unpack_header data) = version"
    and "h_reserved (unpack_header data) = 0" "fp_finite (h_scale (unpack_header data))"
  shows "pack_header (h_bits (unpack_header data)) (h_count (unpack_header data)) (h_scale (unpack_header data))
         = take header_size data"
proof -
  have le: "le_bytes k (le_value (take k (drop i data))) = take k (drop i data)" if "i + k \<le> 20" for i k
    using le_bytes_value [of "take k (drop i data)"] that assms(1) by (simp add: header_size_def)
  have lt: "le_value (take 4 (drop 16 data)) < 256 ^ 4"
    using le_value_less [of "take 4 (drop 16 data)"] assms(1) by (simp add: header_size_def)
  have "le_bytes 1 version = take 1 (drop 4 data)" "le_bytes 2 0 = take 2 (drop 6 data)"
    using le [of 4 1] le [of 6 2] assms(3,4) by (simp_all add: unpack_header_def)
  moreover have "le_bytes 4 (bits32_of_fp (h_scale (unpack_header data))) = take 4 (drop 16 data)"
    using le [of 16 4] bits32_of_fp_of_bits32 [OF lt] assms(5) by (simp add: unpack_header_def)
  ultimately have "pack_header (h_bits (unpack_header data)) (h_count (unpack_header data)) (h_scale (unpack_header data))
      = take 4 data @ take 1 (drop 4 data) @ take 1 (drop 5 data) @ take 2 (drop 6 data)
        @ take 8 (drop 8 data) @ take 4 (drop 16 data)"
    using assms(2) le [of 5 1] le [of 8 8] by (simp add: pack_header_def unpack_header_def)
  also have "\<dots> = take (4 + (1 + (1 + (2 + (8 + 4))))) data"
    unfolding take_add drop_drop by simp
  finally show ?thesis by (simp add: header_size_def)
qed

subsection \<open>Payloads\<close>

text \<open>
  The 4-bit packing loop takes codes in pairs, the lower index in the low nibble; the last code
  of an odd payload stands alone.
\<close>

fun pack4 :: "byte list \<Rightarrow> byte list" where
  "pack4 [] = []"
| "pack4 [a] = [a AND 0x0F]"
| "pack4 (a # b # cs) = ((a AND 0x0F) OR push_bit 4 (b AND 0x0F)) # pack4 cs"

definition pack_payload :: "nat \<Rightarrow> byte list \<Rightarrow> byte list" where
  "pack_payload bits codes = (if bits = 8 then codes else pack4 codes)"

definition payload_length :: "nat \<Rightarrow> nat \<Rightarrow> nat" where
  "payload_length bits count = (if bits = 4 then (count + 1) div 2 else count)"

definition unpack4 :: "byte list \<Rightarrow> byte list" where
  "unpack4 payload = concat (map (\<lambda>b. [b AND 0x0F, drop_bit 4 b AND 0x0F]) payload)"

definition unpack_payload :: "nat \<Rightarrow> nat \<Rightarrow> byte list \<Rightarrow> (py_exn, byte list) result" where
  "unpack_payload bits count payload =
     (if bits = 8 then Inr payload
      else if count mod 2 = 1 \<and> drop_bit 4 (last payload) \<noteq> 0
           then Inl (ValueError ''unused padding nibble must be zero'')
      else Inr (take count (unpack4 payload)))"

subsection \<open>Decoding\<close>

definition fp_of_int :: "int \<Rightarrow> fp" where
  "fp_of_int z = FFin (z < 0) (of_int \<bar>z\<bar>)"

definition decode_code :: "nat \<Rightarrow> fp \<Rightarrow> byte \<Rightarrow> fp" where
  "decode_code s scale c =
     fp_mul binary32 (fp_div binary32 (fp_of_int (int (unat c) - int s)) (fp_of_nat s)) scale"

definition decode_codes :: "nat \<Rightarrow> fp \<Rightarrow> byte list \<Rightarrow> (py_exn, fp list) result" where
  "decode_codes s scale codes =
     (if \<exists>c \<in> set codes. 2 * s < unat c then Inl (ValueError ''record contains an invalid code'')
      else if fp_eq scale fp_zero then
        (if \<exists>c \<in> set codes. unat c \<noteq> s
         then Inl (ValueError ''zero-scale records must contain only the center code'')
         else Inr (replicate (length codes) fp_zero))
      else Inr (map (decode_code s scale) codes))"

definition decode_record :: "byte list \<Rightarrow> (py_exn, fp list) result" where
  "decode_record data =
     (if length data < header_size then Inl (ValueError ''record is shorter than the 20-byte header'')
      else
        let h = unpack_header data; payload = drop header_size data in
        if h_magic h \<noteq> magic then Inl (ValueError ''bad record magic'')
        else if h_version h \<noteq> version then Inl (ValueError ''unsupported record version'')
        else bindE (signed_limit_for (h_bits h)) (\<lambda>s.
          if h_reserved h \<noteq> 0 then Inl (ValueError ''reserved header bytes must be zero'')
          else if length payload \<noteq> payload_length (h_bits h) (h_count h)
          then Inl (ValueError ''payload length does not match element count'')
          else if \<not> fp_finite (h_scale h) \<or> fp_lt (h_scale h) fp_zero
          then Inl (ValueError ''scale must be finite and non-negative'')
          else if h_count h = 0 \<and> \<not> fp_eq (h_scale h) fp_zero
          then Inl (ValueError ''empty records require zero scale'')
          else bindE (unpack_payload (h_bits h) (h_count h) payload) (\<lambda>codes.
            decode_codes s (h_scale h) codes)))"

subsection \<open>The payload interface\<close>

text \<open>
  What the record format needs of a payload packing: sizes, and that packing and unpacking are
  inverse on valid codes and on accepted payloads.
\<close>

locale payload_codec =
  fixes pack :: "byte list \<Rightarrow> byte list"
    and unpack :: "nat \<Rightarrow> byte list \<Rightarrow> (py_exn, byte list) result"
    and size :: "nat \<Rightarrow> nat" and limit :: nat
  assumes length_pack: "length (pack cs) = size (length cs)"
    and unpack_pack: "\<forall>c \<in> set cs. unat c \<le> 2 * limit \<Longrightarrow> unpack (length cs) (pack cs) = Inr cs"
    and length_unpack: "length bs = size n \<Longrightarrow> unpack n bs = Inr cs \<Longrightarrow> length cs = n"
    and pack_unpack: "length bs = size n \<Longrightarrow> unpack n bs = Inr cs \<Longrightarrow> pack cs = bs"
begin

lemma unpack_iff:
  assumes "\<forall>c \<in> set cs. unat c \<le> 2 * limit"
  shows "length bs = size n \<and> unpack n bs = Inr cs \<longleftrightarrow> n = length cs \<and> bs = pack cs"
proof
  assume "length bs = size n \<and> unpack n bs = Inr cs"
  then have b: "length bs = size n" "unpack n bs = Inr cs" by auto
  show "n = length cs \<and> bs = pack cs" using length_unpack [OF b] pack_unpack [OF b] by simp
next
  assume "n = length cs \<and> bs = pack cs"
  then show "length bs = size n \<and> unpack n bs = Inr cs"
    using length_pack [of cs] unpack_pack [OF assms] by simp
qed

lemma pack_inj:
  assumes "\<forall>c \<in> set cs. unat c \<le> 2 * limit" "\<forall>c \<in> set ds. unat c \<le> 2 * limit"
    and "length cs = length ds" "pack cs = pack ds"
  shows "cs = ds"
proof -
  have "Inr cs = (unpack (length cs) (pack cs) :: (py_exn, byte list) result)"
    by (rule unpack_pack [OF assms(1), symmetric])
  also have "\<dots> = unpack (length ds) (pack ds)" by (simp only: assms(3,4))
  also have "\<dots> = Inr ds" by (rule unpack_pack [OF assms(2)])
  finally show ?thesis by (simp only: sum.inject)
qed

end

interpretation codec8: payload_codec "pack_payload 8" "unpack_payload 8" "payload_length 8" 127
  by unfold_locales (auto simp: pack_payload_def unpack_payload_def payload_length_def)

lemma unpack4_simps [simp]:
  "unpack4 [] = []" "unpack4 (b # bs) = (b AND 0x0F) # (drop_bit 4 b AND 0x0F) # unpack4 bs"
  by (simp_all add: unpack4_def)

lemma length_unpack4 [simp]: "length (unpack4 bs) = 2 * length bs"
  by (induction bs) auto

lemma length_pack4: "length (pack4 cs) = (length cs + 1) div 2"
  by (induction cs rule: pack4.induct) auto

lemma nibble_mask: "(b :: byte) AND 0x0F = take_bit 4 b"
  by (simp add: take_bit_eq_mask mask_eq_exp_minus_1)

lemma nibble_small: "unat (a :: byte) \<le> 14 \<Longrightarrow> a AND 0x0F = a"
proof -
  assume "unat a \<le> 14"
  then have "unat (take_bit 4 a) = unat a" by (simp add: unsigned_take_bit_eq take_bit_nat_eq_self)
  then have "take_bit 4 a = a" by (simp only: word_unat_eq_iff)
  then show ?thesis by (simp only: nibble_mask)
qed

lemma drop_nibble: "drop_bit 4 (a :: byte) AND 0x0F = drop_bit 4 a"
  unfolding nibble_mask
  by (rule bit_word_eqI) (auto simp: bit_simps dest: bit_imp_le_length)

lemma pair_nibbles:
  "((a AND 0x0F) OR push_bit 4 (b AND 0x0F)) AND 0x0F = (a :: byte) AND 0x0F"
  "drop_bit 4 ((a AND 0x0F) OR push_bit 4 (b AND 0x0F)) AND 0x0F = (b :: byte) AND 0x0F"
  unfolding nibble_mask
  by (rule bit_word_eqI; auto simp: bit_simps)+

lemma byte_of_nibbles: "((x AND 0x0F) AND 0x0F) OR push_bit 4 ((drop_bit 4 x AND 0x0F) AND 0x0F) = (x :: byte)"
  unfolding nibble_mask
  by (rule bit_word_eqI) (auto simp: bit_simps not_less le_add_diff_inverse2)

lemma drop_nibble_0:
  assumes "drop_bit 4 (x :: byte) = 0"
  shows "(x AND 0x0F) AND 0x0F = x"
  using byte_of_nibbles [of x] assms by simp

lemma pack4_take_unpack4:
  assumes "length bs = (n + 1) div 2" and "n mod 2 = 1 \<longrightarrow> drop_bit 4 (last bs) = 0"
  shows "pack4 (take n (unpack4 bs)) = bs"
  using assms
proof (induction bs arbitrary: n)
  case (Cons b bs)
  show ?case
  proof (cases "n = 1")
    case True
    then have "bs = []" using Cons.prems(1) by simp
    then show ?thesis using True Cons.prems(2) drop_nibble_0 [of b] by simp
  next
    case False
    then obtain m where n: "n = Suc (Suc m)" using Cons.prems(1)
      by (cases n; cases "n - 1") auto
    have "m mod 2 = 1 \<longrightarrow> bs \<noteq> []" using Cons.prems(1) n by auto
    then have "pack4 (take m (unpack4 bs)) = bs"
      using Cons.prems n by (intro Cons.IH) auto
    then show ?thesis by (simp only: n unpack4_simps take_Suc_Cons pack4.simps byte_of_nibbles)
  qed
qed simp

lemma unpack4_pack4:
  assumes "\<forall>c \<in> set cs. unat c \<le> 14"
  shows "take (length cs) (unpack4 (pack4 cs)) = cs"
  using assms
proof (induction cs rule: pack4.induct)
  case (3 a b cs)
  then have ab: "a AND 0x0F = a" "b AND 0x0F = b" and "take (length cs) (unpack4 (pack4 cs)) = cs"
    by (simp_all add: nibble_small)
  then show ?case
    by (simp only: pack4.simps unpack4_simps list.size add_0_right add_Suc_right take_Suc_Cons
          pair_nibbles [of a b, unfolded ab] ab)
qed (simp_all add: nibble_small)

lemma last_pack4:
  assumes "odd (length cs)"
  shows "drop_bit 4 (last (pack4 cs)) = 0"
  using assms
proof (induction cs rule: pack4.induct)
  case (2 a)
  show ?case unfolding nibble_mask pack4.simps last.simps
    by (simp, rule bit_word_eqI) (auto simp: bit_simps)
next
  case (3 a b cs)
  have "cs \<noteq> []" using 3(2) by auto
  then have "pack4 cs \<noteq> []" by (cases cs rule: pack4.cases) auto
  then show ?case using 3 by simp
qed simp

interpretation codec4: payload_codec "pack_payload 4" "unpack_payload 4" "payload_length 4" 7
proof
  show "length (pack_payload 4 cs) = payload_length 4 (length cs)" for cs
    by (simp add: pack_payload_def payload_length_def length_pack4)
  show "unpack_payload 4 (length cs) (pack_payload 4 cs) = Inr cs"
    if "\<forall>c \<in> set cs. unat c \<le> 2 * 7" for cs
  proof -
    have "\<not> (length cs mod 2 = 1 \<and> drop_bit 4 (last (pack4 cs)) \<noteq> 0)"
      using last_pack4 [of cs] by (auto simp only: odd_iff_mod_2_eq_one)
    then show ?thesis using unpack4_pack4 [of cs] that
      by (simp add: pack_payload_def unpack_payload_def)
  qed
  show "length cs = n" if "length bs = payload_length 4 n" "unpack_payload 4 n bs = Inr cs" for bs n cs
    using that by (auto simp: payload_length_def unpack_payload_def split: if_splits)
  show "pack_payload 4 cs = bs" if "length bs = payload_length 4 n" "unpack_payload 4 n bs = Inr cs" for bs n cs
    using that pack4_take_unpack4 [of bs n]
    by (auto simp: pack_payload_def payload_length_def unpack_payload_def split: if_splits)
qed

subsection \<open>The records the decoder accepts\<close>

text \<open>
  A record is canonical for a width, a scale and a code list when it is the header packed for
  them followed by the packed codes; the codes it decodes to are given by \<open>decoded\<close>.
\<close>

definition decoded :: "nat \<Rightarrow> fp \<Rightarrow> byte list \<Rightarrow> fp list" where
  "decoded s scale codes =
     (if fp_eq scale fp_zero then replicate (length codes) fp_zero else map (decode_code s scale) codes)"

definition codes_ok :: "nat \<Rightarrow> fp \<Rightarrow> byte list \<Rightarrow> bool" where
  "codes_ok s scale codes \<longleftrightarrow>
     fp_finite scale \<and> \<not> fp_lt scale fp_zero \<and> (codes = [] \<longrightarrow> fp_eq scale fp_zero)
     \<and> (\<forall>c \<in> set codes. unat c \<le> 2 * s) \<and> (fp_eq scale fp_zero \<longrightarrow> (\<forall>c \<in> set codes. unat c = s))"

lemma decode_codes_Inr [result_simps]:
  "decode_codes s scale codes = Inr vs \<longleftrightarrow>
     (\<forall>c \<in> set codes. unat c \<le> 2 * s) \<and> (fp_eq scale fp_zero \<longrightarrow> (\<forall>c \<in> set codes. unat c = s))
     \<and> vs = decoded s scale codes"
  by (auto simp: decode_codes_def decoded_def not_less dest: leD)

lemma signed_limit_Inr [result_simps]:
  "signed_limit_for bits = Inr s \<longleftrightarrow> bits = 4 \<and> s = 7 \<or> bits = 8 \<and> s = 127"
  by (auto simp: signed_limit_for_def)

lemma unpack_payload_iff:
  assumes "signed_limit_for bits = Inr s" "\<forall>c \<in> set codes. unat c \<le> 2 * s"
  shows "length bs = payload_length bits n \<and> unpack_payload bits n bs = Inr codes
     \<longleftrightarrow> n = length codes \<and> bs = pack_payload bits codes"
  using assms(1) unfolding signed_limit_Inr
proof (elim disjE conjE)
  assume "bits = 4" "s = 7"
  then show ?thesis using codec4.unpack_iff [of codes bs n] assms(2) by simp
next
  assume "bits = 8" "s = 127"
  then show ?thesis using codec8.unpack_iff [of codes bs n] assms(2) by simp
qed

lemma decode_record_checks:
  "decode_record data = Inr vs \<longleftrightarrow>
     header_size \<le> length data \<and> h_magic (unpack_header data) = magic
     \<and> h_version (unpack_header data) = version \<and> h_reserved (unpack_header data) = 0
     \<and> fp_finite (h_scale (unpack_header data)) \<and> \<not> fp_lt (h_scale (unpack_header data)) fp_zero
     \<and> (h_count (unpack_header data) = 0 \<longrightarrow> fp_eq (h_scale (unpack_header data)) fp_zero)
     \<and> (\<exists>s codes. signed_limit_for (h_bits (unpack_header data)) = Inr s
          \<and> length (drop header_size data)
             = payload_length (h_bits (unpack_header data)) (h_count (unpack_header data))
          \<and> unpack_payload (h_bits (unpack_header data)) (h_count (unpack_header data)) (drop header_size data)
             = Inr codes
          \<and> decode_codes s (h_scale (unpack_header data)) codes = Inr vs)"
  unfolding decode_record_def Let_def
  by (cases "signed_limit_for (h_bits (unpack_header data))";
      cases "unpack_payload (h_bits (unpack_header data)) (h_count (unpack_header data)) (drop header_size data)")
     (simp_all add: not_less del: length_drop, (argo | blast)?)

definition encoded :: "nat \<Rightarrow> fp \<Rightarrow> byte list \<Rightarrow> byte list" where
  "encoded bits scale codes = pack_header bits (length codes) scale @ pack_payload bits codes"

lemma decode_encoded:
  assumes "signed_limit_for bits = Inr s" and "codes_ok s scale codes"
    and "fp_ok binary32 scale" and "length codes < 256 ^ 8"
  shows "decode_record (encoded bits scale codes) = Inr (decoded s scale codes)"
proof -
  let ?d = "encoded bits scale codes"
  have "bits < 256" using assms(1) by (auto simp: signed_limit_Inr)
  then have h: "unpack_header ?d = \<lparr>h_magic = magic, h_version = version, h_bits = bits,
      h_reserved = 0, h_count = length codes, h_scale = scale\<rparr>"
    unfolding encoded_def using assms(4,3) by (rule unpack_pack_header)
  have le: "header_size \<le> length ?d" by (simp add: encoded_def)
  have tail: "drop header_size ?d = pack_payload bits codes" by (simp add: encoded_def)
  have sz: "\<forall>c \<in> set codes. unat c \<le> 2 * s" using assms(2) by (simp add: codes_ok_def)
  have un: "length (pack_payload bits codes) = payload_length bits (length codes)
      \<and> unpack_payload bits (length codes) (pack_payload bits codes) = Inr codes"
    using unpack_payload_iff [OF assms(1) sz] by simp
  have "decode_codes s scale codes = Inr (decoded s scale codes)"
    using assms(2) by (auto simp: codes_ok_def decode_codes_Inr)
  then show ?thesis
    unfolding decode_record_checks h tail
    using un le assms(1,2) by (auto simp: codes_ok_def)
qed

lemma decode_record_canonical:
  assumes "decode_record data = Inr vs"
  obtains bits s scale codes where "signed_limit_for bits = Inr s" "codes_ok s scale codes"
    "fp_ok binary32 scale" "length codes < 256 ^ 8" "data = encoded bits scale codes"
    "vs = decoded s scale codes"
proof -
  let ?h = "unpack_header data"
  obtain s codes where c: "header_size \<le> length data" "h_magic ?h = magic"
    "h_version ?h = version" "h_reserved ?h = 0" "fp_finite (h_scale ?h)" "\<not> fp_lt (h_scale ?h) fp_zero"
    "h_count ?h = 0 \<longrightarrow> fp_eq (h_scale ?h) fp_zero" "signed_limit_for (h_bits ?h) = Inr s"
    "length (drop header_size data) = payload_length (h_bits ?h) (h_count ?h)"
    "unpack_payload (h_bits ?h) (h_count ?h) (drop header_size data) = Inr codes"
    and d: "decode_codes s (h_scale ?h) codes = Inr vs"
    using iffD1 [OF decode_record_checks assms] by (elim conjE exE) (rule that)
  have codes: "\<forall>c \<in> set codes. unat c \<le> 2 * s"
    "fp_eq (h_scale ?h) fp_zero \<longrightarrow> (\<forall>c \<in> set codes. unat c = s)" "vs = decoded s (h_scale ?h) codes"
    using d by (simp_all add: decode_codes_Inr)
  have p: "h_count ?h = length codes" "drop header_size data = pack_payload (h_bits ?h) codes"
    using unpack_payload_iff [OF c(8) codes(1), of "drop header_size data" "h_count ?h"] c(9,10) by auto
  have "length codes < 256 ^ 8"
    using le_value_less [of "take 8 (drop 8 data)"] c(1) p(1) by (simp add: unpack_header_def header_size_def)
  moreover have "fp_ok binary32 (h_scale ?h)" by (simp add: unpack_header_def fp_of_bits32_ok)
  moreover have "data = encoded (h_bits ?h) (h_scale ?h) codes"
    using pack_unpack_header [OF c(1-5)] p append_take_drop_id [of header_size data]
    by (simp add: encoded_def)
  moreover have "codes_ok s (h_scale ?h) codes" using c(5,6,7) codes(1,2) p(1) by (simp add: codes_ok_def)
  ultimately show ?thesis using that c(8) codes(3) by blast
qed

subsection \<open>Properties\<close>

text \<open>
  C5: The decoder accepts exactly the canonical records: a byte string decodes if and only if it
  is the header and payload packed from a supported width, a finite non-negative binary32
  scale and codes in range (all centre codes when the scale is zero, a zero scale when there
  are none), and the values it returns are those of the codes.
\<close>

theorem decode_record_accepts:
  "decode_record data = Inr vs \<longleftrightarrow>
     (\<exists>bits s scale codes. signed_limit_for bits = Inr s \<and> codes_ok s scale codes
        \<and> fp_ok binary32 scale \<and> length codes < 256 ^ 8
        \<and> data = encoded bits scale codes \<and> vs = decoded s scale codes)"
proof
  assume "decode_record data = Inr vs"
  then obtain bits s scale codes where "signed_limit_for bits = Inr s" "codes_ok s scale codes"
    "fp_ok binary32 scale" "length codes < 256 ^ 8" "data = encoded bits scale codes"
    "vs = decoded s scale codes" by (rule decode_record_canonical)
  then show "\<exists>bits s scale codes. signed_limit_for bits = Inr s \<and> codes_ok s scale codes
        \<and> fp_ok binary32 scale \<and> length codes < 256 ^ 8
        \<and> data = encoded bits scale codes \<and> vs = decoded s scale codes" by blast
qed (auto simp: decode_encoded)

end
