(* ===== verification/Quantizer.thy ===== *)
theory Quantizer
  imports Philox Codec
begin

text \<open>
  The quantization pipeline of \<open>src/stoquant/oracle.py\<close>: the max-rescaled FP32 norm with its
  fixed pairwise order, stochastic rounding of the codes, \<open>compress_record_fp32\<close>, the FP64
  reference and its error bounds. NumPy's elementwise float32 and float64 arithmetic is the
  IEEE arithmetic of \<open>Ieee754\<close>; the order of summation inside \<open>np.sum\<close> is NumPy's own, so the
  FP64 reference takes that function as an argument.
\<close>

subsection \<open>Input values\<close>

definition values_fp32 :: "fp list \<Rightarrow> (py_exn, fp list) result" where
  "values_fp32 values =
     (let array = map (fp_cast binary32) values in
      if \<exists>x \<in> set array. \<not> fp_finite x then Inl (ValueError ''input contains a non-finite FP32 value'')
      else Inr array)"

subsection \<open>The pairwise sum\<close>

text \<open>One pass adds the even-indexed and the odd-indexed entries of the work array.\<close>

fun pair_up :: "fp list \<Rightarrow> fp list" where
  "pair_up (a # b # xs) = fp_add binary32 a b # pair_up xs"
| "pair_up xs = []"

lemma length_pair_up: "length (pair_up xs) = length xs div 2"
  by (induction xs rule: pair_up.induct) auto

function halving_sum :: "fp list \<Rightarrow> fp" where
  "halving_sum work = (if 1 < length work then halving_sum (pair_up work) else work ! 0)"
  by auto
termination
  by (relation "measure length") (auto simp: length_pair_up)

declare halving_sum.simps [simp del]

definition padded_count :: "nat \<Rightarrow> nat" where
  "padded_count count = 2 ^ max 0 (bit_length (nat \<bar>int count - 1\<bar>))"

definition pairwise_sum_fp32 :: "fp list \<Rightarrow> fp" where
  "pairwise_sum_fp32 values =
     halving_sum (values @ replicate (padded_count (length values) - length values) fp_zero)"

subsection \<open>Scales\<close>

definition block_size :: nat where "block_size = 256"

definition block_partial :: "fp \<Rightarrow> fp list \<Rightarrow> fp" where
  "block_partial max_abs block =
     (let ratios = map (\<lambda>x. fp_div binary32 x max_abs) block;
          squares = map (\<lambda>r. fp_mul binary32 r r) ratios;
          terms = squares @ replicate (block_size - length block) fp_zero
      in pairwise_sum_fp32 terms)"

definition max_abs_of :: "fp list \<Rightarrow> fp" where
  "max_abs_of array = foldl fp_max fp_zero (map fp_abs array)"

definition scale_fp32 :: "fp list \<Rightarrow> (py_exn, fp) result" where
  "scale_fp32 values =
     bindE (values_fp32 values) (\<lambda>array.
       if length array = 0 then Inr fp_zero
       else let max_abs = max_abs_of array in
         if fp_eq max_abs fp_zero then Inr fp_zero
         else let partials = map (block_partial max_abs) (chunks block_size (map fp_abs array));
                  total = pairwise_sum_fp32 partials;
                  scale = fp_mul binary32 max_abs (fp_sqrt binary32 total)
              in if \<not> fp_finite scale then Inl (OverflowError ''FP32 L2 scale overflow'')
                 else Inr scale)"

definition scale_fp64 :: "(fp list \<Rightarrow> fp) \<Rightarrow> fp list \<Rightarrow> (py_exn, fp) result" where
  "scale_fp64 np_sum values =
     bindE (values_fp32 values) (\<lambda>array32.
       let array = map (fp_cast binary64) array32 in
       if length array = 0 then Inr fp_zero
       else let max_abs = max_abs_of array in
         if fp_eq max_abs fp_zero then Inr fp_zero
         else let ratios = map (\<lambda>x. fp_div binary64 (fp_abs x) max_abs) array;
                  total = np_sum (map (\<lambda>r. fp_mul binary64 r r) ratios)
              in Inr (fp_mul binary64 max_abs (fp_sqrt binary64 total)))"

subsection \<open>Words and scale arguments\<close>

text \<open>\<open>words=None\<close> selects the Philox stream; prescribed words must match the element count.\<close>

definition resolve_words :: "nat \<Rightarrow> int \<Rightarrow> int \<Rightarrow> int \<Rightarrow> int list option \<Rightarrow> (py_exn, 32 word list) result" where
  "resolve_words count seed tensor_id invocation_id words =
     (case words of
        None \<Rightarrow> philox_words (int count) seed tensor_id invocation_id
      | Some ws \<Rightarrow> bindE (word_array ws 32 ''words'') (\<lambda>array.
          if length array \<noteq> count
          then Inl (ValueError ''prescribed random words must match the input element count'')
          else Inr array))"

definition fp_nonzero :: "fp \<Rightarrow> bool" where
  "fp_nonzero x \<longleftrightarrow> \<not> fp_eq x fp_zero"

definition resolve_scale_fp32 :: "fp list \<Rightarrow> fp option \<Rightarrow> (py_exn, fp) result" where
  "resolve_scale_fp32 array scale =
     (case scale of
        None \<Rightarrow> scale_fp32 array
      | Some value \<Rightarrow>
          if \<not> fp_finite value \<or> fp_lt value fp_zero
          then Inl (ValueError ''prescribed scale must be a finite non-negative number'')
          else let scale32 = fp_cast binary32 value in
            if \<not> fp_finite scale32 then Inl (OverflowError ''prescribed scale is outside the FP32 range'')
            else if \<not> list_ex fp_nonzero array \<and> fp_nonzero scale32
            then Inl (ValueError ''empty and all-zero inputs require zero scale'')
            else if fp_eq scale32 fp_zero \<and> list_ex fp_nonzero array
            then Inl (ValueError ''zero scale cannot represent a nonzero input'')
            else Inr scale32)"

subsection \<open>Stochastic rounding\<close>

text \<open>
  One element of \<open>_round_codes_fp32\<close>. \<open>scaled_level\<close> is \<open>min(|x| / scale * s, s)\<close> in float32;
  its fractional part times \<open>2 ^ 32\<close> is the threshold the random word is compared with.
\<close>

definition scaled_level :: "nat \<Rightarrow> fp \<Rightarrow> fp \<Rightarrow> fp" where
  "scaled_level s scale x =
     fp_min (fp_mul binary32 (fp_div binary32 (fp_abs x) scale) (fp_of_nat s)) (fp_of_nat s)"

definition level_floor :: "fp \<Rightarrow> int" where
  "level_floor scaled = \<lfloor>fp_num (fp_floor scaled)\<rfloor>"

definition level_threshold :: "fp \<Rightarrow> nat" where
  "level_threshold scaled =
     (let fraction = fp_sub binary32 scaled (fp_of_int (level_floor scaled))
      in nat \<lfloor>fp_num (fp_floor (fp_mul binary64 (fp_cast binary64 fraction) (fp_of_nat (2 ^ 32))))\<rfloor>)"

definition round_magnitude :: "fp \<Rightarrow> 32 word \<Rightarrow> int" where
  "round_magnitude scaled w = level_floor scaled + (if unat w < level_threshold scaled then 1 else 0)"

definition round_code :: "nat \<Rightarrow> fp \<Rightarrow> fp \<Rightarrow> 32 word \<Rightarrow> byte" where
  "round_code s scale x w =
     (let magnitude = round_magnitude (scaled_level s scale x) w;
          signed = (if fp_signbit x \<and> magnitude \<noteq> 0 then - magnitude else magnitude)
      in word_of_int (signed + int s))"

definition round_codes_fp32 :: "nat \<Rightarrow> fp list \<Rightarrow> fp \<Rightarrow> 32 word list \<Rightarrow> byte list" where
  "round_codes_fp32 s array scale words =
     (if fp_eq scale fp_zero then replicate (length array) (of_nat s)
      else map2 (round_code s scale) array words)"

subsection \<open>Records\<close>

definition compress_record_fp32 ::
  "fp list \<Rightarrow> int \<Rightarrow> int \<Rightarrow> int \<Rightarrow> int \<Rightarrow> fp option \<Rightarrow> int list option \<Rightarrow> (py_exn, byte list) result" where
  "compress_record_fp32 values bits seed tensor_id invocation_id scale words =
     bindE (unsigned_arg bits 8 ''bits'') (\<lambda>bits.
     bindE (signed_limit_for (nat bits)) (\<lambda>s.
     bindE (values_fp32 values) (\<lambda>array.
     bindE (resolve_scale_fp32 array scale) (\<lambda>scale32.
     bindE (resolve_words (length array) seed tensor_id invocation_id words) (\<lambda>random_words.
       let codes = round_codes_fp32 s array scale32 random_words;
           payload = pack_payload (nat bits) codes
       in Inr (pack_header (nat bits) (length array) scale32 @ payload))))))"

subsection \<open>The FP64 reference\<close>

definition reference_level :: "nat \<Rightarrow> fp \<Rightarrow> fp \<Rightarrow> fp" where
  "reference_level s scale x =
     fp_min (fp_mul binary64 (fp_div binary64 (fp_abs x) scale) (fp_of_nat s)) (fp_of_nat s)"

definition reference_decoded :: "nat \<Rightarrow> fp \<Rightarrow> fp \<Rightarrow> 32 word \<Rightarrow> fp" where
  "reference_decoded s scale x w =
     (let scaled = reference_level s scale x;
          lower = fp_floor scaled;
          fraction = fp_sub binary64 scaled lower;
          threshold = nat \<lfloor>fp_num (fp_floor (fp_mul binary64 fraction (fp_of_nat (2 ^ 32))))\<rfloor>;
          magnitude = \<lfloor>fp_num lower\<rfloor> + (if unat w < threshold then 1 else 0);
          signed = (if fp_signbit x \<and> magnitude \<noteq> 0 then - magnitude else magnitude)
      in fp_mul binary64 (fp_div binary64 (fp_of_int signed) (fp_of_nat s)) scale)"

definition reference_fp64 ::
  "(fp list \<Rightarrow> fp) \<Rightarrow> fp list \<Rightarrow> int \<Rightarrow> int \<Rightarrow> int \<Rightarrow> int \<Rightarrow> int list option
     \<Rightarrow> (py_exn, fp \<times> fp list) result" where
  "reference_fp64 np_sum values bits seed tensor_id invocation_id words =
     bindE (unsigned_arg bits 8 ''bits'') (\<lambda>bits.
     bindE (signed_limit_for (nat bits)) (\<lambda>s.
     bindE (values_fp32 values) (\<lambda>array32.
       let array = map (fp_cast binary64) array32 in
     bindE (scale_fp64 np_sum (map (fp_cast binary32) array)) (\<lambda>scale.
     bindE (resolve_words (length array) seed tensor_id invocation_id words) (\<lambda>random_words.
       if fp_eq scale fp_zero then Inr (scale, replicate (length array) fp_zero)
       else Inr (scale, map2 (reference_decoded s scale) array random_words))))))"

text \<open>
  \<open>fp64_error_bounds\<close> in float64 arithmetic, operation by operation in the order of the source.
\<close>

definition fp_int64 :: "nat \<Rightarrow> fp" where
  "fp_int64 n = fp_of_rat binary64 False (of_nat n)"

definition error_operations :: "nat \<Rightarrow> nat" where
  "error_operations count =
     (let block_count = (count + block_size - 1) div block_size in 12 + bit_length (block_count - 1))"

definition unit_roundoff :: fp where "unit_roundoff = FFin False (2 powi (- 24))"
definition tiny_quantum :: fp where "tiny_quantum = FFin False (2 powi (- 149))"

text \<open>Python's float division raises on a zero divisor.\<close>

definition py_fdiv :: "fp \<Rightarrow> fp \<Rightarrow> (py_exn, fp) result" where
  "py_fdiv x y = (if fp_eq y fp_zero then Inl ZeroDivisionError else Inr (fp_div binary64 x y))"

definition error_epsilon :: "nat \<Rightarrow> fp \<Rightarrow> (py_exn, fp) result" where
  "error_epsilon count fp64_scale =
     (let ou = fp_mul binary64 (fp_int64 (error_operations count)) unit_roundoff in
      bindE (py_fdiv ou (fp_sub binary64 (fp_of_nat 1) ou)) (\<lambda>eps0.
      bindE (py_fdiv tiny_quantum (fp_mul binary64 (fp_of_nat 2) fp64_scale)) (\<lambda>sub.
        Inr (fp_add binary64 eps0
               (fp_add binary64 (fp_mul binary64 (fp_int64 (4 * count)) tiny_quantum) sub)))))"

definition fp64_error_bounds :: "int \<Rightarrow> nat \<Rightarrow> fp \<Rightarrow> (py_exn, fp \<times> fp) result" where
  "fp64_error_bounds count bits fp64_scale =
     (if count < 1 then Inl (ValueError ''the FP64 error bound is undefined for empty input'')
      else if \<not> fp_finite fp64_scale \<or> fp64_scale \<le> fp_zero
      then Inl (ValueError ''the FP64 error bound is undefined for a zero or non-finite scale'')
      else bindE (signed_limit_for bits) (\<lambda>s.
      bindE (error_epsilon (nat count) fp64_scale) (\<lambda>e.
      bindE (py_fdiv (fp_of_nat 2) (fp_of_nat s)) (\<lambda>r1.
      bindE (py_fdiv (fp_mul binary64 (fp_of_nat 2) e) (fp_sub binary64 (fp_of_nat 1) e)) (\<lambda>r2.
        let scale_bound = fp_mul binary64 fp64_scale e;
            r3 = fp_mul binary64 (fp_of_nat 5) unit_roundoff;
            recon = fp_mul binary64 fp64_scale (fp_add binary64 (fp_add binary64 r1 r2) r3)
        in Inr (scale_bound, recon))))))"

subsection \<open>Lower bounds through the pairwise sum\<close>

text \<open>
  A float32 value that is not negative, and one that is in addition at least \<open>r\<close>. Both are closed
  under the additions of the sum, whatever the rounding does, so a bound on one term survives
  to the total.
\<close>

definition nn32 :: "fp \<Rightarrow> bool" where
  "nn32 x = (case x of FFin s a \<Rightarrow> \<not> s \<and> 0 \<le> a \<and> on_grid binary32 a | FInf s \<Rightarrow> \<not> s | FNaN \<Rightarrow> False)"

definition at_least :: "rat \<Rightarrow> fp \<Rightarrow> bool" where
  "at_least r x = (case x of FFin s a \<Rightarrow> r \<le> a | _ \<Rightarrow> True)"

lemma nn32_simps [simp]:
  "nn32 (FFin s a) \<longleftrightarrow> \<not> s \<and> 0 \<le> a \<and> on_grid binary32 a" "nn32 (FInf s) \<longleftrightarrow> \<not> s" "\<not> nn32 FNaN"
  by (simp_all add: nn32_def)

lemma at_least_simps [simp]: "at_least r (FFin s a) \<longleftrightarrow> r \<le> a" "at_least r (FInf s)"
  by (simp_all add: at_least_def)

lemma nn32_zero [simp]: "nn32 fp_zero"
  by (simp add: fp_zero_def)

lemma nn32_round: "nn32 (fp_round binary32 False v)"
  by (simp add: fp_round_def r32.rnd_grid)

lemma at_least_round: "on_grid binary32 r \<Longrightarrow> 0 \<le> r \<Longrightarrow> r \<le> v \<Longrightarrow> at_least r (fp_round binary32 False v)"
  using r32.rnd_ge_grid [of r v] by (simp add: fp_round_def)

lemma nn32_add: "nn32 x \<Longrightarrow> nn32 y \<Longrightarrow> nn32 (fp_add binary32 x y)"
  by (cases x; cases y) (auto simp: fp_of_rat_def fp_num_def nn32_round)

lemma at_least_add:
  assumes "nn32 x" "nn32 y" "on_grid binary32 r" "0 \<le> r" "at_least r x \<or> at_least r y"
  shows "at_least r (fp_add binary32 x y)"
  using assms at_least_round [of r]
  by (cases x; cases y) (auto simp: fp_of_rat_def fp_num_def add_increasing add_increasing2)

lemma pair_up_nn: "\<forall>x \<in> set xs. nn32 x \<Longrightarrow> \<forall>x \<in> set (pair_up xs). nn32 x"
  by (induction xs rule: pair_up.induct) (auto simp: nn32_add)

lemma pair_up_at_least:
  assumes "even (length xs)" "\<forall>x \<in> set xs. nn32 x" "on_grid binary32 r" "0 \<le> r"
    and "\<exists>x \<in> set xs. at_least r x"
  shows "\<exists>x \<in> set (pair_up xs). at_least r x"
  using assms
  by (induction xs rule: pair_up.induct) (auto intro: at_least_add)

lemma halving_sum_bounds:
  assumes "length xs = 2 ^ k" "\<forall>x \<in> set xs. nn32 x" "on_grid binary32 r" "0 \<le> r"
    and "\<exists>x \<in> set xs. at_least r x"
  shows "nn32 (halving_sum xs) \<and> at_least r (halving_sum xs)"
  using assms
proof (induction k arbitrary: xs)
  case 0
  then show ?case by (cases xs) (auto simp: halving_sum.simps)
next
  case (Suc k)
  have "1 < length xs" unfolding Suc.prems(1) by (rule one_less_power) simp_all
  then have "halving_sum xs = halving_sum (pair_up xs)" by (subst halving_sum.simps) simp
  moreover have "length (pair_up xs) = 2 ^ k" using Suc.prems(1) by (simp add: length_pair_up)
  moreover have "even (length xs)" using Suc.prems(1) by simp
  ultimately show ?case
    using Suc.IH [of "pair_up xs"] pair_up_nn [OF Suc.prems(2)] pair_up_at_least [of xs r] Suc.prems
    by simp
qed

lemma padded_count_ge: "0 < n \<Longrightarrow> n \<le> padded_count n"
proof -
  assume n: "0 < n"
  then have e: "nat \<bar>int n - 1\<bar> = n - 1" by simp
  show ?thesis
  proof (cases "n = 1")
    case False
    then have "n - 1 < 2 ^ bit_length (n - 1)" using n bit_length_bounds [of "n - 1"] by simp
    then show ?thesis using n unfolding padded_count_def e by simp
  qed (simp add: padded_count_def)
qed

lemma pairwise_sum_bounds:
  assumes "\<forall>x \<in> set xs. nn32 x" "on_grid binary32 r" "0 \<le> r" and "\<exists>x \<in> set xs. at_least r x"
  shows "nn32 (pairwise_sum_fp32 xs)" "at_least r (pairwise_sum_fp32 xs)"
proof -
  have "0 < length xs" using assms(4) by auto
  then have "length (xs @ replicate (padded_count (length xs) - length xs) fp_zero)
      = 2 ^ bit_length (nat \<bar>int (length xs) - 1\<bar>)"
    using padded_count_ge [of "length xs"] by (simp add: padded_count_def)
  then have "nn32 (pairwise_sum_fp32 xs) \<and> at_least r (pairwise_sum_fp32 xs)"
    unfolding pairwise_sum_fp32_def
    by (rule halving_sum_bounds) (use assms in \<open>auto simp: set_replicate_conv_if\<close>)
  then show "nn32 (pairwise_sum_fp32 xs)" "at_least r (pairwise_sum_fp32 xs)" by auto
qed

subsection \<open>The scale dominates every element\<close>

text \<open>The values \<open>_values_fp32\<close> returns: finite values of the format.\<close>

definition val32 :: "fp \<Rightarrow> bool" where
  "val32 x \<longleftrightarrow> (\<exists>s a. x = FFin s a \<and> 0 \<le> a \<and> a \<le> maxfin binary32 \<and> on_grid binary32 a)"

lemma val32_FFin: "val32 (FFin s a) \<longleftrightarrow> 0 \<le> a \<and> a \<le> maxfin binary32 \<and> on_grid binary32 a"
  by (simp add: val32_def)

lemma maxfin_nonneg: "0 \<le> maxfin binary32"
  by (simp add: maxfin32)

lemma fp_round_val32: "fp_finite (fp_round binary32 s v) \<Longrightarrow> val32 (fp_round binary32 s v)"
  by (auto simp: fp_round_def val32_def fp_finite_def r32.rnd_grid split: if_splits)

lemma fp_cast_val32: "fp_finite (fp_cast binary32 x) \<Longrightarrow> val32 (fp_cast binary32 x)"
  by (cases x) (simp_all add: fp_cast_def fp_round_val32, simp_all add: fp_finite_def)

lemma values_fp32_Inr_iff [result_simps]:
  "values_fp32 values = Inr array \<longleftrightarrow>
     array = map (fp_cast binary32) values \<and> (\<forall>x \<in> set array. fp_finite x)"
  by (auto simp: values_fp32_def Let_def)

lemma values_fp32_Inr: "values_fp32 values = Inr array \<Longrightarrow> x \<in> set array \<Longrightarrow> val32 x"
  unfolding values_fp32_Inr_iff using fp_cast_val32 by fastforce

lemma val32_idem:
  assumes "\<forall>x \<in> set array. val32 x"
  shows "values_fp32 array = Inr array"
proof -
  have "fp_cast binary32 x = x \<and> fp_finite x" if "x \<in> set array" for x
    using assms that by (auto simp: val32_def fp_cast_def fp_round_def fp_finite_def r32.rnd_id)
  then have "map (fp_cast binary32) array = array" "\<forall>x \<in> set array. fp_finite x" by (auto intro: map_idI)
  then show ?thesis by (simp add: values_fp32_def)
qed

text \<open>The running maximum of magnitudes stays a magnitude of the list and an upper bound of it.\<close>

lemma foldl_max_magnitude:
  assumes "\<forall>x \<in> set xs. val32 x"
  obtains m' where "foldl fp_max (FFin False m) (map fp_abs xs) = FFin False m'" "m \<le> m'"
    "m' = m \<or> (\<exists>s. FFin s m' \<in> set xs)" "\<forall>s a. FFin s a \<in> set xs \<longrightarrow> a \<le> m'"
  using assms
proof (induction xs arbitrary: m thesis)
  case Nil
  then show ?case by simp
next
  case (Cons x xs)
  obtain s a where x: "x = FFin s a" using Cons.prems(2) by (auto simp: val32_def)
  have step: "fp_max (FFin False m) (fp_abs x) = FFin False (max m a)"
    by (simp add: x fp_max_def fp_abs_def fp_num_def max_def)
  obtain m' where m': "foldl fp_max (FFin False (max m a)) (map fp_abs xs) = FFin False m'" "max m a \<le> m'"
    "m' = max m a \<or> (\<exists>s. FFin s m' \<in> set xs)" "\<forall>s a. FFin s a \<in> set xs \<longrightarrow> a \<le> m'"
    using Cons.IH [of "max m a"] Cons.prems(2) by auto
  show ?case
    by (rule Cons.prems(1) [of m']) (use m' x step in \<open>auto simp: max_def split: if_splits\<close>)
qed

lemma max_abs_of_val32:
  assumes "\<forall>x \<in> set array. val32 x"
  obtains m where "max_abs_of array = FFin False m" "0 \<le> m" "m = 0 \<or> (\<exists>s. FFin s m \<in> set array)"
    "\<forall>s a. FFin s a \<in> set array \<longrightarrow> a \<le> m"
  using foldl_max_magnitude [OF assms, of 0] unfolding max_abs_of_def fp_zero_def by blast

lemma one_on_grid [simp]: "on_grid binary32 1"
  using r32.grid_1 .

text \<open>One squared ratio, and a block as the padded list of them.\<close>

definition ratio_square :: "rat \<Rightarrow> fp \<Rightarrow> fp" where
  "ratio_square m x =
     (let r = fp_div binary32 (fp_abs x) (FFin False m) in fp_mul binary32 r r)"

lemma block_partial_squares:
  "block_partial (FFin False m) (map fp_abs block)
   = pairwise_sum_fp32 (map (ratio_square m) block @ replicate (block_size - length block) fp_zero)"
  unfolding block_partial_def Let_def ratio_square_def map_map comp_def length_map ..

lemma ratio_square_nn: "val32 x \<Longrightarrow> 0 < m \<Longrightarrow> nn32 (ratio_square m x)"
  by (auto simp: val32_def ratio_square_def Let_def fp_abs_def fp_round_def r32.rnd_grid)

lemma ratio_square_self: "0 < m \<Longrightarrow> ratio_square m (FFin s m) = FFin False 1"
  using r32.rnd_id [OF _ r32.grid_1] by (simp add: ratio_square_def fp_abs_def fp_round_def maxfin32)

lemma block_terms_nn:
  assumes "\<forall>x \<in> set block. val32 x" "0 < m"
  shows "\<forall>y \<in> set (map (ratio_square m) block @ replicate k fp_zero). nn32 y"
  using assms ratio_square_nn by (auto simp: set_replicate_conv_if)

lemma at_least_0: "nn32 x \<Longrightarrow> at_least 0 x"
  by (cases x) auto

lemma block_partial_nn:
  assumes "\<And>b. b \<in> set bs \<Longrightarrow> \<forall>x \<in> set b. val32 x" "0 < m"
    and "\<And>b. b \<in> set bs \<Longrightarrow> b \<noteq> []" and "b \<in> set bs"
  shows "nn32 (block_partial (FFin False m) (map fp_abs b))"
proof -
  have nn: "\<forall>y \<in> set (map (ratio_square m) b @ replicate (block_size - length b) fp_zero). nn32 y"
    by (rule block_terms_nn [OF assms(1) [OF assms(4)] assms(2)])
  moreover have "\<exists>y \<in> set (map (ratio_square m) b @ replicate (block_size - length b) fp_zero). at_least 0 y"
    using nn at_least_0 assms(3) [OF assms(4)] by (cases b) auto
  ultimately show ?thesis
    unfolding block_partial_squares by (rule pairwise_sum_bounds(1) [OF _ on_grid_0 order_refl])
qed

lemma block_partial_ge_1:
  assumes "\<forall>x \<in> set b. val32 x" "0 < m" "FFin s m \<in> set b"
  shows "at_least 1 (block_partial (FFin False m) (map fp_abs b))"
proof -
  have "\<exists>y \<in> set (map (ratio_square m) b @ replicate (block_size - length b) fp_zero). at_least 1 y"
  proof (rule bexI [of _ "FFin False 1"])
    show "FFin False 1 \<in> set (map (ratio_square m) b @ replicate (block_size - length b) fp_zero)"
      using imageI [OF assms(3), of "ratio_square m"] ratio_square_self [OF assms(2), of s] by simp
  qed simp
  then show ?thesis
    unfolding block_partial_squares
    by (rule pairwise_sum_bounds(2) [OF block_terms_nn [OF assms(1,2)] one_on_grid zero_le_one])
qed

lemma total_bounds:
  assumes "\<forall>x \<in> set array. val32 x" "0 < m" "FFin s m \<in> set array" "\<forall>s a. FFin s a \<in> set array \<longrightarrow> a \<le> m"
  defines "tot \<equiv> pairwise_sum_fp32 (map (block_partial (FFin False m)) (chunks block_size (map fp_abs array)))"
  shows "nn32 tot" "at_least 1 tot"
proof -
  let ?bs = "chunks block_size array"
  have v: "\<forall>x \<in> set b. val32 x" if "b \<in> set ?bs" for b
    using chunk_subset [OF that] assms(1) by auto
  define ps where "ps = map (\<lambda>b. block_partial (FFin False m) (map fp_abs b)) ?bs"
  have t: "tot = pairwise_sum_fp32 ps" by (simp add: tot_def ps_def chunks_map comp_def)
  have nn: "\<forall>p \<in> set ps. nn32 p" using block_partial_nn [OF v assms(2) chunks_nonempty] by (auto simp: ps_def)
  obtain b where b: "b \<in> set ?bs" "FFin s m \<in> set b" using in_some_chunk [OF assms(3)] by blast
  have "at_least 1 (block_partial (FFin False m) (map fp_abs b))"
    by (rule block_partial_ge_1 [OF v [OF b(1)] assms(2) b(2)])
  then have "\<exists>p \<in> set ps. at_least 1 p" using b(1) by (auto simp: ps_def)
  then show "nn32 tot" "at_least 1 tot" unfolding t using pairwise_sum_bounds [OF nn one_on_grid] by auto
qed

lemma scale_fp32_ge:
  assumes "scale_fp32 values = Inr sc" "values_fp32 values = Inr array"
  obtains m where "sc = FFin False m" "val32 sc" "\<forall>s a. FFin s a \<in> set array \<longrightarrow> a \<le> m"
    "m = 0 \<longrightarrow> (\<forall>s a. FFin s a \<in> set array \<longrightarrow> a = 0)"
proof -
  have v: "\<forall>x \<in> set array. val32 x" using values_fp32_Inr [OF assms(2)] by blast
  have nonneg: "0 \<le> a" if "FFin s a \<in> set array" for s a using v that by (force simp: val32_def)
  obtain m where m: "max_abs_of array = FFin False m" "0 \<le> m" "m = 0 \<or> (\<exists>s. FFin s m \<in> set array)"
    "\<forall>s a. FFin s a \<in> set array \<longrightarrow> a \<le> m" using max_abs_of_val32 [OF v] by blast
  show ?thesis
  proof (cases "array = [] \<or> m = 0")
    case True
    then have "sc = fp_zero"
      using assms m(1) by (auto simp: scale_fp32_def Let_def fp_eq_def fp_num_def fp_zero_def split: if_splits)
    moreover have "a = 0" if "FFin s a \<in> set array" for s a
      using True m(4) nonneg [OF that] that by force
    ultimately show ?thesis using that [of 0] by (auto simp: fp_zero_def val32_def maxfin_nonneg)
  next
    case False
    then obtain s where s: "FFin s m \<in> set array" and pos: "0 < m" using m(2,3) by force
    define tot where "tot = pairwise_sum_fp32 (map (block_partial (FFin False m)) (chunks block_size (map fp_abs array)))"
    define scale where "scale = fp_mul binary32 (FFin False m) (fp_sqrt binary32 tot)"
    have nt: "nn32 tot" "at_least 1 tot"
      using total_bounds [OF v pos s m(4)] by (simp_all add: tot_def)
    have sc: "scale = sc" "fp_finite sc"
      using assms False m(1) pos
      by (auto simp: scale_fp32_def Let_def scale_def tot_def fp_eq_def fp_num_def fp_zero_def split: if_splits)
    obtain t where t: "tot = FFin False t" "1 \<le> t"
      using nt sc pos by (cases tot) (auto simp: scale_def fp_sqrt_def fp_finite_def)
    have "1 \<le> round_sqrt binary32 t" using round_sqrt_ge_1 [of binary32 t] t(2) by simp
    moreover have "on_grid binary32 m" using v s by (force simp: val32_def)
    ultimately have "m \<le> round_mag binary32 (m * round_sqrt binary32 t)"
      using r32.rnd_product_ge [of m] m(2) by simp
    moreover have e: "sc = fp_round binary32 False (m * round_sqrt binary32 t)"
      using t sc(1) by (simp add: scale_def fp_sqrt_def)
    moreover have "sc = FFin False (round_mag binary32 (m * round_sqrt binary32 t))"
      using e sc(2) by (auto simp: fp_round_def fp_finite_def split: if_splits)
    moreover have "val32 sc" using fp_round_val32 sc(2) unfolding e by blast
    ultimately show ?thesis using that m(4) pos by force
  qed
qed

lemma fp_eq_zero [simp]: "fp_eq fp_zero fp_zero"
  by (simp add: fp_eq_def fp_zero_def)

lemma scale_fp32_zero:
  assumes "scale_fp32 values = Inr sc" "values_fp32 values = Inr array" "\<not> fp_eq sc fp_zero"
  obtains s a where "FFin s a \<in> set array" "a \<noteq> 0"
proof -
  have v: "\<forall>x \<in> set array. val32 x" using values_fp32_Inr [OF assms(2)] by blast
  obtain m where m: "max_abs_of array = FFin False m" "0 \<le> m" "m = 0 \<or> (\<exists>s. FFin s m \<in> set array)"
    "\<forall>s a. FFin s a \<in> set array \<longrightarrow> a \<le> m" using max_abs_of_val32 [OF v] by blast
  have "m \<noteq> 0"
  proof
    assume "m = 0"
    then have "max_abs_of array = fp_zero" by (simp add: m(1) fp_zero_def)
    then have "sc = fp_zero" using assms(1,2) by (simp add: scale_fp32_def Let_def split: if_splits)
    then show False using assms(3) by simp
  qed
  then show ?thesis using m(3) that by blast
qed

subsection \<open>Rounding is exact up to the random word\<close>

lemma scaled_level_fin:
  assumes "val32 x" "val32 scale" "\<not> fp_lt scale fp_zero" "\<not> fp_eq scale fp_zero" "0 < n" "n \<le> 127"
  obtains v where "scaled_level n scale x = FFin False v" "0 \<le> v" "v \<le> of_nat n" "on_grid binary32 v"
proof -
  obtain s a t m where x: "x = FFin s a" "0 \<le> a" and m: "scale = FFin t m" "0 \<le> m"
    using assms(1,2) by (auto simp: val32_def)
  have m0: "\<not> t" "0 < m" using assms(3,4) m by (auto simp: fp_eq_def fp_zero_def fp_num_def split: if_splits)
  have g: "on_grid binary32 (of_nat n)" using r32.grid_nat [of n] assms(6) by simp
  show ?thesis
  proof (cases "fp_mul binary32 (fp_div binary32 (fp_abs x) scale) (fp_of_nat n)")
    case FNaN
    then show ?thesis using x m m0 assms(5)
      by (auto simp: fp_abs_def fp_of_nat_def fp_round_def split: if_splits)
  next
    case (FInf u)
    then have "\<not> u" using x m m0 by (auto simp: fp_abs_def fp_of_nat_def fp_round_def split: if_splits)
    then show ?thesis
      using that [of "of_nat n"] g FInf by (simp add: scaled_level_def fp_min_def fp_of_nat_def)
  next
    case (FFin u b)
    then have b: "\<not> u" "0 \<le> b" "on_grid binary32 b" using x m m0
      by (auto simp: fp_abs_def fp_of_nat_def fp_round_def r32.rnd_grid split: if_splits)
    then show ?thesis
      using that [of "min b (of_nat n)"] g FFin
      by (simp add: scaled_level_def fp_min_def fp_of_nat_def fp_num_def min_def)
  qed
qed

text \<open>The fractional part of a grid value below \<open>128\<close> is a float32 value, and so is exact.\<close>

lemma fraction_on_grid:
  assumes "on_grid binary32 v" "0 \<le> v" "v \<le> 127"
  obtains j e where "v - of_int \<lfloor>v\<rfloor> = of_int j * 2 powi e" "0 \<le> j" "j \<le> 2 ^ 24" "- 149 \<le> e"
proof (cases "v = 0")
  case True
  then show ?thesis using that [of 0 0] by simp
next
  case False
  let ?q = "quantum_exp binary32 v"
  have v: "0 < v" using False assms(2) by simp
  have "v < 2 powi 7" using assms(3) by simp
  then have "2 powi ilog2 v < (2::rat) powi 7" using ilog2_bounds(1) [OF v] by linarith
  then have "ilog2 v < 7" by (simp only: powi2_less_iff)
  then have q: "?q \<le> 0" "- 149 \<le> ?q" by (auto simp: quantum_exp_def)
  obtain i where i: "v = of_int i * 2 powi ?q" using on_grid_multiple [OF assms(1)] .
  define j where "j = i - \<lfloor>v\<rfloor> * 2 ^ nat (- ?q)"
  have one: "(2::rat) ^ nat (- ?q) * 2 powi ?q = 1"
    using q(1) by (simp add: power_int_def inverse_eq_divide flip: power_mult_distrib)
  have eq: "v - of_int \<lfloor>v\<rfloor> = of_int j * 2 powi ?q"
    using i one by (simp add: j_def left_diff_distrib mult.assoc)
  have "0 \<le> v - of_int \<lfloor>v\<rfloor>" by simp
  then have "0 \<le> j" unfolding eq using powi2_pos(1) [of ?q]
    by (auto simp: zero_le_mult_iff simp del: powi2_pos dest: leD)
  moreover have "v - of_int \<lfloor>v\<rfloor> \<le> v" using assms(2) by simp
  then have "of_int j * 2 powi ?q \<le> of_int i * (2::rat) powi ?q" using i eq by argo
  then have "j \<le> i" by simp
  moreover have "i \<le> 2 ^ 24"
  proof -
    have "of_int i * 2 powi ?q < 2 ^ 24 * (2::rat) powi ?q"
      using below_2p_quantum [OF v, of binary32] i by simp
    then have "(of_int i :: rat) < of_int (2 ^ 24)" by simp
    then show ?thesis by (simp only: of_int_less_iff less_imp_le)
  qed
  ultimately show ?thesis using that eq q(2) by simp
qed

lemma level_floor_fin: "level_floor (FFin False v) = \<lfloor>v\<rfloor>"
  by (simp add: level_floor_def fp_floor_def fp_num_def)

lemma level_threshold_fin:
  assumes "on_grid binary32 v" "0 \<le> v" "v \<le> 127"
  shows "level_threshold (FFin False v) = nat \<lfloor>(v - of_int \<lfloor>v\<rfloor>) * 2 ^ 32\<rfloor>"
proof -
  obtain j e where j: "v - of_int \<lfloor>v\<rfloor> = of_int j * 2 powi e" "0 \<le> j" "j \<le> 2 ^ 24" "- 149 \<le> e"
    using fraction_on_grid [OF assms] .
  define f where "f = v - of_int \<lfloor>v\<rfloor>"
  have f: "0 \<le> f" "f < 1" by (simp_all add: f_def) linarith
  have g32: "on_grid binary32 f" using on_grid_small [of binary32 f j e] j by (simp add: f_def)
  have g64: "on_grid binary64 f" using on_grid_small [of binary64 f j e] j by (simp add: f_def)
  have "f * 2 ^ 32 = of_int j * 2 powi (e + 32)" using j(1) by (simp add: f_def power_int_add)
  then have g: "on_grid binary64 (f * 2 ^ 32)" using on_grid_small [of binary64 "f * 2 ^ 32" j "e + 32"] j by simp
  have fl: "0 \<le> \<lfloor>v\<rfloor>" using assms(2) by simp
  have sub: "fp_sub binary32 (FFin False v) (fp_of_int \<lfloor>v\<rfloor>) = FFin False f"
  proof (cases "f = 0")
    case False
    then show ?thesis using f fl r32.rnd_id [OF f(1) g32] of_int_floor_le [of v]
      by (simp add: not_less fp_sub_def fp_neg_def fp_of_int_def fp_of_rat_def fp_num_def fp_round_def maxfin32 f_def)
  qed (use fl in \<open>simp add: fp_sub_def fp_neg_def fp_of_int_def fp_of_rat_def fp_num_def f_def\<close>)
  have max64: "(2::rat) ^ 32 \<le> maxfin binary64" by (simp add: maxfin_def)
  have cast: "fp_cast binary64 (FFin False f) = FFin False f"
    using f r64.rnd_id [OF f(1) g64] max64 by (simp add: fp_cast_def fp_round_def)
  have "f * 2 ^ 32 \<le> 2 ^ 32" using f by simp
  then have mul: "fp_mul binary64 (FFin False f) (fp_of_nat (2 ^ 32)) = FFin False (f * 2 ^ 32)"
    using f(1) r64.rnd_id [OF _ g] max64 by (simp add: fp_of_nat_def fp_round_def)
  show ?thesis unfolding level_threshold_def level_floor_fin sub cast mul Let_def
    by (simp add: fp_floor_def fp_num_def f_def)
qed

text \<open>
  One element: with \<open>v\<close> the scaled magnitude, the magnitude of the code is the floor of \<open>v\<close> or
  the next level, and it is the next level for exactly \<open>\<lfloor>frac v * 2 ^ 32\<rfloor>\<close> of the words.
\<close>

lemma round_magnitude_fin:
  assumes "on_grid binary32 v" "0 \<le> v" "v \<le> 127"
  shows "round_magnitude (FFin False v) w
     = \<lfloor>v\<rfloor> + (if unat w < nat \<lfloor>(v - of_int \<lfloor>v\<rfloor>) * 2 ^ 32\<rfloor> then 1 else 0)"
  by (simp only: round_magnitude_def level_floor_fin level_threshold_fin [OF assms])

lemma round_magnitude_range:
  assumes "on_grid binary32 v" "0 \<le> v" "v \<le> of_nat n" "n \<le> 127"
  shows "0 \<le> round_magnitude (FFin False v) w" "round_magnitude (FFin False v) w \<le> int n"
proof -
  have "(of_nat n :: rat) \<le> of_nat 127" using assms(4) by (simp only: of_nat_le_iff)
  then have v127: "v \<le> 127" using assms(3) by simp
  note eq = round_magnitude_fin [OF assms(1,2) v127, of w]
  show "0 \<le> round_magnitude (FFin False v) w" unfolding eq using assms(2) by simp
  have le: "\<lfloor>v\<rfloor> \<le> int n" using assms(3) by (simp add: floor_le_iff le_less_trans)
  show "round_magnitude (FFin False v) w \<le> int n"
  proof (cases "\<lfloor>v\<rfloor> = int n")
    case True
    then have "of_nat n \<le> v" using of_int_floor_le [of v] by simp
    then have "v = of_nat n" using assms(3) by simp
    then show ?thesis unfolding eq by simp
  next
    case False
    then show ?thesis unfolding eq using le by simp
  qed
qed

lemma card_words_below: "k \<le> 2 ^ 32 \<Longrightarrow> card {w :: 32 word. unat w < k} = k"
proof -
  assume k: "k \<le> 2 ^ 32"
  have "unat ` {w :: 32 word. unat w < k} = {..<k}"
  proof (rule antisym)
    show "{..<k} \<subseteq> unat ` {w :: 32 word. unat w < k}"
    proof
      fix i assume i: "i \<in> {..<k}"
      then have "unat (of_nat i :: 32 word) = i" using k by (simp add: unat_of_nat)
      then show "i \<in> unat ` {w :: 32 word. unat w < k}"
        using i by (intro image_eqI [of _ _ "of_nat i"]) simp_all
    qed
  qed auto
  then have "card (unat ` {w :: 32 word. unat w < k}) = k" by simp
  then show ?thesis by (simp add: card_image inj_on_def word_unat_eq_iff)
qed

lemma words_rounding_up:
  assumes "on_grid binary32 v" "0 \<le> v" "v \<le> 127"
  shows "card {w. round_magnitude (FFin False v) w = \<lfloor>v\<rfloor> + 1} = nat \<lfloor>(v - of_int \<lfloor>v\<rfloor>) * 2 ^ 32\<rfloor>"
proof -
  define k where "k = nat \<lfloor>(v - of_int \<lfloor>v\<rfloor>) * 2 ^ 32\<rfloor>"
  have "(v - of_int \<lfloor>v\<rfloor>) * 2 ^ 32 < 2 ^ 32" using frac_lt_1 [of v] by (simp add: frac_def)
  then have "k \<le> 2 ^ 32" unfolding k_def by (simp add: nat_le_iff floor_le_iff)
  moreover have "{w. round_magnitude (FFin False v) w = \<lfloor>v\<rfloor> + 1} = {w. unat w < k}"
    unfolding round_magnitude_fin [OF assms] k_def [symmetric] by simp
  ultimately show ?thesis unfolding k_def [symmetric] by (simp only: card_words_below)
qed

lemma round_code_unat:
  assumes "scaled_level n scale x = FFin False v" "on_grid binary32 v" "0 \<le> v" "v \<le> of_nat n" "n \<le> 127"
  shows "int (unat (round_code n scale x w)) =
    int n + (if fp_signbit x then - round_magnitude (FFin False v) w else round_magnitude (FFin False v) w)"
proof -
  define m where "m = round_magnitude (FFin False v) w"
  have m: "0 \<le> m" "m \<le> int n" using round_magnitude_range [OF assms(2-5)] by (simp_all add: m_def)
  define z where "z = int n + (if fp_signbit x then - m else m)"
  have "0 \<le> z" "z < 256" using m assms(5) by (auto simp: z_def)
  then have "uint (word_of_int z :: byte) = z" by (simp add: uint_word_of_int)
  moreover have "round_code n scale x w = word_of_int z"
    by (auto simp: round_code_def Let_def assms(1) z_def m_def add.commute)
  ultimately show ?thesis by (simp add: z_def m_def uint_nat [symmetric])
qed

subsection \<open>Resolved arguments\<close>

lemma resolve_scale_ok:
  assumes "resolve_scale_fp32 array scale = Inr sc" "\<forall>x \<in> set array. val32 x"
  shows "val32 sc" "\<not> fp_lt sc fp_zero" "fp_eq sc fp_zero \<longleftrightarrow> \<not> list_ex fp_nonzero array"
proof -
  have "val32 sc \<and> \<not> fp_lt sc fp_zero \<and> (fp_eq sc fp_zero \<longleftrightarrow> \<not> list_ex fp_nonzero array)"
  proof (cases scale)
    case None
    then have s: "scale_fp32 array = Inr sc" using assms(1) by (simp add: resolve_scale_fp32_def)
    obtain m where m: "sc = FFin False m" "val32 sc" "\<forall>s a. FFin s a \<in> set array \<longrightarrow> a \<le> m"
      "m = 0 \<longrightarrow> (\<forall>s a. FFin s a \<in> set array \<longrightarrow> a = 0)"
      using scale_fp32_ge [OF s val32_idem [OF assms(2)]] by blast
    have nz: "fp_nonzero (FFin s a) \<longleftrightarrow> a \<noteq> 0" for s a
      by (simp add: fp_nonzero_def fp_eq_def fp_zero_def fp_num_def)
    have m0: "0 \<le> m" using m(1,2) by (simp add: val32_def)
    have "m = 0 \<longleftrightarrow> \<not> list_ex fp_nonzero array"
    proof
      assume "m = 0"
      then have "\<not> fp_nonzero x" if x: "x \<in> set array" for x
        using assms(2) x m(4) by (cases x) (auto simp: val32_def nz)
      then show "\<not> list_ex fp_nonzero array" by (simp add: list_ex_iff)
    next
      assume none: "\<not> list_ex fp_nonzero array"
      show "m = 0"
      proof (rule ccontr)
        assume "m \<noteq> 0"
        then have "\<not> fp_eq sc fp_zero" by (simp add: m(1) fp_eq_def fp_zero_def fp_num_def)
        then obtain s a where "FFin s a \<in> set array" "a \<noteq> 0"
          using scale_fp32_zero [OF s val32_idem [OF assms(2)]] by blast
        then show False using none nz by (auto simp: list_ex_iff)
      qed
    qed
    then show ?thesis using m(1,2) m0 by (simp add: fp_eq_def fp_zero_def fp_num_def)
  next
    case (Some v)
    have c: "fp_finite v" "\<not> fp_lt v fp_zero" "fp_cast binary32 v = sc" "fp_finite sc"
      "fp_eq sc fp_zero \<longleftrightarrow> \<not> list_ex fp_nonzero array"
      using assms(1) Some
      by (auto simp: resolve_scale_fp32_def Let_def fp_nonzero_def split: if_splits)
    have "val32 sc" using fp_cast_val32 [of v] c(3,4) by simp
    moreover have "\<not> fp_lt sc fp_zero"
    proof (cases v)
      case (FFin s r)
      have np: "round_mag binary32 r = 0" if "r \<le> 0" using that by (simp add: round_mag_def)
      have "\<not> round_mag binary32 r < 0" by (simp add: not_less)
      then show ?thesis using c(2,3) FFin np maxfin_nonneg
        by (auto simp: fp_cast_def fp_round_def fp_zero_def fp_num_def split: if_splits)
    qed (use c in \<open>auto simp: fp_finite_def\<close>)
    ultimately show ?thesis using c(5) by simp
  qed
  then show "val32 sc" "\<not> fp_lt sc fp_zero" "fp_eq sc fp_zero \<longleftrightarrow> \<not> list_ex fp_nonzero array" by auto
qed

lemma resolve_words_length: "resolve_words n seed tid iid ws = Inr array \<Longrightarrow> length array = n"
  by (auto simp: resolve_words_def result_simps split: option.splits if_splits
      dest: philox_words_length)

lemma length_round_codes:
  "length words = length array \<Longrightarrow> length (round_codes_fp32 s array scale words) = length array"
  by (simp add: round_codes_fp32_def)

lemma codes_valid:
  assumes "\<forall>x \<in> set array. val32 x" "signed_limit_for bits = Inr s" "length words = length array"
    and "val32 scale" "\<not> fp_lt scale fp_zero" "array = [] \<longrightarrow> fp_eq scale fp_zero"
  shows "codes_ok s scale (round_codes_fp32 s array scale words)"
proof -
  have s: "0 < s" "s \<le> 127" using assms(2) by (auto simp: signed_limit_Inr)
  have fin: "fp_finite scale" using assms(4) by (auto simp: val32_def fp_finite_def)
  show ?thesis
  proof (cases "fp_eq scale fp_zero")
    case True
    then show ?thesis using s fin assms(5)
      by (simp add: codes_ok_def round_codes_fp32_def unat_of_nat)
  next
    case False
    have "unat (round_code s scale x w) \<le> 2 * s" if x: "x \<in> set array" for x w
    proof -
      have vx: "val32 x" using assms(1) x by simp
      obtain v where v: "scaled_level s scale x = FFin False v" "0 \<le> v" "v \<le> of_nat s" "on_grid binary32 v"
        using scaled_level_fin [OF vx assms(4,5) False s] .
      have "int (unat (round_code s scale x w)) \<le> 2 * int s"
        using round_code_unat [OF v(1,4,2,3) s(2), of w] round_magnitude_range [OF v(4,2,3) s(2), of w] by simp
      then show ?thesis by linarith
    qed
    then have "\<forall>c \<in> set (round_codes_fp32 s array scale words). unat c \<le> 2 * s"
      using False by (auto simp: round_codes_fp32_def dest: set_zip_leftD)
    moreover have "round_codes_fp32 s array scale words \<noteq> []"
      using False assms(3,6) by (auto simp: round_codes_fp32_def)
    ultimately show ?thesis using False fin assms(5) by (simp add: codes_ok_def)
  qed
qed

lemma compress_parts:
  assumes "compress_record_fp32 values bits seed tid iid scale words = Inr rec"
  obtains s array sc ws where "signed_limit_for (nat bits) = Inr s" "values_fp32 values = Inr array"
    "resolve_scale_fp32 array scale = Inr sc" "resolve_words (length array) seed tid iid words = Inr ws"
    "rec = encoded (nat bits) sc (round_codes_fp32 s array sc ws)"
    "codes_ok s sc (round_codes_fp32 s array sc ws)" "val32 sc" "length ws = length array"
proof -
  obtain s array sc ws where c: "signed_limit_for (nat bits) = Inr s" "values_fp32 values = Inr array"
    "resolve_scale_fp32 array scale = Inr sc" "resolve_words (length array) seed tid iid words = Inr ws"
    "rec = pack_header (nat bits) (length array) sc @ pack_payload (nat bits) (round_codes_fp32 s array sc ws)"
    using assms unfolding compress_record_fp32_def bindE_eq_Inr unsigned_arg_Inr Let_def by (auto simp: Let_def)
  have v: "\<forall>x \<in> set array. val32 x" using values_fp32_Inr [OF c(2)] by blast
  note sc = resolve_scale_ok [OF c(3) v]
  have len: "length ws = length array" using resolve_words_length [OF c(4)] .
  have "codes_ok s sc (round_codes_fp32 s array sc ws)"
    by (rule codes_valid [OF v c(1) len sc(1,2)]) (use sc(3) in auto)
  moreover have "rec = encoded (nat bits) sc (round_codes_fp32 s array sc ws)"
    by (simp add: encoded_def c(5) length_round_codes [OF len])
  ultimately show ?thesis using that c(1-4) sc(1) len by blast
qed

lemma val32_ok: "val32 x \<Longrightarrow> fp_ok binary32 x"
  by (auto simp: val32_def fp_ok_def)

subsection \<open>Properties\<close>

text \<open>
  C2: Every record the quantizer produces decodes: \<open>decode_record\<close> accepts what
  \<open>compress_record_fp32\<close> returns, and gives back the levels chosen by stochastic rounding under
  the resolved scale and words, one value per input element.
\<close>

theorem compress_decode_roundtrip:
  assumes "compress_record_fp32 values bits seed tid iid scale words = Inr rec"
    and "length values < 2 ^ 64"
  shows "\<exists>s array sc ws vs. signed_limit_for (nat bits) = Inr s \<and> values_fp32 values = Inr array
      \<and> resolve_scale_fp32 array scale = Inr sc
      \<and> resolve_words (length array) seed tid iid words = Inr ws
      \<and> vs = decoded s sc (round_codes_fp32 s array sc ws) \<and> length vs = length values
      \<and> decode_record rec = Inr vs"
proof -
  obtain s array sc ws where c: "signed_limit_for (nat bits) = Inr s" "values_fp32 values = Inr array"
    "resolve_scale_fp32 array scale = Inr sc" "resolve_words (length array) seed tid iid words = Inr ws"
    "rec = encoded (nat bits) sc (round_codes_fp32 s array sc ws)"
    "codes_ok s sc (round_codes_fp32 s array sc ws)" "val32 sc" "length ws = length array"
    using compress_parts [OF assms(1)] .
  have len: "length (round_codes_fp32 s array sc ws) = length values"
    using length_round_codes [OF c(8)] c(2) by (simp add: values_fp32_Inr_iff)
  have "decode_record rec = Inr (decoded s sc (round_codes_fp32 s array sc ws))"
    unfolding c(5) using assms(2) by (intro decode_encoded c(1,6) val32_ok c(7)) (simp add: len)
  moreover have "length (decoded s sc (round_codes_fp32 s array sc ws)) = length values"
    using len by (simp add: decoded_def)
  ultimately show ?thesis using c(1-4) by blast
qed

theorem compress_decode_roundtrip_witness:
  "\<exists>rec vs. compress_record_fp32 [FFin False 1, FFin True 0] 8 1 0 0 (Some (FFin False 2)) (Some [0, 5]) = Inr rec
     \<and> decode_record rec = Inr vs \<and> length vs = 2"
proof -
  let ?v = "[FFin False 1, FFin True 0]" and ?w = "Some [0, 5]" and ?s = "Some (FFin False 2)"
  have "\<not> isl (compress_record_fp32 ?v 8 1 0 0 ?s ?w)" by code_simp
  then obtain rec where r: "compress_record_fp32 ?v 8 1 0 0 ?s ?w = Inr rec"
    by (cases "compress_record_fp32 ?v 8 1 0 0 ?s ?w") auto
  show ?thesis using compress_decode_roundtrip [OF r] r by auto
qed

text \<open>
  C3: The FP32 scale dominates the input: no element is larger in magnitude than the scale that
  \<open>scale_fp32\<close> computes, although every step of it rounds.
\<close>

theorem scale_dominates:
  assumes "scale_fp32 values = Inr sc" "values_fp32 values = Inr array" "x \<in> set array"
  shows "fp_num (fp_abs x) \<le> fp_num sc"
proof -
  obtain m where m: "sc = FFin False m" "\<forall>s a. FFin s a \<in> set array \<longrightarrow> a \<le> m"
    using scale_fp32_ge [OF assms(1,2)] by blast
  obtain s a where "x = FFin s a" using values_fp32_Inr [OF assms(2,3)] by (auto simp: val32_def)
  then show ?thesis using m assms(3) by (auto simp: fp_abs_def fp_num_def)
qed

theorem scale_dominates_witness:
  "\<exists>sc. scale_fp32 [FFin True 3, FFin False 4] = Inr sc \<and> 3 \<le> fp_num sc"
proof -
  let ?v = "[FFin True 3, FFin False 4]"
  have "\<not> isl (scale_fp32 ?v)" by code_simp
  then obtain sc where s: "scale_fp32 ?v = Inr sc" by (cases "scale_fp32 ?v") auto
  have a: "values_fp32 ?v = Inr ?v" by code_simp
  show ?thesis using scale_dominates [OF s a, of "FFin True 3"] s by (auto simp: fp_abs_def fp_num_def)
qed

text \<open>
  C4: Stochastic rounding is exact up to the random word. With \<open>v\<close> the scaled magnitude of an
  element, its code is the centre plus or minus \<open>\<lfloor>v\<rfloor>\<close> or \<open>\<lfloor>v\<rfloor> + 1\<close>, with the sign of the element,
  within the signed limit, and it is the higher level for exactly \<open>\<lfloor>(v - \<lfloor>v\<rfloor>) * 2 ^ 32\<rfloor>\<close> of the
  \<open>2 ^ 32\<close> words: no rounding error enters the threshold.
\<close>

theorem stochastic_rounding_exact:
  assumes "val32 x" "val32 sc" "\<not> fp_lt sc fp_zero" "\<not> fp_eq sc fp_zero" "signed_limit_for bits = Inr s"
  shows "\<exists>v. scaled_level s sc x = FFin False v \<and> 0 \<le> v \<and> v \<le> of_nat s
    \<and> (\<forall>w. \<exists>m. (m = \<lfloor>v\<rfloor> \<or> m = \<lfloor>v\<rfloor> + 1) \<and> m \<le> int s
          \<and> int (unat (round_code s sc x w)) = int s + (if fp_signbit x then - m else m))
    \<and> card {w. \<bar>int (unat (round_code s sc x w)) - int s\<bar> = \<lfloor>v\<rfloor> + 1} = nat \<lfloor>(v - of_int \<lfloor>v\<rfloor>) * 2 ^ 32\<rfloor>"
proof -
  have s: "0 < s" "s \<le> 127" using assms(5) by (auto simp: signed_limit_Inr)
  obtain v where v: "scaled_level s sc x = FFin False v" "0 \<le> v" "v \<le> of_nat s" "on_grid binary32 v"
    using scaled_level_fin [OF assms(1-4) s] .
  have "(of_nat s :: rat) \<le> of_nat 127" using s(2) by (simp only: of_nat_le_iff)
  then have v127: "v \<le> 127" using v(3) by simp
  note code = round_code_unat [OF v(1,4,2,3) s(2)]
  note range = round_magnitude_range [OF v(4,2,3) s(2)]
  have "{w. \<bar>int (unat (round_code s sc x w)) - int s\<bar> = \<lfloor>v\<rfloor> + 1}
      = {w. round_magnitude (FFin False v) w = \<lfloor>v\<rfloor> + 1}"
    using range(1) unfolding code by auto
  moreover have "round_magnitude (FFin False v) w = \<lfloor>v\<rfloor> \<or> round_magnitude (FFin False v) w = \<lfloor>v\<rfloor> + 1" for w
    by (simp add: round_magnitude_fin [OF v(4,2) v127])
  ultimately show ?thesis
    using v(1-3) code range(2) words_rounding_up [OF v(4,2) v127] by auto
qed

theorem stochastic_rounding_exact_witness:
  "\<exists>v. scaled_level 127 (FFin False 4) (FFin True 3) = FFin False v \<and> v \<le> 127
    \<and> card {w. \<bar>int (unat (round_code 127 (FFin False 4) (FFin True 3) w)) - 127\<bar> = \<lfloor>v\<rfloor> + 1}
      = nat \<lfloor>(v - of_int \<lfloor>v\<rfloor>) * 2 ^ 32\<rfloor>"
proof -
  have v: "val32 (FFin True 3)" "val32 (FFin False 4)"
    using r32.grid_nat [of 3] r32.grid_nat [of 4] by (simp_all add: val32_FFin maxfin32)
  have z: "\<not> fp_lt (FFin False 4) fp_zero" "\<not> fp_eq (FFin False 4) fp_zero"
    by (simp_all add: fp_zero_def fp_num_def fp_eq_def)
  have s: "signed_limit_for 8 = Inr 127" by (simp add: signed_limit_for_def)
  show ?thesis using stochastic_rounding_exact [OF v z s] by auto
qed

text \<open>
  C6: The scale \<open>scale_fp32\<close> computes needs no clipping: for every element of the input the
  rounded level \<open>|x| / scale * s\<close> is already at most \<open>s\<close>, so \<open>np.minimum\<close> returns it unchanged.
\<close>

theorem computed_scale_never_clips:
  assumes "scale_fp32 values = Inr sc" "values_fp32 values = Inr array" "x \<in> set array"
    and "\<not> fp_eq sc fp_zero" "signed_limit_for bits = Inr s"
  shows "scaled_level s sc x = fp_mul binary32 (fp_div binary32 (fp_abs x) sc) (fp_of_nat s)"
proof -
  have s: "0 < s" "s \<le> 127" using assms(5) by (auto simp: signed_limit_Inr)
  obtain m where m: "sc = FFin False m" "\<forall>s a. FFin s a \<in> set array \<longrightarrow> a \<le> m"
    using scale_fp32_ge [OF assms(1,2)] by blast
  obtain t a where x: "x = FFin t a" "0 \<le> a" using values_fp32_Inr [OF assms(2,3)] by (auto simp: val32_def)
  have am: "a \<le> m" using m(2) x(1) assms(3) by auto
  have "m \<noteq> 0" using assms(4) by (auto simp: m(1) fp_eq_def fp_zero_def fp_num_def)
  then have m0: "0 < m" using am x(2) by simp
  define r where "r = round_mag binary32 (a / m)"
  have r: "0 \<le> r" "r \<le> 1" unfolding r_def using am m0 x(2) by (simp, intro r32.rnd_unit) simp_all
  have g: "on_grid binary32 (of_nat s)" using r32.grid_nat [of s] s(2) by simp
  have rs: "r * of_nat s \<le> of_nat s" using r by (simp add: mult_left_le_one_le)
  have d: "fp_div binary32 (fp_abs x) sc = FFin False r"
    using r m0 by (simp add: x m(1) fp_abs_def fp_round_def maxfin32 r_def)
  have le: "round_mag binary32 (r * of_nat s) \<le> of_nat s" using r32.rnd_le_grid [OF g _ rs] by simp
  have "(of_nat s :: rat) \<le> of_nat 127" using s(2) by (simp only: of_nat_le_iff)
  then have "fp_mul binary32 (FFin False r) (fp_of_nat s) = FFin False (round_mag binary32 (r * of_nat s))"
    using le by (simp add: fp_of_nat_def fp_round_def maxfin32)
  then show ?thesis using le unfolding scaled_level_def d
    by (simp add: fp_min_def fp_of_nat_def fp_num_def)
qed

theorem computed_scale_never_clips_witness:
  "\<exists>sc. scale_fp32 [FFin True 4] = Inr sc
     \<and> (\<not> fp_eq sc fp_zero \<longrightarrow>
        scaled_level 7 sc (FFin True 4) = fp_mul binary32 (fp_div binary32 (FFin False 4) sc) (fp_of_nat 7))
     \<and> \<not> fp_eq sc fp_zero"
proof -
  let ?v = "[FFin True 4]"
  have e: "\<not> isl (scale_fp32 ?v) \<and> \<not> fp_eq (projr (scale_fp32 ?v)) fp_zero" by code_simp
  then obtain sc where s: "scale_fp32 ?v = Inr sc" by (cases "scale_fp32 ?v") auto
  have nz: "\<not> fp_eq sc fp_zero" using e s by simp
  have a: "values_fp32 ?v = Inr ?v" by code_simp
  have b: "signed_limit_for 4 = Inr 7" by (simp add: signed_limit_for_def)
  have "scaled_level 7 sc (FFin True 4) = fp_mul binary32 (fp_div binary32 (fp_abs (FFin True 4)) sc) (fp_of_nat 7)"
    by (rule computed_scale_never_clips [OF s a _ nz b]) simp
  then show ?thesis using s nz by (simp add: fp_abs_def)
qed

end
