(* ===== verification/Design.thy ===== *)
theory Design
  imports Prelude "HOL-Library.List_Lexorder" "HOL-Library.Char_ord" "HOL-Library.Multiset"
begin

text \<open>
  The experimental design of \<open>src/stoquant/design.py\<close>: timed paths and their baselines, the path
  sets a sweep may select, the Williams rows, and the order of trials and cases. The lemmas show
  that the Williams rows are a balanced Latin square and what a trial schedule guarantees.
\<close>

subsection \<open>Timed paths\<close>

record bench_path =
  backend :: string
  boundary :: string
  policy :: string

definition mk_path :: "string \<Rightarrow> string \<Rightarrow> string \<Rightarrow> bench_path" where
  "mk_path b d p = \<lparr>backend = b, boundary = d, policy = p\<rparr>"

definition COMPARATOR :: bench_path where "COMPARATOR = mk_path ''cpu'' ''comparator'' ''none''"
definition AVX2_COMPARATOR :: bench_path where "AVX2_COMPARATOR = mk_path ''cpu-avx2'' ''optimized'' ''none''"
definition CUDA_RESIDENT :: bench_path where "CUDA_RESIDENT = mk_path ''cuda'' ''resident'' ''none''"
definition CUDA_RESIDENT_GRAPH :: bench_path where
  "CUDA_RESIDENT_GRAPH = mk_path ''cuda'' ''resident-graph'' ''none''"
definition CUDA_HOST_ORIGIN :: bench_path where "CUDA_HOST_ORIGIN = mk_path ''cuda'' ''host-origin'' ''pageable''"
definition CUDA_HOST_ORIGIN_PINNED :: bench_path where
  "CUDA_HOST_ORIGIN_PINNED = mk_path ''cuda'' ''host-origin'' ''pinned''"
definition CPU_GPU_ORIGIN :: bench_path where "CPU_GPU_ORIGIN = mk_path ''cpu'' ''gpu-origin'' ''pageable''"
definition CUDA_GPU_ORIGIN :: bench_path where "CUDA_GPU_ORIGIN = mk_path ''cuda'' ''gpu-origin'' ''pageable''"
definition CPU_GPU_ORIGIN_PINNED :: bench_path where
  "CPU_GPU_ORIGIN_PINNED = mk_path ''cpu'' ''gpu-origin'' ''pinned''"
definition CUDA_GPU_ORIGIN_PINNED :: bench_path where
  "CUDA_GPU_ORIGIN_PINNED = mk_path ''cuda'' ''gpu-origin'' ''pinned''"

lemmas path_consts [path_simps] =
  mk_path_def COMPARATOR_def AVX2_COMPARATOR_def CUDA_RESIDENT_def CUDA_RESIDENT_GRAPH_def
  CUDA_HOST_ORIGIN_def CUDA_HOST_ORIGIN_PINNED_def CPU_GPU_ORIGIN_def CUDA_GPU_ORIGIN_def
  CPU_GPU_ORIGIN_PINNED_def CUDA_GPU_ORIGIN_PINNED_def

definition HOST_BOUNDARIES :: "string list" where "HOST_BOUNDARIES = [''comparator'', ''optimized'']"

definition path_key :: "bench_path \<Rightarrow> string" where
  "path_key p = (if policy p = ''pinned'' then boundary p @ ''-pinned'' else boundary p)"

definition path_label :: "bench_path \<Rightarrow> string" where
  "path_label p = backend p @ ''-'' @ path_key p"

definition extra_args :: "bench_path \<Rightarrow> string list" where
  "extra_args p =
     (let args = (if boundary p \<in> set HOST_BOUNDARIES then [] else [''--boundary'', boundary p])
      in if policy p = ''pinned'' then args @ [''--transfer-policy'', ''pinned''] else args)"

definition baseline :: "bench_path \<Rightarrow> bench_path option" where
  "baseline p =
     (if p = COMPARATOR then None
      else if backend p = ''cuda'' \<and> boundary p = ''gpu-origin''
           then Some (mk_path ''cpu'' ''gpu-origin'' (policy p))
      else Some COMPARATOR)"

definition pageable_twin :: "bench_path \<Rightarrow> bench_path" where
  "pageable_twin p = mk_path (backend p) (boundary p) ''pageable''"

definition nested_paths :: "bench_path \<Rightarrow> bench_path list" where
  "nested_paths p =
     (if backend p = ''cpu'' \<and> boundary p = boundary CPU_GPU_ORIGIN then [COMPARATOR]
      else if backend p = ''cuda'' \<and> boundary p = boundary CUDA_GPU_ORIGIN then [CUDA_RESIDENT]
      else if backend p = ''cuda'' \<and> boundary p = boundary CUDA_HOST_ORIGIN
           then [CUDA_RESIDENT, CUDA_RESIDENT_GRAPH, mk_path ''cuda'' (boundary CUDA_GPU_ORIGIN) (policy p)]
      else [])"

definition REPORT_PATHS :: "bench_path list" where
  "REPORT_PATHS = [COMPARATOR, AVX2_COMPARATOR, CUDA_RESIDENT, CUDA_RESIDENT_GRAPH, CUDA_HOST_ORIGIN]"

definition PUBLICATION_PATHS :: "bench_path list" where
  "PUBLICATION_PATHS = REPORT_PATHS
     @ [CUDA_HOST_ORIGIN_PINNED, CPU_GPU_ORIGIN, CUDA_GPU_ORIGIN, CPU_GPU_ORIGIN_PINNED, CUDA_GPU_ORIGIN_PINNED]"

definition PINNED_PAIRS :: "(bench_path \<times> bench_path) list" where
  "PINNED_PAIRS = [(CUDA_HOST_ORIGIN, CUDA_HOST_ORIGIN_PINNED), (CPU_GPU_ORIGIN, CPU_GPU_ORIGIN_PINNED),
     (CUDA_GPU_ORIGIN, CUDA_GPU_ORIGIN_PINNED)]"

subsection \<open>Profiles and defaults\<close>

record sweep_profile =
  profile_name :: string
  profile_counts :: "nat list"
  profile_bits :: "nat list"

definition DEFAULT_COUNTS :: "nat list" where "DEFAULT_COUNTS = map (\<lambda>e. 2 ^ e) [10..<27]"
definition DEFAULT_BITS :: "nat list" where "DEFAULT_BITS = [4, 8]"
definition DEFAULT_TRIALS :: nat where "DEFAULT_TRIALS = 24"
definition EXTENSION_BOUNDARIES :: "string list" where "EXTENSION_BOUNDARIES = [''gpu-origin'']"
definition TRANSFER_POLICIES :: "string list" where "TRANSFER_POLICIES = [''pageable'', ''pinned'']"
definition MAX_PERMUTATION_PATHS :: nat where "MAX_PERMUTATION_PATHS = 4"

definition PILOT_PROFILE :: sweep_profile where
  "PILOT_PROFILE = \<lparr>profile_name = ''pilot'', profile_counts = [2 ^ 10, 2 ^ 14, 2 ^ 20, 2 ^ 26],
     profile_bits = DEFAULT_BITS\<rparr>"

subsection \<open>Selecting paths\<close>

text \<open>The \<open>ValueError\<close>s of the module, one constructor per raise with the values its message shows.\<close>

datatype design_error =
    UnknownBoundaries "string list"
  | UnknownPolicies "string list"
  | PageableMissing
  | ExtensionNeedsCuda
  | TrialsNotMultiple nat nat nat

definition build_paths :: "string list \<Rightarrow> string list \<Rightarrow> string list \<Rightarrow> (design_error, bench_path list) result" where
  "build_paths backends boundaries transfer_policies =
     (let unknown = sorted_list_of_set (set boundaries - set EXTENSION_BOUNDARIES) in
      if unknown \<noteq> [] then Inl (UnknownBoundaries unknown)
      else let unknown = sorted_list_of_set (set transfer_policies - set TRANSFER_POLICIES) in
      if unknown \<noteq> [] then Inl (UnknownPolicies unknown)
      else if ''pageable'' \<notin> set transfer_policies then Inl PageableMissing
      else let extended = (boundaries \<noteq> [] \<or> ''pinned'' \<in> set transfer_policies) in
      if extended \<and> ''cuda'' \<notin> set backends then Inl ExtensionNeedsCuda
      else
        let policies = filter (\<lambda>p. p \<in> set transfer_policies) TRANSFER_POLICIES;
            paths = [COMPARATOR];
            paths = paths @ (if ''cpu-avx2'' \<in> set backends then [AVX2_COMPARATOR] else []);
            paths = paths @ (if ''cuda'' \<in> set backends
                             then [CUDA_RESIDENT, CUDA_RESIDENT_GRAPH, CUDA_HOST_ORIGIN]
                                  @ (if ''pinned'' \<in> set policies then [CUDA_HOST_ORIGIN_PINNED] else [])
                             else []);
            paths = paths @ (if ''gpu-origin'' \<in> set boundaries
                             then concat (map (\<lambda>p. [mk_path ''cpu'' ''gpu-origin'' p, mk_path ''cuda'' ''gpu-origin'' p]) policies)
                             else [])
        in Inr paths)"

subsection \<open>Trial orders\<close>

definition trial_design :: "nat \<Rightarrow> string" where
  "trial_design path_count =
     (if path_count \<le> MAX_PERMUTATION_PATHS then ''all-permutations'' else ''williams'')"

text \<open>The loop that builds the first row, with its three variables.\<close>

function williams_loop :: "nat \<Rightarrow> int list \<Rightarrow> int \<Rightarrow> int \<Rightarrow> int list" where
  "williams_loop n first low high =
     (if length first < n then
        let first = first @ [low]; low = low + 1 in
        if length first < n then williams_loop n (first @ [high]) low (high - 1)
        else williams_loop n first low high
      else first)"
  by pat_completeness auto
termination
  by (relation "measure (\<lambda>(n, first, low, high). n - length first)") auto

declare williams_loop.simps [simp del]

definition williams_first :: "nat \<Rightarrow> int list" where
  "williams_first n = williams_loop n [0] 1 (int n - 1)"

definition williams_rows :: "nat \<Rightarrow> int list list" where
  "williams_rows n =
     (let first = williams_first n;
          rows = map (\<lambda>i. map (\<lambda>x. (x + int i) mod int n) first) [0..<n]
      in if n mod 2 = 1 then rows @ map rev rows else rows)"

text \<open>\<open>itertools.permutations\<close>: in the order of positions, the first element varying slowest.\<close>

fun permutations_of :: "nat \<Rightarrow> 'a list \<Rightarrow> 'a list list" where
  "permutations_of 0 xs = [[]]"
| "permutations_of (Suc k) xs =
     concat (map (\<lambda>i. map (Cons (xs ! i)) (permutations_of k (take i xs @ drop (Suc i) xs))) [0..<length xs])"

definition trial_orders :: "nat \<Rightarrow> nat \<Rightarrow> (design_error, int list list) result" where
  "trial_orders path_count trials =
     (if trial_design path_count = ''all-permutations'' then
        let perms = permutations_of path_count (map int [0..<path_count])
        in Inr (map (\<lambda>t. perms ! (t mod length perms)) [0..<trials])
      else
        let rows = williams_rows path_count in
        if trials mod length rows \<noteq> 0 then Inl (TrialsNotMultiple path_count (length rows) trials)
        else Inr (map (\<lambda>t. rows ! (t mod length rows)) [0..<trials]))"

text \<open>
  \<open>case_order\<close>: NumPy's \<open>default_rng(seed).permutation(n)\<close> is an argument.
\<close>

definition case_order :: "(int \<Rightarrow> nat \<Rightarrow> nat list) \<Rightarrow> 'k list \<Rightarrow> nat list \<Rightarrow> int \<Rightarrow> ('k \<times> nat) list" where
  "case_order rng_permutation keys bit_widths seed =
     (let cases = concat (map (\<lambda>key. map (\<lambda>bits. (key, bits)) bit_widths) keys);
          permutation = rng_permutation seed (length cases)
      in map (\<lambda>i. cases ! i) permutation)"

subsection \<open>The Williams rows in closed form\<close>

text \<open>Entry \<open>j\<close> of the first row: \<open>0, 1, n - 1, 2, n - 2, \<dots>\<close>.\<close>

definition first_entry :: "nat \<Rightarrow> nat \<Rightarrow> int" where
  "first_entry n j = (if odd j then int ((j + 1) div 2) else if j = 0 then 0 else int n - int (j div 2))"

lemma williams_loop_entries:
  assumes "first = map (first_entry n) [0..<2 * k + 1]" "2 * k + 1 \<le> n" "low = int k + 1" "high = int n - 1 - int k"
  shows "williams_loop n first low high = map (first_entry n) [0..<n]"
  using assms
proof (induction "n - k" arbitrary: k first low high rule: less_induct)
  case less
  show ?case
  proof (cases "2 * k + 1 < n")
    case False
    then have "n = 2 * k + 1" using less.prems(2) by simp
    then show ?thesis using less.prems(1) by (subst williams_loop.simps) simp
  next
    case True
    have low: "first @ [low] = map (first_entry n) [0..<2 * k + 2]"
      using less.prems by (simp add: first_entry_def)
    show ?thesis
    proof (cases "2 * k + 2 < n")
      case False
      then have n: "n = 2 * k + 2" using True by simp
      then have len: "length (first @ [low]) = n" using low by simp
      have "williams_loop n first low high = williams_loop n (first @ [low]) (low + 1) high"
        using True less.prems(1) len by (subst williams_loop.simps) simp
      also have "\<dots> = first @ [low]" using len by (subst williams_loop.simps) simp
      finally show ?thesis using low n by simp
    next
      case more: True
      have high: "first @ [low, high] = map (first_entry n) [0..<2 * (k + 1) + 1]"
        using low less.prems(4) by (simp add: first_entry_def)
      have "williams_loop n first low high = williams_loop n (first @ [low, high]) (low + 1) (high - 1)"
        using True more less.prems(1) by (subst williams_loop.simps) simp
      also have "\<dots> = map (first_entry n) [0..<n]"
        using more less.prems(3,4) by (intro less.hyps [of "k + 1"] high) auto
      finally show ?thesis .
    qed
  qed
qed

lemma williams_first_entries: "0 < n \<Longrightarrow> williams_first n = map (first_entry n) [0..<n]"
  unfolding williams_first_def
  by (rule williams_loop_entries [of _ _ 0]) (simp_all add: first_entry_def)

definition entry :: "nat \<Rightarrow> nat \<Rightarrow> nat \<Rightarrow> int" where
  "entry n i j = (first_entry n j + int i) mod int n"

definition forward_rows :: "nat \<Rightarrow> int list list" where
  "forward_rows n = map (\<lambda>i. map (entry n i) [0..<n]) [0..<n]"

lemma williams_rows_eq:
  "0 < n \<Longrightarrow> williams_rows n = (if odd n then forward_rows n @ map rev (forward_rows n) else forward_rows n)"
  by (simp add: williams_rows_def forward_rows_def williams_first_entries entry_def comp_def
      odd_iff_mod_2_eq_one)

lemma williams_rows_length: "0 < n \<Longrightarrow> length (williams_rows n) = (if odd n then 2 * n else n)"
  by (simp add: williams_rows_eq forward_rows_def)

subsection \<open>Rows and columns are permutations\<close>

lemma first_entry_range: "j < n \<Longrightarrow> 0 \<le> first_entry n j \<and> first_entry n j < int n"
  by (auto simp: first_entry_def elim!: oddE evenE)

lemma first_entry_inj:
  assumes "j < n" "k < n" "first_entry n j = first_entry n k"
  shows "j = k"
  using assms by (auto simp: first_entry_def split: if_splits elim!: oddE evenE)

lemma mod_eq_small:
  assumes "(x + c) mod m = (y + c) mod m" "0 \<le> x" "x < m" "0 \<le> y" "y < (m::int)"
  shows "x = y"
proof -
  have "((x + c) - c) mod m = ((y + c) - c) mod m" using assms(1) by (rule mod_diff_cong) simp
  then show ?thesis using assms(2-) by simp
qed

lemma entry_inj_col: "j < n \<Longrightarrow> k < n \<Longrightarrow> entry n i j = entry n i k \<Longrightarrow> j = k"
  unfolding entry_def using first_entry_range first_entry_inj mod_eq_small by meson

lemma entry_inj_row: "i < n \<Longrightarrow> k < n \<Longrightarrow> entry n i j = entry n k j \<Longrightarrow> i = k"
  unfolding entry_def using mod_eq_small [of "int i" "first_entry n j" "int n" "int k"]
  by (simp add: add.commute)

lemma entry_range: "j < n \<Longrightarrow> entry n i j \<in> int ` {..<n}"
proof -
  assume "j < n"
  then have "0 \<le> entry n i j" "entry n i j < int n" by (simp_all add: entry_def)
  then show ?thesis by (intro image_eqI [of _ _ "nat (entry n i j)"]) auto
qed

lemma inj_into_range_surj:
  assumes "inj_on f {..<n}" "f ` {..<n} \<subseteq> int ` {..<n}"
  shows "f ` {..<n} = int ` {..<n}"
proof (rule card_subset_eq [OF _ assms(2)])
  show "card (f ` {..<n}) = card (int ` {..<n})" using assms(1) by (simp add: card_image)
qed simp

lemma entry_row_surj: "(\<lambda>j. entry n i j) ` {..<n} = int ` {..<n}"
  by (rule inj_into_range_surj) (use entry_inj_col entry_range in \<open>auto simp: inj_on_def\<close>)

lemma entry_col_surj: "j < n \<Longrightarrow> (\<lambda>i. entry n i j) ` {..<n} = int ` {..<n}"
  by (rule inj_into_range_surj) (use entry_inj_row entry_range in \<open>auto simp: inj_on_def\<close>)

definition is_order :: "nat \<Rightarrow> int list \<Rightarrow> bool" where
  "is_order n row \<longleftrightarrow> length row = n \<and> distinct row \<and> set row = int ` {..<n}"

lemma is_order_rev [simp]: "is_order n (rev row) = is_order n row"
  by (simp add: is_order_def)

lemma forward_row_order: "row \<in> set (forward_rows n) \<Longrightarrow> is_order n row"
  using entry_row_surj [of n] entry_inj_col
  by (auto simp: forward_rows_def is_order_def distinct_map inj_on_def lessThan_atLeast0)

lemma williams_row_order: "0 < n \<Longrightarrow> row \<in> set (williams_rows n) \<Longrightarrow> is_order n row"
  using forward_row_order by (auto simp: williams_rows_eq split: if_splits)

subsection \<open>Every ordered pair of paths is adjacent equally often\<close>

definition jump :: "nat \<Rightarrow> nat \<Rightarrow> int" where
  "jump n j = (if even j then int j + 1 else int n - (int j + 1))"

lemma entry_Suc:
  assumes "j + 1 < n"
  shows "entry n i (j + 1) = (entry n i j + jump n j) mod int n"
proof -
  have "first_entry n (j + 1) = first_entry n j + jump n j
      \<or> first_entry n (j + 1) = first_entry n j + jump n j - int n"
    using assms by (auto simp: first_entry_def jump_def elim!: oddE evenE)
  then have "(first_entry n (j + 1) + int i) mod int n = (first_entry n j + int i + jump n j) mod int n"
  proof
    assume "first_entry n (j + 1) = first_entry n j + jump n j - int n"
    then have "first_entry n (j + 1) + int i = first_entry n j + int i + jump n j - int n" by simp
    then show ?thesis by (simp only: minus_mod_self2)
  qed (simp add: ac_simps)
  then show ?thesis by (simp add: entry_def mod_add_left_eq)
qed

definition steps_to :: "nat \<Rightarrow> int \<Rightarrow> nat set" where
  "steps_to n d = {j. j + 1 < n \<and> jump n j = d}"

lemma steps_to_even:
  assumes "even n" "0 < d" "d < int n"
  shows "card (steps_to n d) = 1"
proof -
  have "steps_to n d = {if odd d then nat d - 1 else n - nat d - 1}"
    using assms by (auto simp: steps_to_def jump_def nat_eq_iff even_nat_iff split: if_splits; presburger)
  then show ?thesis by simp
qed

lemma steps_to_odd:
  assumes "odd n" "0 < d" "d < int n"
  shows "card (steps_to n d) = (if odd d then 2 else 0)"
proof (cases "odd d")
  case True
  have "steps_to n d = {nat d - 1, n - nat d - 1}"
    using assms True by (auto simp: steps_to_def jump_def even_nat_iff split: if_splits; presburger)
  moreover have "nat d - 1 \<noteq> n - nat d - 1"
  proof
    assume "nat d - 1 = n - nat d - 1"
    moreover have "0 < nat d" "nat d < n" using assms(2,3) by auto
    ultimately have "n = 2 * nat d" by linarith
    then show False using assms(1) by simp
  qed
  ultimately show ?thesis using True by simp
next
  case False
  have "steps_to n d = {}"
    using assms False by (auto simp: steps_to_def jump_def split: if_splits)
  then show ?thesis using False by simp
qed

definition forward_pairs :: "nat \<Rightarrow> int \<Rightarrow> int \<Rightarrow> (nat \<times> nat) set" where
  "forward_pairs n a b = {(i, j). i < n \<and> j + 1 < n \<and> entry n i j = a \<and> entry n i (j + 1) = b}"

lemma mod_offset:
  assumes "0 \<le> b" "b < m" "0 \<le> s" "s < (m::int)"
  shows "(a + s) mod m = b \<longleftrightarrow> s = (b - a) mod m"
proof
  assume "(a + s) mod m = b"
  then have "(b - a) mod m = ((a + s) - a) mod m" by (metis mod_diff_left_eq)
  then show "s = (b - a) mod m" using assms(3,4) by simp
next
  assume "s = (b - a) mod m"
  then have "(a + s) mod m = (a + (b - a)) mod m" by (simp add: mod_add_right_eq)
  then show "(a + s) mod m = b" using assms(1,2) by simp
qed

lemma jump_range: "j + 1 < n \<Longrightarrow> 0 \<le> jump n j \<and> jump n j < int n"
  by (simp add: jump_def)

lemma forward_pairs_card:
  assumes "0 \<le> a" "a < int n" "0 \<le> b" "b < int n"
  shows "card (forward_pairs n a b) = card (steps_to n ((b - a) mod int n))"
proof -
  have mem: "(i, j) \<in> forward_pairs n a b \<longleftrightarrow>
      i < n \<and> entry n i j = a \<and> j \<in> steps_to n ((b - a) mod int n)" for i j
  proof (cases "j + 1 < n")
    case True
    show ?thesis
      unfolding forward_pairs_def steps_to_def using True mod_offset [of b "int n" "jump n j" a] assms(3,4)
        jump_range [OF True] entry_Suc [OF True, of i] by auto
  qed (auto simp: forward_pairs_def steps_to_def)
  have inj: "inj_on snd (forward_pairs n a b)"
    by (rule inj_onI) (clarsimp simp: mem, metis entry_inj_row)
  have "snd ` forward_pairs n a b = steps_to n ((b - a) mod int n)"
  proof (rule antisym)
    show "steps_to n ((b - a) mod int n) \<subseteq> snd ` forward_pairs n a b"
    proof
      fix j assume j: "j \<in> steps_to n ((b - a) mod int n)"
      then have "j < n" by (simp add: steps_to_def)
      moreover have "a \<in> int ` {..<n}" using assms(1,2) by (intro image_eqI [of _ _ "nat a"]) auto
      ultimately obtain i where "i < n" "entry n i j = a"
        using entry_col_surj [of j n] by (metis (no_types, lifting) imageE lessThan_iff)
      then show "j \<in> snd ` forward_pairs n a b" using j mem by force
    qed
  qed (auto simp: mem)
  then show ?thesis using card_image [OF inj] by simp
qed

text \<open>Positions at which two values are adjacent, over all rows of a design.\<close>

definition adjacent_at :: "int list list \<Rightarrow> int \<Rightarrow> int \<Rightarrow> (nat \<times> nat) set" where
  "adjacent_at rows a b =
     {(r, j). r < length rows \<and> j + 1 < length (rows ! r) \<and> rows ! r ! j = a \<and> rows ! r ! (j + 1) = b}"

lemma forward_nth: "i < n \<Longrightarrow> forward_rows n ! i = map (entry n i) [0..<n]"
  by (simp add: forward_rows_def)

lemma adjacent_forward: "adjacent_at (forward_rows n) a b = forward_pairs n a b"
  by (auto simp: adjacent_at_def forward_pairs_def forward_nth) (auto simp: forward_rows_def)

lemma rev_pair:
  assumes "i < n" "j + 1 < n"
  shows "rev (map (entry n i) [0..<n]) ! j = entry n i (n - 2 - j + 1)"
    and "rev (map (entry n i) [0..<n]) ! (j + 1) = entry n i (n - 2 - j)"
  using assms by (simp_all add: rev_nth Suc_diff_Suc numeral_2_eq_2)

lemma adjacent_odd:
  assumes "odd n"
  shows "adjacent_at (williams_rows n) a b
    = forward_pairs n a b \<union> (\<lambda>(i, j). (n + i, n - 2 - j)) ` forward_pairs n b a"
proof -
  have n: "0 < n" using assms by (rule odd_pos)
  have len: "length (forward_rows n) = n" by (simp add: forward_rows_def)
  have rows: "williams_rows n = forward_rows n @ map rev (forward_rows n)"
    using assms n by (simp add: williams_rows_eq)
  have fwd: "(r, j) \<in> adjacent_at (williams_rows n) a b \<longleftrightarrow> (r, j) \<in> forward_pairs n a b" if "r < n" for r j
    using that by (auto simp: rows adjacent_at_def forward_pairs_def nth_append len forward_nth)
  have bwd: "(n + i, j) \<in> adjacent_at (williams_rows n) a b \<longleftrightarrow>
      j + 1 < n \<and> (i, n - 2 - j) \<in> forward_pairs n b a" for i j
  proof (cases "i < n \<and> j + 1 < n")
    case True
    then show ?thesis using rev_pair [of i n j]
      by (auto simp: rows adjacent_at_def forward_pairs_def nth_append len forward_nth)
  next
    case False
    then show ?thesis by (auto simp: rows adjacent_at_def forward_pairs_def nth_append len forward_nth)
  qed
  show ?thesis
  proof (rule set_eqI)
    fix x :: "nat \<times> nat"
    obtain r j where x: "x = (r, j)" by force
    show "x \<in> adjacent_at (williams_rows n) a b \<longleftrightarrow>
        x \<in> forward_pairs n a b \<union> (\<lambda>(i, j). (n + i, n - 2 - j)) ` forward_pairs n b a"
    proof (cases "r < n")
      case True
      then show ?thesis using fwd [OF True] by (auto simp: x)
    next
      case False
      then obtain i where i: "r = n + i" using le_Suc_ex not_less by blast
      have "(n + i, j) \<in> (\<lambda>(i, j). (n + i, n - 2 - j)) ` forward_pairs n b a
          \<longleftrightarrow> j + 1 < n \<and> (i, n - 2 - j) \<in> forward_pairs n b a"
      proof
        assume "j + 1 < n \<and> (i, n - 2 - j) \<in> forward_pairs n b a"
        then show "(n + i, j) \<in> (\<lambda>(i, j). (n + i, n - 2 - j)) ` forward_pairs n b a"
          by (intro image_eqI [of _ _ "(i, n - 2 - j)"]) auto
      next
        assume "(n + i, j) \<in> (\<lambda>(i, j). (n + i, n - 2 - j)) ` forward_pairs n b a"
        then obtain k where k: "j = n - 2 - k" "(i, k) \<in> forward_pairs n b a" by auto
        have "k + 1 < n" using k(2) by (simp add: forward_pairs_def)
        then have "j + 1 < n" "n - 2 - j = k" using k(1) by simp_all
        then show "j + 1 < n \<and> (i, n - 2 - j) \<in> forward_pairs n b a" using k(2) by simp
      qed
      moreover have "(n + i, j) \<notin> forward_pairs n a b" by (simp add: forward_pairs_def)
      ultimately show ?thesis using bwd [of i j] by (simp add: x i)
    qed
  qed
qed

lemma mod_opposite: "0 < d \<Longrightarrow> d < m \<Longrightarrow> (- d) mod m = m - (d::int)"
  by (simp add: zmod_zminus1_eq_if)

lemma difference_range:
  assumes "0 \<le> a" "a < m" "0 \<le> b" "b < m" "a \<noteq> (b::int)"
  shows "0 < (b - a) mod m" "(b - a) mod m < m" "(a - b) mod m = m - (b - a) mod m"
proof -
  have m: "0 < m" using assms by simp
  have "(b - a) mod m \<noteq> 0"
  proof
    assume "(b - a) mod m = 0"
    then have "(0 + a) mod m = ((b - a) + a) mod m" by (metis mod_0 mod_add_left_eq)
    then show False using assms by simp
  qed
  then show "0 < (b - a) mod m" using pos_mod_sign [OF m, of "b - a"] by linarith
  moreover show "(b - a) mod m < m" by (rule pos_mod_bound [OF m])
  ultimately  have "(- ((b - a) mod m)) mod m = m - (b - a) mod m" by (rule mod_opposite)
  then show "(a - b) mod m = m - (b - a) mod m" by (simp add: mod_minus_eq)
qed

lemma williams_adjacent_card:
  assumes "0 \<le> a" "a < int n" "0 \<le> b" "b < int n" "a \<noteq> b"
  shows "card (adjacent_at (williams_rows n) a b) = (if even n then 1 else 2)"
proof (cases "even n")
  case True
  have "0 < n" using assms(1,2) by simp
  then show ?thesis
    using True forward_pairs_card [OF assms(1-4)] steps_to_even [OF True difference_range(1,2) [OF assms]]
    by (simp add: williams_rows_eq adjacent_forward)
next
  case False
  let ?d = "(b - a) mod int n"
  note d = difference_range [OF assms]
  have opp: "0 < int n - ?d" "int n - ?d < int n" using d by auto
  have fin: "finite (forward_pairs n x y)" for x y
    by (rule finite_subset [of _ "{..<n} \<times> {..<n}"]) (auto simp: forward_pairs_def)
  have inj: "inj_on (\<lambda>(i, j). (n + i, n - 2 - j)) (forward_pairs n b a)"
    by (auto simp: inj_on_def forward_pairs_def)
  have disj: "forward_pairs n a b \<inter> (\<lambda>(i, j). (n + i, n - 2 - j)) ` forward_pairs n b a = {}"
    by (auto simp: forward_pairs_def)
  have "card (adjacent_at (williams_rows n) a b) = card (forward_pairs n a b) + card (forward_pairs n b a)"
    using False fin inj disj by (simp add: adjacent_odd card_Un_disjoint card_image)
  also have "\<dots> = card (steps_to n ?d) + card (steps_to n (int n - ?d))"
    by (simp add: forward_pairs_card assms(1-4) d(3))
  also have "\<dots> = 2"
    using False steps_to_odd [OF False d(1,2)] steps_to_odd [OF False opp] by simp
  finally show ?thesis using False by simp
qed

lemma row_column_values: "0 < n \<Longrightarrow> j < n \<Longrightarrow> (\<lambda>row. row ! j) ` set (williams_rows n) = int ` {..<n}"
proof -
  assume n: "0 < n" "j < n"
  have sub: "(\<lambda>row. row ! j) ` set (williams_rows n) \<subseteq> int ` {..<n}"
    using williams_row_order [OF n(1)] n(2) by (fastforce simp: is_order_def)
  have "int ` {..<n} = (\<lambda>row. row ! j) ` set (forward_rows n)"
    using entry_col_surj [OF n(2)] n(2) by (simp add: forward_rows_def image_image lessThan_atLeast0)
  also have "\<dots> \<subseteq> (\<lambda>row. row ! j) ` set (williams_rows n)"
    using n(1) by (auto simp: williams_rows_eq)
  finally show ?thesis using sub by blast
qed

subsection \<open>All permutations\<close>

lemma remove_nth_mset: "i < length xs \<Longrightarrow> add_mset (xs ! i) (mset (take i xs @ drop (Suc i) xs)) = mset xs"
  by (metis add_mset_add_single id_take_nth_drop mset.simps(2) mset_append union_mset_add_mset_right)

lemma permutations_of_mset:
  "p \<in> set (permutations_of k xs) \<Longrightarrow> length xs = k \<Longrightarrow> mset p = mset xs"
proof (induction k xs arbitrary: p rule: permutations_of.induct)
  case (2 k xs)
  obtain i q where i: "i < length xs" "p = xs ! i # q"
    "q \<in> set (permutations_of k (take i xs @ drop (Suc i) xs))" using 2(2) by auto
  then have "mset q = mset (take i xs @ drop (Suc i) xs)" using 2(3) by (intro 2(1)) auto
  then show ?case using remove_nth_mset [OF i(1)] i(2) by simp
qed auto

lemma length_permutations_of: "length xs = k \<Longrightarrow> length (permutations_of k xs) = fact k"
proof (induction k arbitrary: xs)
  case (Suc k)
  have "length (permutations_of k (take i xs @ drop (Suc i) xs)) = fact k" if "i < length xs" for i
    using that Suc.prems by (intro Suc.IH) simp
  then have eq: "map (\<lambda>i. length (permutations_of k (take i xs @ drop (Suc i) xs))) [0..<length xs]
      = map (\<lambda>i. fact k) [0..<length xs]" by simp
  have "length (permutations_of (Suc k) xs)
      = sum_list (map (\<lambda>i. length (permutations_of k (take i xs @ drop (Suc i) xs))) [0..<length xs])"
    by (simp add: length_concat comp_def)
  also have "\<dots> = fact (Suc k)" unfolding eq using Suc.prems by (simp add: map_replicate_const sum_list_replicate)
  finally show ?case .
qed simp

lemma permutation_order: "p \<in> set (permutations_of n (map int [0..<n])) \<Longrightarrow> is_order n p"
  using permutations_of_mset [of p n "map int [0..<n]"]
  by (metis is_order_def atLeast_upt distinct_map distinct_upt inj_on_of_nat length_map length_upt
      mset_eq_imp_distinct_iff mset_eq_length mset_eq_setD set_map diff_zero)

lemma build_paths_fold:
  "build_paths backends boundaries policies = Inr ps \<Longrightarrow>
     ps = COMPARATOR # (if ''cpu-avx2'' \<in> set backends then [AVX2_COMPARATOR] else [])
       @ (if ''cuda'' \<in> set backends
          then [CUDA_RESIDENT, CUDA_RESIDENT_GRAPH, CUDA_HOST_ORIGIN]
               @ (if ''pinned'' \<in> set policies then [CUDA_HOST_ORIGIN_PINNED] else []) else [])
       @ (if ''gpu-origin'' \<in> set boundaries
          then [CPU_GPU_ORIGIN, CUDA_GPU_ORIGIN]
               @ (if ''pinned'' \<in> set policies then [CPU_GPU_ORIGIN_PINNED, CUDA_GPU_ORIGIN_PINNED] else [])
          else [])
     \<and> ''pageable'' \<in> set policies
     \<and> set boundaries \<subseteq> {''gpu-origin''} \<and> set policies \<subseteq> {''pageable'', ''pinned''}
     \<and> ((boundaries \<noteq> [] \<or> ''pinned'' \<in> set policies) \<longrightarrow> ''cuda'' \<in> set backends)"
  by (auto simp: build_paths_def Let_def EXTENSION_BOUNDARIES_def TRANSFER_POLICIES_def path_simps
      split: if_splits)

text \<open>The ten path sets that a selection can give; each is closed, by evaluation.\<close>

definition selected_paths :: "bool \<Rightarrow> bool \<Rightarrow> bool \<Rightarrow> bool \<Rightarrow> bench_path list" where
  "selected_paths avx2 cuda pinned origin =
     COMPARATOR # (if avx2 then [AVX2_COMPARATOR] else [])
       @ (if cuda then [CUDA_RESIDENT, CUDA_RESIDENT_GRAPH, CUDA_HOST_ORIGIN] @ (if pinned then [CUDA_HOST_ORIGIN_PINNED] else []) else [])
       @ (if origin then [CPU_GPU_ORIGIN, CUDA_GPU_ORIGIN] @ (if pinned then [CPU_GPU_ORIGIN_PINNED, CUDA_GPU_ORIGIN_PINNED] else []) else [])"

definition selections :: "bench_path list list" where
  "selections = concat (map (\<lambda>avx2. selected_paths avx2 False False False
     # concat (map (\<lambda>pinned. map (selected_paths avx2 True pinned) [False, True]) [False, True])) [False, True])"

lemma build_paths_selections:
  assumes "build_paths backends boundaries policies = Inr ps"
  shows "ps \<in> set selections"
proof -
  let ?a = "''cpu-avx2'' \<in> set backends" and ?c = "''cuda'' \<in> set backends"
    and ?p = "''pinned'' \<in> set policies" and ?o = "''gpu-origin'' \<in> set boundaries"
  note f = build_paths_fold [OF assms]
  have "?p \<or> ?o \<longrightarrow> ?c" using f by auto
  moreover have "ps = selected_paths ?a ?c ?p ?o" using f by (simp only: selected_paths_def)
  ultimately show ?thesis
    unfolding selections_def by (cases ?a; cases ?c; cases ?p; cases ?o; simp)
qed

definition closed_paths :: "bench_path list \<Rightarrow> bool" where
  "closed_paths ps \<longleftrightarrow> distinct (map path_label ps) \<and> hd ps = COMPARATOR
     \<and> list_all (\<lambda>p. (baseline p = None \<longleftrightarrow> p = COMPARATOR)
          \<and> (case baseline p of None \<Rightarrow> True | Some b \<Rightarrow> b \<in> set ps)
          \<and> (policy p = ''pinned'' \<longrightarrow> pageable_twin p \<in> set ps)) ps"

lemma selections_closed: "list_all closed_paths selections"
  by code_simp

definition ALL_PATHS :: "bench_path list" where
  "ALL_PATHS = [COMPARATOR, AVX2_COMPARATOR, CUDA_RESIDENT, CUDA_RESIDENT_GRAPH, CUDA_HOST_ORIGIN, CUDA_HOST_ORIGIN_PINNED,
     CPU_GPU_ORIGIN, CUDA_GPU_ORIGIN, CPU_GPU_ORIGIN_PINNED, CUDA_GPU_ORIGIN_PINNED]"

lemma selections_known: "ps \<in> set selections \<Longrightarrow> p \<in> set ps \<Longrightarrow> p \<in> set ALL_PATHS"
  unfolding selections_def selected_paths_def ALL_PATHS_def by (auto split: if_splits)

lemma build_paths_closed_labels:
  "build_paths backends boundaries policies = Inr ps \<Longrightarrow> distinct (map path_label ps)"
  using selections_closed by (auto simp: list_all_iff closed_paths_def dest!: build_paths_selections)

subsection \<open>Properties\<close>

text \<open>
  C11: The Williams rows are a balanced Latin design for every number of paths: each row runs
  every path once, each path occupies every position, and every ordered pair of distinct paths
  is run one directly after the other equally often, once in total when the number of paths is
  even and twice when it is odd.
\<close>

theorem williams_rows_balanced:
  assumes "0 < n"
  shows "length (williams_rows n) = (if even n then n else 2 * n)
    \<and> (\<forall>row \<in> set (williams_rows n). is_order n row)
    \<and> (\<forall>j < n. (\<lambda>row. row ! j) ` set (williams_rows n) = int ` {..<n})
    \<and> (\<forall>a b. 0 \<le> a \<and> a < int n \<and> 0 \<le> b \<and> b < int n \<and> a \<noteq> b
         \<longrightarrow> card (adjacent_at (williams_rows n) a b) = (if even n then 1 else 2))"
  using assms williams_rows_length williams_row_order row_column_values williams_adjacent_card
  by auto

theorem williams_rows_balanced_witness:
  "length (williams_rows 5) = 10 \<and> card (adjacent_at (williams_rows 5) 3 1) = 2
   \<and> card (adjacent_at (williams_rows 6) 3 1) = 1"
  using williams_rows_balanced [of 5] williams_rows_balanced [of 6] by simp

lemma trial_orders_rows:
  "case trial_orders n trials of
     Inl e \<Rightarrow> 4 < n \<and> trials mod length (williams_rows n) \<noteq> 0
             \<and> e = TrialsNotMultiple n (length (williams_rows n)) trials
   | Inr orders \<Rightarrow> length orders = trials \<and> (\<forall>row \<in> set orders. is_order n row)
             \<and> (n \<le> 4 \<or> trials mod length (williams_rows n) = 0)"
proof (cases "n \<le> 4")
  case True
  let ?ps = "permutations_of n (map int [0..<n])"
  have "0 < length ?ps" by (simp add: length_permutations_of)
  then have "?ps ! (t mod length ?ps) \<in> set ?ps" for t by simp
  then show ?thesis using True permutation_order [of _ n]
    by (auto simp: trial_orders_def trial_design_def MAX_PERMUTATION_PATHS_def Let_def)
next
  case False
  let ?rows = "williams_rows n"
  have "0 < length ?rows" using False by (simp add: williams_rows_length)
  then have "?rows ! (t mod length ?rows) \<in> set ?rows" for t by simp
  then show ?thesis using False williams_row_order [of n]
    by (auto simp: trial_orders_def trial_design_def MAX_PERMUTATION_PATHS_def Let_def)
qed

text \<open>
  C12: A trial schedule either is refused, exactly when more than four paths are run a number of
  trials that is not a whole number of Williams designs, or has one order per trial, each a
  permutation of the paths.
\<close>

theorem trial_orders_schedule:
  "case trial_orders n trials of
     Inl e \<Rightarrow> 4 < n \<and> trials mod length (williams_rows n) \<noteq> 0
             \<and> e = TrialsNotMultiple n (length (williams_rows n)) trials
   | Inr orders \<Rightarrow> length orders = trials \<and> (\<forall>row \<in> set orders. is_order n row)
             \<and> (n \<le> 4 \<or> trials mod length (williams_rows n) = 0)"
  by (rule trial_orders_rows)

lemma trial_orders_schedule_witness:
  "trial_orders 5 7 = Inl (TrialsNotMultiple 5 10 7)"
proof (cases "trial_orders 5 7")
  case (Inl e)
  then show ?thesis using trial_orders_schedule [of 5 7] by (simp add: williams_rows_length)
next
  case (Inr orders)
  then show ?thesis using trial_orders_schedule [of 5 7] by (simp add: williams_rows_length)
qed

text \<open>
  C13: Whatever the selection, the paths a sweep runs have pairwise distinct labels, start with
  the CPU comparator, and contain for each path the policy-matched baseline it is measured
  against and, for a pinned path, its pageable twin.
\<close>

theorem build_paths_closed:
  assumes "build_paths backends boundaries policies = Inr ps"
  shows "distinct (map path_label ps) \<and> hd ps = COMPARATOR
    \<and> (\<forall>p \<in> set ps. (baseline p = None \<longleftrightarrow> p = COMPARATOR)
          \<and> (\<forall>b. baseline p = Some b \<longrightarrow> b \<in> set ps)
          \<and> (policy p = ''pinned'' \<longrightarrow> pageable_twin p \<in> set ps))"
proof -
  have "closed_paths ps" using selections_closed build_paths_selections [OF assms] by (simp add: list_all_iff)
  then show ?thesis by (fastforce simp: closed_paths_def list_all_iff)
qed

theorem build_paths_closed_witness:
  "\<exists>ps. build_paths [''cuda''] [''gpu-origin''] [''pageable'', ''pinned''] = Inr ps \<and> hd ps = COMPARATOR
     \<and> pageable_twin CUDA_GPU_ORIGIN_PINNED \<in> set ps"
proof -
  have "\<not> isl (build_paths [''cuda''] [''gpu-origin''] [''pageable'', ''pinned''])" by code_simp
  then obtain ps where ps: "build_paths [''cuda''] [''gpu-origin''] [''pageable'', ''pinned''] = Inr ps"
    by (cases "build_paths [''cuda''] [''gpu-origin''] [''pageable'', ''pinned'']") auto
  have "CUDA_GPU_ORIGIN_PINNED \<in> set ps" using build_paths_fold [OF ps] by auto
  moreover have "policy CUDA_GPU_ORIGIN_PINNED = ''pinned''" by (simp add: path_simps)
  ultimately show ?thesis using build_paths_closed [OF ps] ps by blast
qed

text \<open>
  C14: The case order is a permutation of the full cross product: every (input, bits) case is run
  exactly as often as the product lists it, whatever seed is used.
\<close>

theorem case_order_permutes:
  assumes "\<And>s n. mset (rng_permutation s n) = mset [0..<n]"
  shows "mset (case_order rng_permutation keys bit_widths seed)
    = mset (concat (map (\<lambda>key. map (\<lambda>bits. (key, bits)) bit_widths) keys))"
proof -
  let ?c = "concat (map (\<lambda>key. map (\<lambda>bits. (key, bits)) bit_widths) keys)"
  have "mset (case_order rng_permutation keys bit_widths seed)
      = image_mset ((!) ?c) (mset (rng_permutation seed (length ?c)))"
    by (simp only: case_order_def Let_def mset_map)
  also have "\<dots> = mset (map ((!) ?c) [0..<length ?c])" by (simp only: assms mset_map)
  finally show ?thesis by (simp only: map_nth)
qed

theorem case_order_permutes_witness:
  "mset (case_order (\<lambda>s n. rev [0..<n]) [10, 20::nat] [4, 8] 612) = mset [(10, 4), (10, 8), (20, 4), (20, 8)]"
  using case_order_permutes [of "\<lambda>s n. rev [0..<n]" "[10, 20]" "[4, 8]" 612] by simp

end
