(* ===== verification/Stats.thy ===== *)
theory Stats
  imports Design Ieee754
begin

text \<open>
  Statistics and claims of \<open>src/stoquant/stats.py\<close>: the statistics of a case, the conservative
  speedup comparison, boundary inversions and the claims attached to a group of cases. Python
  floats are binary64 values; NumPy's median, percentile, mean, standard deviation and the index
  draws of its seeded generator are the fields of \<open>numpy_ops\<close>, arguments of the definitions.
\<close>

record numpy_ops =
  np_median :: "fp list \<Rightarrow> fp"
  np_percentile :: "fp list \<Rightarrow> fp \<Rightarrow> fp"
  np_mean :: "fp list \<Rightarrow> fp"
  np_std :: "fp list \<Rightarrow> fp"
  np_draws :: "nat \<Rightarrow> nat \<Rightarrow> nat \<Rightarrow> nat \<Rightarrow> nat list list \<times> nat list list"

subsection \<open>Constants\<close>

definition STAGE_KEYS :: "string list" where
  "STAGE_KEYS = [''k1_ms'', ''k2_ms'', ''k3_ms'', ''h2d_ms'', ''d2h_ms'', ''cpu_ms'']"

definition SPREAD_THRESHOLD :: fp where "SPREAD_THRESHOLD = FFin False (5 / 4)"
definition STABILITY_THRESHOLD :: fp where "STABILITY_THRESHOLD = FFin False (5 / 4)"
definition STABILITY_PERCENTILES :: "fp \<times> fp" where "STABILITY_PERCENTILES = (fp_of_nat 10, fp_of_nat 90)"
definition BOOTSTRAP_RESAMPLES :: nat where "BOOTSTRAP_RESAMPLES = 10000"
definition BOOTSTRAP_SEED :: nat where "BOOTSTRAP_SEED = 31"
definition BOOTSTRAP_LEVEL :: fp where "BOOTSTRAP_LEVEL = fp_round binary64 False (95 / 100)"

subsection \<open>Statistics of one case\<close>

text \<open>Python's \<open>min\<close> and \<open>max\<close> of a list keep the first extreme element.\<close>

definition py_min :: "fp list \<Rightarrow> (py_exn, fp) result" where
  "py_min xs = (case xs of [] \<Rightarrow> Inl (ValueError ''min() arg is an empty sequence'')
     | y # ys \<Rightarrow> Inr (foldl (\<lambda>m x. if x < m then x else m) y ys))"

definition py_max :: "fp list \<Rightarrow> (py_exn, fp) result" where
  "py_max xs = (case xs of [] \<Rightarrow> Inl (ValueError ''max() arg is an empty sequence'')
     | y # ys \<Rightarrow> Inr (foldl (\<lambda>m x. if m < x then x else m) y ys))"

record sample_stats =
  median_ms :: fp
  iqr_ms :: fp
  q25_ms :: fp
  q75_ms :: fp
  min_ms :: fp
  max_ms :: fp
  mean_ms :: fp
  std_ms :: fp

definition compute_statistics :: "numpy_ops \<Rightarrow> fp list \<Rightarrow> sample_stats option" where
  "compute_statistics np arr =
     (if arr = [] then None
      else let q25 = np_percentile np arr (fp_of_nat 25); q75 = np_percentile np arr (fp_of_nat 75) in
        Some \<lparr>median_ms = np_median np arr, iqr_ms = fp_sub binary64 q75 q25, q25_ms = q25, q75_ms = q75,
              min_ms = foldl fp_min (hd arr) (tl arr), max_ms = foldl fp_max (hd arr) (tl arr),
              mean_ms = np_mean np arr, std_ms = np_std np arr\<rparr>)"

text \<open>
  \<open>compute_case_statistics\<close> returns one dictionary; \<open>pooled\<close> holds the part of
  \<open>compute_statistics\<close>, which is empty when no trial has a sample.
\<close>

record case_stats =
  pooled :: "sample_stats option"
  trial_medians_ms :: "fp list"
  trial_median_min_ms :: fp
  trial_median_max_ms :: fp
  spread_ratio :: fp
  unstable_rev2 :: bool
  spread_p90_p10 :: fp
  stable :: bool

definition spread_of :: "fp \<Rightarrow> fp \<Rightarrow> fp" where
  "spread_of high low = (if fp_zero < low then fp_div binary64 high low else FInf False)"

definition compute_case_statistics :: "numpy_ops \<Rightarrow> fp list list \<Rightarrow> (py_exn, case_stats) result" where
  "compute_case_statistics np trial_samples =
     (let all_samples = concat trial_samples;
          stats = compute_statistics np all_samples;
          trial_medians = map (np_median np) trial_samples
      in bindE (py_min trial_medians) (\<lambda>low. bindE (py_max trial_medians) (\<lambda>high.
        let p_low = np_percentile np trial_medians (fst STABILITY_PERCENTILES);
            p_high = np_percentile np trial_medians (snd STABILITY_PERCENTILES);
            ratio = spread_of high low; spread = spread_of p_high p_low
        in Inr \<lparr>pooled = stats, trial_medians_ms = trial_medians, trial_median_min_ms = low,
                trial_median_max_ms = high, spread_ratio = ratio,
                unstable_rev2 = (SPREAD_THRESHOLD < ratio), spread_p90_p10 = spread,
                stable = (spread \<le> STABILITY_THRESHOLD)\<rparr>)))"

definition case_median :: "case_stats \<Rightarrow> fp option" where
  "case_median s = map_option median_ms (pooled s)"

subsection \<open>Bootstrap interval and speedup\<close>

definition bootstrap_speedup_ci :: "numpy_ops \<Rightarrow> fp list \<Rightarrow> fp list \<Rightarrow> nat \<Rightarrow> nat \<Rightarrow> fp \<Rightarrow> fp \<times> fp" where
  "bootstrap_speedup_ci np base cand resamples seed level =
     (let draws = np_draws np seed resamples (length base) (length cand);
          base_draws = map (map ((!) base)) (fst draws);
          cand_draws = map (map ((!) cand)) (snd draws);
          ratios = map2 (fp_div binary64) (map (np_median np) base_draws) (map (np_median np) cand_draws);
          tail = fp_div binary64 (fp_mul binary64 (fp_of_nat 100) (fp_sub binary64 (fp_of_nat 1) level)) (fp_of_nat 2)
      in (np_percentile np ratios tail, np_percentile np ratios (fp_sub binary64 (fp_of_nat 100) tail)))"

datatype verdict = Faster | Slower | Inconclusive | ComparatorVerdict

record speedup =
  point :: "fp option"
  speedup_low :: "fp option"
  speedup_high :: "fp option"
  speedup_ci_low :: "fp option"
  speedup_ci_high :: "fp option"
  verdict :: verdict

definition no_speedup :: speedup where
  "no_speedup = \<lparr>point = None, speedup_low = None, speedup_high = None, speedup_ci_low = None,
     speedup_ci_high = None, verdict = Inconclusive\<rparr>"

definition usable_value :: "fp \<Rightarrow> bool" where
  "usable_value v \<longleftrightarrow> fp_finite v \<and> \<not> v \<le> fp_zero"

definition decide_verdict :: "fp \<Rightarrow> fp \<Rightarrow> verdict" where
  "decide_verdict low high =
     (if fp_of_nat 1 < low then Faster else if high < fp_of_nat 1 then Slower else Inconclusive)"

definition compare_speedup :: "numpy_ops \<Rightarrow> case_stats \<Rightarrow> case_stats \<Rightarrow> speedup" where
  "compare_speedup np b c =
     (if trial_medians_ms b = [] \<or> trial_medians_ms c = [] then no_speedup
      else case (case_median b, case_median c) of
        (Some bm, Some cm) \<Rightarrow>
          if list_ex (\<lambda>v. \<not> usable_value v)
               ([bm, trial_median_min_ms b, trial_median_max_ms b, cm, trial_median_min_ms c, trial_median_max_ms c]
                @ trial_medians_ms b @ trial_medians_ms c)
          then no_speedup
          else
            let low = fp_div binary64 (trial_median_min_ms b) (trial_median_max_ms c);
                high = fp_div binary64 (trial_median_max_ms b) (trial_median_min_ms c);
                ci = bootstrap_speedup_ci np (trial_medians_ms b) (trial_medians_ms c)
                       BOOTSTRAP_RESAMPLES BOOTSTRAP_SEED BOOTSTRAP_LEVEL
            in \<lparr>point = Some (fp_div binary64 bm cm), speedup_low = Some low, speedup_high = Some high,
                speedup_ci_low = Some (fst ci), speedup_ci_high = Some (snd ci), verdict = decide_verdict low high\<rparr>
      | _ \<Rightarrow> no_speedup)"

subsection \<open>Claims\<close>

record claims =
  direction_supported :: bool
  magnitude_supported :: bool
  claim_supported_rev2 :: bool

definition claim_support :: "verdict \<Rightarrow> bool \<Rightarrow> case_stats \<Rightarrow> case_stats \<Rightarrow> claims" where
  "claim_support v inversion b c =
     (let direction = (v \<noteq> Inconclusive \<and> \<not> inversion) in
      \<lparr>direction_supported = direction,
       magnitude_supported = (direction \<and> stable b \<and> stable c),
       claim_supported_rev2 = (direction \<and> \<not> unstable_rev2 b \<and> \<not> unstable_rev2 c)\<rparr>)"

definition baseline_label :: "bench_path \<Rightarrow> string option" where
  "baseline_label p = map_option path_label (baseline p)"

subsection \<open>Boundary inversions\<close>

text \<open>One boundary of the loop, and the loop; \<open>selected_keys=None\<close> selects the keys of \<open>medians\<close>.\<close>

definition boundary_violated :: "(string \<times> fp) list \<Rightarrow> string set \<Rightarrow> bench_path \<Rightarrow> bool" where
  "boundary_violated medians selected p =
     (if path_key p \<notin> selected then False
      else case map_of medians (path_key p) of
        None \<Rightarrow> True
      | Some candidate \<Rightarrow>
          list_ex (\<lambda>nested. path_key nested \<in> selected \<and>
              (case map_of medians (path_key nested) of None \<Rightarrow> True | Some m \<Rightarrow> candidate < m)) (nested_paths p))"

definition boundary_inversion :: "(string \<times> fp) list \<Rightarrow> string \<Rightarrow> string set option \<Rightarrow> bool" where
  "boundary_inversion medians pol selected_keys =
     (let selected = (case selected_keys of None \<Rightarrow> set (map fst medians) | Some ks \<Rightarrow> ks) in
      list_ex (\<lambda>b. boundary_violated medians selected (mk_path ''cuda'' b pol))
        [boundary CUDA_HOST_ORIGIN, boundary CUDA_GPU_ORIGIN])"

subsection \<open>A group of cases\<close>

text \<open>
  \<open>compare_case_group\<close> updates the statistics dictionaries of one (input, bits) group in place.
  Every update reads only measured fields, which no update writes, so the model computes for
  each path the fields its dictionary gains; \<open>None\<close> stands for a key that is not set. The keys
  set to \<open>None\<close> by the code (claims of a path that has none) are \<open>NoClaims\<close>.
\<close>

datatype path_claims = NoClaims | Claims claims

record annotation =
  base :: string
  vs_cpu :: speedup
  inversion :: bool
  support :: path_claims
  descriptive :: bool
  vs_cpu_avx2 :: "speedup option"
  vs_pageable :: "(speedup \<times> bool \<times> claims) option"
  vs_comparator :: "speedup option"

type_synonym stats_table = "(string \<times> case_stats option) list"

text \<open>\<open>stats_by_label[l]\<close> raises for an unknown label, \<open>stats_by_label.get(l)\<close> does not.\<close>

definition stats_get :: "stats_table \<Rightarrow> string \<Rightarrow> case_stats option" where
  "stats_get t l = (case map_of t l of None \<Rightarrow> None | Some s \<Rightarrow> s)"

definition median_less :: "case_stats \<Rightarrow> case_stats \<Rightarrow> bool" where
  "median_less a b = (case (case_median a, case_median b) of (Some x, Some y) \<Rightarrow> x < y | _ \<Rightarrow> False)"

definition cuda_medians :: "bench_path list \<Rightarrow> stats_table \<Rightarrow> (string \<times> fp) list" where
  "cuda_medians paths t =
     rev (concat (map (\<lambda>p. if backend p = ''cuda'' then
       (case stats_get t (path_label p) of None \<Rightarrow> []
        | Some s \<Rightarrow> (case case_median s of None \<Rightarrow> [] | Some m \<Rightarrow> [(path_key p, m)])) else []) paths))"

definition cuda_keys :: "bench_path list \<Rightarrow> string set" where
  "cuda_keys paths = set (map path_key (filter (\<lambda>p. backend p = ''cuda'') paths))"

definition cpu_inversion :: "bench_path list \<Rightarrow> stats_table \<Rightarrow> string \<Rightarrow> bool" where
  "cpu_inversion paths t pol =
     (let cpu_path = mk_path ''cpu'' (boundary CPU_GPU_ORIGIN) pol;
          candidate = stats_get t (path_label cpu_path);
          reference = stats_get t (path_label (hd (nested_paths cpu_path)))
      in if path_label cpu_path \<notin> set (map path_label paths) then False
         else case (candidate, reference) of
            (Some c, Some b) \<Rightarrow> median_less c b
          | _ \<Rightarrow> True)"

definition cuda_inversion :: "bench_path list \<Rightarrow> stats_table \<Rightarrow> string \<Rightarrow> bool" where
  "cuda_inversion paths t pol = boundary_inversion (cuda_medians paths t) pol (Some (cuda_keys paths))"

definition path_inversion :: "bench_path list \<Rightarrow> stats_table \<Rightarrow> bench_path \<Rightarrow> bool" where
  "path_inversion paths t p =
     (let grp = (if policy p = ''pinned'' then ''pinned'' else ''pageable'') in
      if p = AVX2_COMPARATOR then False
      else if backend p = ''cpu'' then cpu_inversion paths t grp
      else if boundary p = boundary CUDA_GPU_ORIGIN then cuda_inversion paths t grp \<or> cpu_inversion paths t grp
      else cuda_inversion paths t grp)"

definition comparator_annotation :: annotation where
  "comparator_annotation =
     (let one = Some (fp_of_nat 1) in
      \<lparr>base = [], vs_cpu = \<lparr>point = one, speedup_low = one, speedup_high = one, speedup_ci_low = one,
         speedup_ci_high = one, verdict = ComparatorVerdict\<rparr>, inversion = False, support = NoClaims,
       descriptive = False, vs_cpu_avx2 = None, vs_pageable = None, vs_comparator = None\<rparr>)"

definition supported_comparison ::
  "numpy_ops \<Rightarrow> case_stats \<Rightarrow> case_stats \<Rightarrow> bool \<Rightarrow> speedup \<times> bool \<times> claims" where
  "supported_comparison np b c inverted =
     (let sp = compare_speedup np b c in (sp, inverted, claim_support (verdict sp) inverted b c))"

definition pageable_comparison ::
  "numpy_ops \<Rightarrow> bench_path list \<Rightarrow> stats_table \<Rightarrow> bench_path \<Rightarrow> case_stats \<Rightarrow> (speedup \<times> bool \<times> claims) option" where
  "pageable_comparison np paths t p s =
     (if policy p \<noteq> ''pinned'' then None
      else case stats_get t (path_label (pageable_twin p)) of
        None \<Rightarrow> None
      | Some twin \<Rightarrow> Some (supported_comparison np twin s
            (path_inversion paths t p \<or> path_inversion paths t (pageable_twin p))))"

definition resident_comparison ::
  "numpy_ops \<Rightarrow> bench_path list \<Rightarrow> stats_table \<Rightarrow> bench_path \<Rightarrow> (speedup \<times> bool \<times> claims) option" where
  "resident_comparison np paths t p =
     (if path_label p \<noteq> path_label CUDA_RESIDENT_GRAPH then None
      else case (stats_get t (path_label CUDA_RESIDENT), stats_get t (path_label CUDA_RESIDENT_GRAPH)) of
        (Some resident, Some graph) \<Rightarrow>
          Some (supported_comparison np resident graph (cuda_inversion paths t ''pageable''))
      | _ \<Rightarrow> None)"

definition annotate :: "numpy_ops \<Rightarrow> bench_path list \<Rightarrow> stats_table \<Rightarrow> bench_path \<Rightarrow> annotation option" where
  "annotate np paths t p =
     (case stats_get t (path_label p) of
        None \<Rightarrow> None
      | Some s \<Rightarrow>
          if p = COMPARATOR then Some comparator_annotation
          else let inverted = path_inversion paths t p in
            case baseline_label p of None \<Rightarrow> None
          | Some l \<Rightarrow>
             (case stats_get t l of None \<Rightarrow> None
              | Some b \<Rightarrow>
                 let sp = compare_speedup np b s;
                     ann = \<lparr>base = l, vs_cpu = sp, inversion = inverted, support = NoClaims, descriptive = True,
                        vs_cpu_avx2 = None, vs_pageable = None, vs_comparator = None\<rparr>
                 in if p = AVX2_COMPARATOR then Some ann
                    else Some (ann
                      \<lparr>support := Claims (claim_support (verdict sp) inverted b s), descriptive := False,
                       vs_cpu_avx2 := (if backend p = ''cuda''
                           then map_option (\<lambda>a. compare_speedup np a s) (stats_get t (path_label AVX2_COMPARATOR)) else None),
                       vs_pageable := pageable_comparison np paths t p s,
                       vs_comparator := (if backend p = ''cuda'' \<and> boundary p = boundary CUDA_GPU_ORIGIN
                           then map_option (\<lambda>c. compare_speedup np c s) (stats_get t (path_label COMPARATOR)) else None)\<rparr>)))"

text \<open>
  Reading \<open>median_ms\<close> of statistics without samples raises. The second component of a result is
  the \<open>vs_resident\<close> entry, which the resident-graph path gets after the loop.
\<close>

definition median_missing :: "bench_path list \<Rightarrow> stats_table \<Rightarrow> bool" where
  "median_missing paths t \<longleftrightarrow>
     list_ex (\<lambda>p. backend p = ''cuda''
       \<and> (case stats_get t (path_label p) of None \<Rightarrow> False | Some s \<Rightarrow> case_median s = None)) paths
     \<or> list_ex (\<lambda>pol. let cpu_path = mk_path ''cpu'' (boundary CPU_GPU_ORIGIN) pol in
         path_label cpu_path \<in> set (map path_label paths)
         \<and> (case (stats_get t (path_label cpu_path), stats_get t (path_label (hd (nested_paths cpu_path)))) of
              (Some c, Some b) \<Rightarrow> case_median c = None \<or> case_median b = None
            | _ \<Rightarrow> False)) [''pageable'', ''pinned'']"

definition compare_case_group ::
  "numpy_ops \<Rightarrow> case_stats option list \<Rightarrow> bench_path list
     \<Rightarrow> (py_exn, (annotation option \<times> (speedup \<times> bool \<times> claims) option) list) result" where
  "compare_case_group np cases paths =
     (if length cases \<noteq> length paths then Inl (ValueError ''zip() arguments have different lengths'')
      else let t = rev (zip (map path_label paths) cases) in
        if path_label COMPARATOR \<notin> set (map path_label paths) then Inl (KeyError (path_label COMPARATOR))
        else if median_missing paths t then Inl (KeyError ''median_ms'')
        else Inr (map (\<lambda>p. (annotate np paths t p, resident_comparison np paths t p)) paths))"

subsection \<open>Stage medians\<close>

record timed_run =
  samples_ms :: "fp list"
  stages :: "string \<rightharpoonup> fp list"

text \<open>
  Stage arrays of one run have the length of its samples (the bench response is validated so),
  and the sum of the staged arrays starts from Python's integer \<open>0\<close>.
\<close>

definition pooled_stage :: "timed_run list \<Rightarrow> string \<Rightarrow> fp list" where
  "pooled_stage runs k = concat (map (\<lambda>r. case stages r k of None \<Rightarrow> [] | Some xs \<Rightarrow> xs) runs)"

definition compute_stage_medians :: "numpy_ops \<Rightarrow> timed_run list \<Rightarrow> ((string \<times> fp) list \<times> fp) option" where
  "compute_stage_medians np runs =
     (let keys = filter (\<lambda>k. list_all (\<lambda>r. stages r k \<noteq> None) runs) STAGE_KEYS in
      if runs = [] \<or> keys = [] then None
      else
        let medians = map (\<lambda>k. (k, np_median np (pooled_stage runs k))) keys;
            wall = concat (map samples_ms runs);
            staged = foldl (map2 (fp_add binary64)) (replicate (length wall) fp_zero) (map (pooled_stage runs) keys)
        in Some (medians, np_median np (map2 (fp_sub binary64) wall staged)))"

subsection \<open>Usable values\<close>

text \<open>A usable float64 value is a positive grid value, and comparisons of such are those of rationals.\<close>

lemma usable_fin:
  assumes "usable_value v" "fp_ok binary64 v"
  obtains a where "v = FFin False a" "0 < a" "on_grid binary64 a"
proof (cases v)
  case (FFin s a)
  moreover have "\<not> s" "0 < a"
    using assms FFin
    by (auto simp: usable_value_def fp_ok_def less_eq_fp_def fp_eq_def fp_zero_def fp_num_def split: if_splits)
  ultimately show ?thesis using that assms(2) by (simp add: fp_ok_def)
qed (use assms in \<open>simp_all add: usable_value_def fp_finite_def\<close>)

lemma less_FFin [simp]: "FFin False a < FFin False b \<longleftrightarrow> a < b"
  by (simp add: less_fp_def fp_num_def)

definition plain :: "fp \<Rightarrow> bool" where
  "plain v \<longleftrightarrow> (\<exists>a. v = FFin False a)"

lemma plain_less: "plain v \<Longrightarrow> plain w \<Longrightarrow> v < w \<longleftrightarrow> fp_num v < fp_num w"
  by (auto simp: plain_def fp_num_def)

lemma foldl_min_plain:
  assumes "\<forall>x \<in> set (y # ys). plain x"
  shows "foldl (\<lambda>m x. if x < m then x else m) y ys \<in> set (y # ys)
    \<and> (\<forall>x \<in> set (y # ys). fp_num (foldl (\<lambda>m x. if x < m then x else m) y ys) \<le> fp_num x)"
  using assms
proof (induction ys arbitrary: y)
  case (Cons z zs)
  let ?m = "if z < y then z else y"
  have m: "plain ?m" "fp_num ?m \<le> fp_num z" "fp_num ?m \<le> fp_num y" "?m \<in> {y, z}"
    using Cons.prems plain_less [of z y] by auto
  have "foldl (\<lambda>m x. if x < m then x else m) ?m zs \<in> set (?m # zs)
    \<and> (\<forall>x \<in> set (?m # zs). fp_num (foldl (\<lambda>m x. if x < m then x else m) ?m zs) \<le> fp_num x)"
    using Cons.prems m(1) by (intro Cons.IH) auto
  then show ?case using m(2-4) by (auto split: if_splits)
qed simp

lemma foldl_max_plain:
  assumes "\<forall>x \<in> set (y # ys). plain x"
  shows "foldl (\<lambda>m x. if m < x then x else m) y ys \<in> set (y # ys)
    \<and> (\<forall>x \<in> set (y # ys). fp_num x \<le> fp_num (foldl (\<lambda>m x. if m < x then x else m) y ys))"
  using assms
proof (induction ys arbitrary: y)
  case (Cons z zs)
  let ?m = "if y < z then z else y"
  have m: "plain ?m" "fp_num z \<le> fp_num ?m" "fp_num y \<le> fp_num ?m" "?m \<in> {y, z}"
    using Cons.prems plain_less [of y z] by auto
  have "foldl (\<lambda>m x. if m < x then x else m) ?m zs \<in> set (?m # zs)
    \<and> (\<forall>x \<in> set (?m # zs). fp_num x \<le> fp_num (foldl (\<lambda>m x. if m < x then x else m) ?m zs))"
    using Cons.prems m(1) by (intro Cons.IH) auto
  then show ?case using m(2-4) by (auto split: if_splits)
qed simp

lemma py_min_spec:
  assumes "py_min xs = Inr m" "\<forall>x \<in> set xs. plain x"
  shows "m \<in> set xs" "\<forall>x \<in> set xs. fp_num m \<le> fp_num x"
proof -
  obtain y ys where "xs = y # ys" using assms(1) by (cases xs) (simp_all add: py_min_def)
  then show "m \<in> set xs" "\<forall>x \<in> set xs. fp_num m \<le> fp_num x" using foldl_min_plain [of y ys] assms by (simp_all add: py_min_def)
qed

lemma py_max_spec:
  assumes "py_max xs = Inr m" "\<forall>x \<in> set xs. plain x"
  shows "m \<in> set xs" "\<forall>x \<in> set xs. fp_num x \<le> fp_num m"
proof -
  obtain y ys where "xs = y # ys" using assms(1) by (cases xs) (simp_all add: py_max_def)
  then show "m \<in> set xs" "\<forall>x \<in> set xs. fp_num x \<le> fp_num m" using foldl_max_plain [of y ys] assms by (simp_all add: py_max_def)
qed

subsection \<open>Verdicts\<close>

lemma one_less_quotient:
  assumes "v = FFin False a" "w = FFin False b" "0 < a" "0 < b" "on_grid binary64 a" "on_grid binary64 b"
  shows "fp_of_nat 1 < fp_div binary64 v w \<longleftrightarrow> w < v"
    and "fp_div binary64 v w < fp_of_nat 1 \<longleftrightarrow> v < w"
proof -
  let ?q = "round_mag binary64 (a / b)"
  have gt: "1 < ?q" if "b < a" using quotient_gt_1 [of binary64 a b] that assms by simp
  have lt: "?q < 1" if "a < b" using quotient_lt_1 [of binary64 a b] that assms by simp
  have eq: "?q = 1" if "a = b" using r64.rnd_self_quotient [of a] that assms(3) by simp
  have max: "1 < maxfin binary64" by (simp add: maxfin_def)
  have one: "fp_of_nat 1 < fp_div binary64 v w \<longleftrightarrow> 1 < ?q"
    using assms(3,4) max by (simp add: assms(1,2) fp_of_nat_def fp_round_def less_fp_def fp_num_def)
  have two: "fp_div binary64 v w < fp_of_nat 1 \<longleftrightarrow> ?q < 1"
    using assms(3,4) max by (simp add: assms(1,2) fp_of_nat_def fp_round_def less_fp_def fp_num_def)
  have cmp: "1 < ?q \<longleftrightarrow> b < a" "?q < 1 \<longleftrightarrow> a < b"
    using gt lt eq by (cases a b rule: linorder_cases; force)+
  show "fp_of_nat 1 < fp_div binary64 v w \<longleftrightarrow> w < v" unfolding one cmp by (simp add: assms(1,2))
  show "fp_div binary64 v w < fp_of_nat 1 \<longleftrightarrow> v < w" unfolding two cmp by (simp add: assms(1,2))
qed

definition all_usable :: "case_stats \<Rightarrow> case_stats \<Rightarrow> bool" where
  "all_usable b c \<longleftrightarrow> trial_medians_ms b \<noteq> [] \<and> trial_medians_ms c \<noteq> []
     \<and> (\<exists>bm cm. case_median b = Some bm \<and> case_median c = Some cm \<and> usable_value bm \<and> usable_value cm)
     \<and> (\<forall>v \<in> set (trial_medians_ms b @ trial_medians_ms c). usable_value v)
     \<and> (\<forall>s \<in> {b, c}. usable_value (trial_median_min_ms s) \<and> usable_value (trial_median_max_ms s))"

lemma compare_verdict:
  "verdict (compare_speedup np b c) =
     (if all_usable b c then decide_verdict (fp_div binary64 (trial_median_min_ms b) (trial_median_max_ms c))
        (fp_div binary64 (trial_median_max_ms b) (trial_median_min_ms c)) else Inconclusive)"
  by (cases "case_median b"; cases "case_median c")
     (auto simp: compare_speedup_def all_usable_def no_speedup_def Let_def list_ex_iff)

lemma case_statistics_trials:
  assumes "compute_case_statistics np ts = Inr s"
  shows "trial_medians_ms s = map (np_median np) ts"
    and "py_min (trial_medians_ms s) = Inr (trial_median_min_ms s)"
    and "py_max (trial_medians_ms s) = Inr (trial_median_max_ms s)"
  using assms by (auto simp: compute_case_statistics_def Let_def result_simps)

text \<open>The range of the trial medians of usable statistics, as positive grid values.\<close>

lemma trial_range:
  assumes "compute_case_statistics np ts = Inr s" "\<And>xs. fp_ok binary64 (np_median np xs)"
    and "\<forall>v \<in> set (trial_medians_ms s). usable_value v"
  obtains lo hi where "trial_median_min_ms s = FFin False lo" "trial_median_max_ms s = FFin False hi"
    "0 < lo" "lo \<le> hi" "on_grid binary64 lo" "on_grid binary64 hi"
    "FFin False lo \<in> set (trial_medians_ms s)" "FFin False hi \<in> set (trial_medians_ms s)"
    "\<forall>v \<in> set (trial_medians_ms s). \<exists>a. v = FFin False a \<and> lo \<le> a \<and> a \<le> hi"
proof -
  note t = case_statistics_trials [OF assms(1)]
  have fin: "\<exists>a. v = FFin False a \<and> 0 < a \<and> on_grid binary64 a" if "v \<in> set (trial_medians_ms s)" for v
  proof -
    have "fp_ok binary64 v" using that assms(2) by (auto simp: t(1))
    then show ?thesis using usable_fin assms(3) that by metis
  qed
  then have pl: "\<forall>x \<in> set (trial_medians_ms s). plain x" by (auto simp: plain_def)
  note mn = py_min_spec [OF t(2) pl] and mx = py_max_spec [OF t(3) pl]
  obtain lo where lo: "trial_median_min_ms s = FFin False lo" "0 < lo" "on_grid binary64 lo" using fin [OF mn(1)] by blast
  obtain hi where hi: "trial_median_max_ms s = FFin False hi" "0 < hi" "on_grid binary64 hi" using fin [OF mx(1)] by blast
  have all: "\<forall>v \<in> set (trial_medians_ms s). \<exists>a. v = FFin False a \<and> lo \<le> a \<and> a \<le> hi"
  proof
    fix v assume v: "v \<in> set (trial_medians_ms s)"
    obtain a where "v = FFin False a" using fin [OF v] by blast
    then show "\<exists>a. v = FFin False a \<and> lo \<le> a \<and> a \<le> hi"
      using mn(2) mx(2) v lo(1) hi(1) by (force simp: fp_num_def)
  qed
  then have "lo \<le> hi" using mn(1) lo(1) by force
  then show ?thesis using that lo hi mn(1) mx(1) all by simp
qed

lemma all_less_iff:
  assumes "\<forall>v \<in> C. \<exists>a. v = FFin False a \<and> cl \<le> a \<and> a \<le> ch" "FFin False ch \<in> C"
    and "\<forall>v \<in> B. \<exists>a. v = FFin False a \<and> bl \<le> a \<and> a \<le> bh" "FFin False bl \<in> B"
  shows "ch < bl \<longleftrightarrow> (\<forall>x \<in> B. \<forall>y \<in> C. y < x)"
proof
  assume lt: "ch < bl"
  show "\<forall>x \<in> B. \<forall>y \<in> C. y < x"
  proof (intro ballI)
    fix x y assume "x \<in> B" "y \<in> C"
    then obtain a e where "x = FFin False a" "bl \<le> a" "y = FFin False e" "e \<le> ch" using assms(1,3) by blast
    then show "y < x" using lt by simp
  qed
next
  assume "\<forall>x \<in> B. \<forall>y \<in> C. y < x"
  then have "FFin False ch < FFin False bl" using assms(2,4) by blast
  then show "ch < bl" by simp
qed

lemma verdict_ranges:
  assumes "compute_case_statistics np ts = Inr b" "compute_case_statistics np us = Inr c"
    and "\<And>xs. fp_ok binary64 (np_median np xs)" and "all_usable b c"
  shows "verdict (compare_speedup np b c) = Faster \<longleftrightarrow>
           (\<forall>x \<in> set (trial_medians_ms b). \<forall>y \<in> set (trial_medians_ms c). y < x)"
    and "verdict (compare_speedup np b c) = Slower \<longleftrightarrow>
           (\<forall>x \<in> set (trial_medians_ms b). \<forall>y \<in> set (trial_medians_ms c). x < y)"
proof -
  have ub: "\<forall>v \<in> set (trial_medians_ms b). usable_value v" and uc: "\<forall>v \<in> set (trial_medians_ms c). usable_value v"
    using assms(4) by (auto simp: all_usable_def)
  obtain bl bh where b: "trial_median_min_ms b = FFin False bl" "trial_median_max_ms b = FFin False bh"
    "0 < bl" "bl \<le> bh" "on_grid binary64 bl" "on_grid binary64 bh"
    "FFin False bl \<in> set (trial_medians_ms b)" "FFin False bh \<in> set (trial_medians_ms b)"
    "\<forall>v \<in> set (trial_medians_ms b). \<exists>a. v = FFin False a \<and> bl \<le> a \<and> a \<le> bh"
    using trial_range [OF assms(1,3) ub] .
  obtain cl ch where c: "trial_median_min_ms c = FFin False cl" "trial_median_max_ms c = FFin False ch"
    "0 < cl" "cl \<le> ch" "on_grid binary64 cl" "on_grid binary64 ch"
    "FFin False cl \<in> set (trial_medians_ms c)" "FFin False ch \<in> set (trial_medians_ms c)"
    "\<forall>v \<in> set (trial_medians_ms c). \<exists>a. v = FFin False a \<and> cl \<le> a \<and> a \<le> ch"
    using trial_range [OF assms(2,3) uc] .
  have pos: "0 < bh" "0 < ch" using b(3,4) c(3,4) by auto
  have v: "verdict (compare_speedup np b c) = (if ch < bl then Faster else if bh < cl then Slower else Inconclusive)"
    using assms(4) one_less_quotient(1) [OF refl refl b(3) pos(2) b(5) c(6)]
      one_less_quotient(2) [OF refl refl pos(1) c(3) b(6) c(5)]
    by (simp add: compare_verdict decide_verdict_def b(1,2) c(1,2))
  have f: "ch < bl \<longleftrightarrow> (\<forall>x \<in> set (trial_medians_ms b). \<forall>y \<in> set (trial_medians_ms c). y < x)"
    by (rule all_less_iff [OF c(9,8) b(9,7)])
  have s: "bh < cl \<longleftrightarrow> (\<forall>x \<in> set (trial_medians_ms b). \<forall>y \<in> set (trial_medians_ms c). x < y)"
    using all_less_iff [OF b(9,8) c(9,7)] by blast
  show "verdict (compare_speedup np b c) = Faster \<longleftrightarrow>
      (\<forall>x \<in> set (trial_medians_ms b). \<forall>y \<in> set (trial_medians_ms c). y < x)"
    unfolding v f [symmetric] by simp
  show "verdict (compare_speedup np b c) = Slower \<longleftrightarrow>
      (\<forall>x \<in> set (trial_medians_ms b). \<forall>y \<in> set (trial_medians_ms c). x < y)"
    unfolding v s [symmetric] using b(4) c(4) by simp
qed

subsection \<open>Claims rest on disjoint ranges and on nesting\<close>

definition table_median :: "stats_table \<Rightarrow> bench_path \<Rightarrow> fp option" where
  "table_median t p = (case stats_get t (path_label p) of None \<Rightarrow> None | Some s \<Rightarrow> case_median s)"

definition cuda_entries :: "bench_path list \<Rightarrow> stats_table \<Rightarrow> (string \<times> fp) list" where
  "cuda_entries paths t = concat (map (\<lambda>p. if backend p = ''cuda'' then
     (case table_median t p of None \<Rightarrow> [] | Some m \<Rightarrow> [(path_key p, m)]) else []) paths)"

lemma cuda_medians_entries: "cuda_medians paths t = rev (cuda_entries paths t)"
  unfolding cuda_medians_def cuda_entries_def table_median_def
  by (rule arg_cong [where f = "\<lambda>xs. rev (concat xs)"]) (auto split: option.splits)

lemma cuda_entries_keys:
  "k \<in> fst ` set (cuda_entries paths t) \<Longrightarrow> \<exists>p \<in> set paths. backend p = ''cuda'' \<and> path_key p = k"
  by (auto simp: cuda_entries_def split: if_splits option.splits)

lemma cuda_key_label: "backend p = ''cuda'' \<Longrightarrow> backend q = ''cuda'' \<Longrightarrow> path_label p = path_label q \<longleftrightarrow> path_key p = path_key q"
  by (simp add: path_label_def)

lemma cuda_entries_distinct: "distinct (map path_label paths) \<Longrightarrow> distinct (map fst (cuda_entries paths t))"
proof (induction paths)
  case Nil
  then show ?case by (simp add: cuda_entries_def)
next
  case (Cons p ps)
  have "path_key p \<notin> fst ` set (cuda_entries ps t)" if "backend p = ''cuda''"
  proof
    assume "path_key p \<in> fst ` set (cuda_entries ps t)"
    then obtain q where "q \<in> set ps" "backend q = ''cuda''" "path_key q = path_key p"
      using cuda_entries_keys by blast
    then have "path_label p \<in> set (map path_label ps)" using that cuda_key_label [of q p] by (metis image_eqI set_map)
    then show False using Cons.prems by simp
  qed
  moreover have "cuda_entries (p # ps) t = (if backend p = ''cuda'' then
      (case table_median t p of None \<Rightarrow> [] | Some m \<Rightarrow> [(path_key p, m)]) else []) @ cuda_entries ps t"
    by (simp add: cuda_entries_def)
  moreover have "distinct (map fst (cuda_entries ps t))" using Cons by simp
  ultimately show ?case by (cases "backend p = ''cuda''"; cases "table_median t p") simp_all
qed

lemma cuda_medians_lookup:
  assumes "distinct (map path_label paths)" "p \<in> set paths" "backend p = ''cuda''"
  shows "map_of (cuda_medians paths t) (path_key p) = table_median t p"
proof -
  note d = cuda_entries_distinct [OF assms(1), of t]
  have mem: "(path_key p, m) \<in> set (cuda_entries paths t) \<longleftrightarrow> table_median t p = Some m" for m
  proof
    assume "(path_key p, m) \<in> set (cuda_entries paths t)"
    then obtain q where q: "q \<in> set paths" "backend q = ''cuda''" "path_key q = path_key p" "table_median t q = Some m"
      by (auto simp: cuda_entries_def split: if_splits option.splits)
    then have "path_label q = path_label p" using cuda_key_label assms(3) by blast
    then show "table_median t p = Some m" using q(4) by (simp add: table_median_def)
  next
    assume "table_median t p = Some m"
    then show "(path_key p, m) \<in> set (cuda_entries paths t)"
      using assms(2,3) by (auto simp: cuda_entries_def intro!: bexI [of _ p])
  qed
  have "map_of (rev (cuda_entries paths t)) (path_key p) = Some m \<longleftrightarrow> table_median t p = Some m" for m
    using map_of_eq_Some_iff [of "rev (cuda_entries paths t)" "path_key p" m] d mem by (simp add: rev_map [symmetric])
  then show ?thesis unfolding cuda_medians_entries by (metis not_Some_eq)
qed

lemma no_violation_nested:
  assumes "\<not> boundary_violated medians selected p" "path_key p \<in> selected" "q \<in> set (nested_paths p)" "path_key q \<in> selected"
  obtains m k where "map_of medians (path_key p) = Some m" "map_of medians (path_key q) = Some k" "\<not> m < k"
  using assms by (cases "map_of medians (path_key p)"; cases "map_of medians (path_key q)")
    (auto simp: boundary_violated_def list_ex_iff)

lemma nested_cuda:
  assumes "q \<in> set (nested_paths p)"
  shows "(backend p = ''cuda'' \<longrightarrow> backend q = ''cuda'') \<and> (backend p = ''cuda'' \<longrightarrow> boundary p \<in> {''host-origin'', ''gpu-origin''})
    \<and> (backend p \<noteq> ''cuda'' \<longrightarrow> backend p = ''cpu'' \<and> boundary p = ''gpu-origin'' \<and> q = COMPARATOR)"
  using assms by (auto simp: nested_paths_def path_simps split: if_splits)

text \<open>A path that runs on one of the transfer policies is the path its inversion check looks at.\<close>

definition transfer_path :: "bench_path \<Rightarrow> bool" where
  "transfer_path p \<longleftrightarrow> policy p \<in> {''pageable'', ''pinned''}"

lemma not_inverted_nested:
  assumes d: "distinct (map path_label paths)" and p: "p \<in> set paths" "transfer_path p"
    and q: "q \<in> set (nested_paths p)" "q \<in> set paths" and n: "\<not> path_inversion paths t p"
    and nm: "\<not> median_missing paths t"
  shows "\<exists>m k. table_median t p = Some m \<and> table_median t q = Some k \<and> \<not> m < k"
proof (cases "backend p = ''cuda''")
  case True
  let ?pol = "if policy p = ''pinned'' then ''pinned'' else ''pageable''"
  have eq: "mk_path ''cuda'' (boundary p) ?pol = p"
    using True p(2) by (cases p) (auto simp: transfer_path_def mk_path_def)
  have bd: "boundary p \<in> {''host-origin'', ''gpu-origin''}" and qc: "backend q = ''cuda''"
    using nested_cuda [OF q(1)] True by auto
  have "p \<noteq> AVX2_COMPARATOR" using True by (auto simp: path_simps)
  then have "\<not> cuda_inversion paths t ?pol"
    using n True by (auto simp: path_inversion_def Let_def split: if_splits)
  then have nv: "\<not> boundary_violated (cuda_medians paths t) (cuda_keys paths) (mk_path ''cuda'' b ?pol)"
    if "b \<in> {''host-origin'', ''gpu-origin''}" for b
    using that by (auto simp: cuda_inversion_def boundary_inversion_def path_simps)
  have keys: "path_key r \<in> cuda_keys paths" if "r \<in> set paths" "backend r = ''cuda''" for r
    using that by (auto simp: cuda_keys_def)
  show ?thesis
    using no_violation_nested [OF nv [OF bd, unfolded eq] keys [OF p(1) True] q(1) keys [OF q(2) qc]]
      cuda_medians_lookup [OF d p(1) True] cuda_medians_lookup [OF d q(2) qc] by metis
next
  case False
  then have c: "backend p = ''cpu''" "boundary p = ''gpu-origin''" "q = COMPARATOR" using nested_cuda [OF q(1)] by auto
  let ?pol = "if policy p = ''pinned'' then ''pinned'' else ''pageable''"
  have eq: "mk_path ''cpu'' (boundary CPU_GPU_ORIGIN) ?pol = p"
    using c p(2) by (cases p) (auto simp: transfer_path_def path_simps)
  have hd: "hd (nested_paths p) = COMPARATOR" using c by (simp add: nested_paths_def path_simps)
  have "p \<noteq> AVX2_COMPARATOR" using c by (auto simp: path_simps)
  then have ni: "\<not> cpu_inversion paths t ?pol" using n c(1) by (auto simp: path_inversion_def Let_def split: if_splits)
  have lab: "path_label p \<in> set (map path_label paths)" using p(1) by simp
  obtain sp sq where s: "stats_get t (path_label p) = Some sp" "stats_get t (path_label COMPARATOR) = Some sq"
    and less: "\<not> median_less sp sq"
    using ni lab unfolding cpu_inversion_def Let_def eq hd by (auto split: option.splits)
  have "case_median sp \<noteq> None \<and> case_median sq \<noteq> None"
    using nm lab s eq hd unfolding median_missing_def Let_def
    by (cases "policy p = ''pinned''") auto
  then show ?thesis using s less c(3) by (auto simp: table_median_def median_less_def)
qed

lemma stats_get_table:
  assumes "distinct (map path_label paths)" "length cases = length paths" "i < length paths"
  shows "stats_get (rev (zip (map path_label paths) cases)) (path_label (paths ! i)) = cases ! i"
proof -
  have "distinct (map fst (zip (map path_label paths) cases))" using assms(1,2) by simp
  then have "map_of (rev (zip (map path_label paths) cases)) (path_label (paths ! i)) = Some (cases ! i)"
    using assms by (subst map_of_eq_Some_iff) (auto simp: rev_map [symmetric] in_set_zip intro!: exI [of _ i])
  then show ?thesis by (simp add: stats_get_def)
qed

lemma annotate_claims:
  assumes "annotate np paths t p = Some ann" "support ann = Claims cl"
  obtains s b l where "stats_get t (path_label p) = Some s" "baseline_label p = Some l" "stats_get t l = Some b"
    "p \<noteq> COMPARATOR" "p \<noteq> AVX2_COMPARATOR" "base ann = l" "vs_cpu ann = compare_speedup np b s"
    "inversion ann = path_inversion paths t p"
    "cl = claim_support (verdict (compare_speedup np b s)) (path_inversion paths t p) b s"
  using assms by (auto simp: annotate_def comparator_annotation_def Let_def split: option.splits if_splits)

lemma annotate_supported:
  assumes "stats_get t (path_label p) = Some s" "p \<noteq> COMPARATOR" "p \<noteq> AVX2_COMPARATOR"
    and "baseline_label p = Some l" "stats_get t l = Some b"
  shows "\<exists>ann. annotate np paths t p = Some ann \<and> support ann
    = Claims (claim_support (verdict (compare_speedup np b s)) (path_inversion paths t p) b s)"
  using assms by (simp add: annotate_def Let_def)

lemma claim_support_direction:
  "direction_supported (claim_support v i b c) \<longleftrightarrow> v \<noteq> Inconclusive \<and> \<not> i"
  by (simp add: claim_support_def Let_def)

lemma decide_not_comparator: "verdict (compare_speedup np b c) \<noteq> ComparatorVerdict"
  by (simp add: compare_verdict decide_verdict_def)

lemma nested_label_key: "set (nested_paths p) \<subseteq> {q. backend q \<in> {''cpu'', ''cuda''}}"
  by (auto simp: nested_paths_def path_simps)

lemma selected_transfer_paths:
  assumes "build_paths backends boundaries policies = Inr paths" "p \<in> set paths" "nested_paths p \<noteq> []"
  shows "transfer_path p"
proof -
  have "list_all (\<lambda>p. nested_paths p = [] \<or> transfer_path p) ALL_PATHS" by code_simp
  then show ?thesis using selections_known [OF build_paths_selections [OF assms(1)] assms(2)] assms(3) by (auto simp: list_all_iff)
qed

lemma stats_get_Some_index:
  assumes "stats_get (rev (zip (map path_label paths) cases)) l = Some b" "length cases = length paths"
  obtains k where "k < length paths" "path_label (paths ! k) = l" "cases ! k = Some b"
proof -
  have "(l, Some b) \<in> set (zip (map path_label paths) cases)"
    using assms(1) map_of_SomeD [of "rev (zip (map path_label paths) cases)" l "Some b"]
    by (auto simp: stats_get_def split: option.splits)
  then show ?thesis using that assms(2) by (auto simp: in_set_zip)
qed

lemma compare_group_Inr:
  assumes "compare_case_group np cases paths = Inr res"
  shows "length cases = length paths" "\<not> median_missing paths (rev (zip (map path_label paths) cases))"
    "res = map (\<lambda>p. (annotate np paths (rev (zip (map path_label paths) cases)) p,
                    resident_comparison np paths (rev (zip (map path_label paths) cases)) p)) paths"
  using assms by (auto simp: compare_case_group_def Let_def split: if_splits)

lemma table_median_case:
  assumes "distinct (map path_label paths)" "length cases = length paths" "k < length paths"
  shows "table_median (rev (zip (map path_label paths) cases)) (paths ! k) = Option.bind (cases ! k) case_median"
  unfolding table_median_def stats_get_table [OF assms] by (cases "cases ! k") simp_all

subsection \<open>Properties\<close>

text \<open>
  C9: A direction claim rests on evidence. When \<open>compare_case_group\<close> supports the direction of a
  path of a selected path set, the path is measured against its policy-matched baseline in the
  group, the verdict is faster or slower, and the path is not measured as faster than any
  selected path whose work it contains; a magnitude claim also has both sides stable.
\<close>

theorem claims_need_evidence:
  assumes "build_paths backends boundaries policies = Inr paths"
    and "compare_case_group np cases paths = Inr res" and "i < length paths"
    and "fst (res ! i) = Some ann" "support ann = Claims cl" "direction_supported cl"
  shows "\<exists>s b k. cases ! i = Some s \<and> k < length paths \<and> cases ! k = Some b
    \<and> Some (path_label (paths ! k)) = baseline_label (paths ! i) \<and> base ann = path_label (paths ! k)
    \<and> vs_cpu ann = compare_speedup np b s \<and> verdict (vs_cpu ann) \<in> {Faster, Slower}
    \<and> (magnitude_supported cl \<longrightarrow> stable b \<and> stable s)
    \<and> (\<forall>q < length paths. paths ! q \<in> set (nested_paths (paths ! i)) \<longrightarrow>
         (\<exists>m n. Option.bind (cases ! i) case_median = Some m \<and> Option.bind (cases ! q) case_median = Some n
            \<and> \<not> m < n))"
proof -
  let ?t = "rev (zip (map path_label paths) cases)" and ?p = "paths ! i"
  note g = compare_group_Inr [OF assms(2)]
  have d: "distinct (map path_label paths)" using build_paths_closed_labels [OF assms(1)] .
  have "annotate np paths ?t ?p = Some ann" using assms(3,4) by (simp add: g(3))
  then obtain s b l where a: "stats_get ?t (path_label ?p) = Some s" "baseline_label ?p = Some l" "stats_get ?t l = Some b"
    "base ann = l" "vs_cpu ann = compare_speedup np b s"
    "cl = claim_support (verdict (compare_speedup np b s)) (path_inversion paths ?t ?p) b s"
    using annotate_claims [OF _ assms(5)] by metis
  have s: "cases ! i = Some s" using a(1) stats_get_table [OF d g(1) assms(3)] by simp
  obtain k where k: "k < length paths" "path_label (paths ! k) = l" "cases ! k = Some b"
    using stats_get_Some_index [OF a(3) g(1)] .
  have dir: "verdict (compare_speedup np b s) \<noteq> Inconclusive" "\<not> path_inversion paths ?t ?p"
    using assms(6) by (simp_all add: a(6) claim_support_direction)
  have ver: "verdict (vs_cpu ann) \<in> {Faster, Slower}"
    using dir(1) decide_not_comparator [of np b s] by (cases "verdict (compare_speedup np b s)") (simp_all add: a(5))
  have mag: "magnitude_supported cl \<longrightarrow> stable b \<and> stable s" by (simp add: a(6) claim_support_def Let_def)
  have nest: "\<exists>m n. Option.bind (cases ! i) case_median = Some m \<and> Option.bind (cases ! q) case_median = Some n \<and> \<not> m < n"
    if q: "q < length paths" "paths ! q \<in> set (nested_paths ?p)" for q
  proof -
    have pin: "?p \<in> set paths" and qin: "paths ! q \<in> set paths" using assms(3) q(1) by simp_all
    have "nested_paths ?p \<noteq> []" using q(2) by auto
    then have tp: "transfer_path ?p" using selected_transfer_paths [OF assms(1) pin] by simp
    show ?thesis
      using not_inverted_nested [OF d pin tp q(2) qin dir(2) g(2)]
      by (simp add: table_median_case [OF d g(1) assms(3)] table_median_case [OF d g(1) q(1)])
  qed
  show ?thesis using s k a(2,4,5) ver mag nest by auto
qed

definition example_ops :: numpy_ops where
  "example_ops = \<lparr>np_median = (\<lambda>xs. if xs = [] then FNaN else if hd xs = FFin False 3 then FFin False 3 else FFin False 2),
     np_percentile = (\<lambda>xs q. FFin False 2), np_mean = hd, np_std = hd, np_draws = (\<lambda>s r m n. ([], []))\<rparr>"

definition example_case :: "nat \<Rightarrow> case_stats" where
  "example_case n = projr (compute_case_statistics example_ops [[fp_of_nat n]])"

lemma example_case_fields:
  "trial_medians_ms (example_case 3) = [FFin False 3]" "trial_medians_ms (example_case 2) = [FFin False 2]"
  "trial_median_min_ms (example_case 3) = FFin False 3" "trial_median_max_ms (example_case 2) = FFin False 2"
  "trial_median_min_ms (example_case 2) = FFin False 2" "trial_median_max_ms (example_case 3) = FFin False 3"
  "case_median (example_case 3) = Some (FFin False 3)" "case_median (example_case 2) = Some (FFin False 2)"
  by (simp_all add: example_case_def compute_case_statistics_def Let_def py_min_def py_max_def
      case_median_def compute_statistics_def example_ops_def fp_of_nat_def)

lemma usable_examples: "usable_value (FFin False 3)" "usable_value (FFin False 2)"
  by (simp_all add: usable_value_def fp_finite_def less_eq_fp_def fp_zero_def fp_eq_def fp_num_def)

lemma example_faster: "verdict (compare_speedup np (example_case 3) (example_case 2)) = Faster"
proof -
  have "all_usable (example_case 3) (example_case 2)"
    by (simp add: all_usable_def example_case_fields usable_examples)
  moreover have "fp_of_nat 1 < fp_div binary64 (FFin False 3) (FFin False 2)"
    using one_less_quotient(1) [of "FFin False 3" 3 "FFin False 2" 2] r64.grid_nat [of 3] r64.grid_nat [of 2] by simp
  ultimately show ?thesis by (simp add: compare_verdict decide_verdict_def example_case_fields)
qed

theorem claims_need_evidence_witness:
  "\<exists>res ann. compare_case_group example_ops (map (Some \<circ> example_case) [3, 2, 2, 2])
       [COMPARATOR, CUDA_RESIDENT, CUDA_RESIDENT_GRAPH, CUDA_HOST_ORIGIN] = Inr res
     \<and> fst (res ! 3) = Some ann \<and> verdict (vs_cpu ann) \<in> {Faster, Slower} \<and> base ann = path_label COMPARATOR"
proof -
  let ?ps = "[COMPARATOR, CUDA_RESIDENT, CUDA_RESIDENT_GRAPH, CUDA_HOST_ORIGIN]"
  let ?cs = "map (Some \<circ> example_case) [3, 2, 2, 2]"
  let ?t = "rev (zip (map path_label ?ps) ?cs)"
  have b: "build_paths [''cuda''] [] [''pageable''] = Inr ?ps" by code_simp
  note d = build_paths_closed_labels [OF b]
  have get: "stats_get ?t (path_label COMPARATOR) = Some (example_case 3)"
    "stats_get ?t (path_label CUDA_HOST_ORIGIN) = Some (example_case 2)"
    using stats_get_table [OF d, of ?cs 0] stats_get_table [OF d, of ?cs 3] by simp_all
  have "\<not> median_missing ?ps ?t" and inv: "\<not> path_inversion ?ps ?t CUDA_HOST_ORIGIN" by code_simp+
  then obtain res where res: "compare_case_group example_ops ?cs ?ps = Inr res"
    by (simp add: compare_case_group_def Let_def)
  have l: "baseline_label CUDA_HOST_ORIGIN = Some (path_label COMPARATOR)"
    "CUDA_HOST_ORIGIN \<noteq> COMPARATOR" "CUDA_HOST_ORIGIN \<noteq> AVX2_COMPARATOR"
    by (simp_all add: baseline_label_def baseline_def path_simps)
  obtain ann cl where ann: "annotate example_ops ?ps ?t CUDA_HOST_ORIGIN = Some ann" "support ann = Claims cl"
    "cl = claim_support (verdict (compare_speedup example_ops (example_case 3) (example_case 2)))
            (path_inversion ?ps ?t CUDA_HOST_ORIGIN) (example_case 3) (example_case 2)"
    using annotate_supported [OF get(2) l(2,3,1) get(1), of example_ops ?ps] by blast
  have "fst (res ! 3) = Some ann" using compare_group_Inr(3) [OF res] ann(1) by simp
  moreover have "direction_supported cl" using inv by (simp add: ann(3) example_faster claim_support_direction)
  moreover have "(3::nat) < length ?ps" by simp
  ultimately show ?thesis
    using claims_need_evidence [OF b res, of 3 ann cl] ann(2) res l(1) by auto
qed

text \<open>
  C10: The verdict is exact although it divides floats: for two cases with usable statistics it is
  "faster" exactly when every baseline trial median is above every candidate trial median,
  "slower" exactly when every one is below, and inconclusive otherwise or when a value is not
  usable.
\<close>

theorem verdict_exact:
  assumes "\<And>xs. fp_ok binary64 (np_median np xs)"
    and "compute_case_statistics np ts = Inr b" "compute_case_statistics np us = Inr c"
  shows "verdict (compare_speedup np b c) =
    (if \<not> all_usable b c then Inconclusive
     else if \<forall>x \<in> set (trial_medians_ms b). \<forall>y \<in> set (trial_medians_ms c). y < x then Faster
     else if \<forall>x \<in> set (trial_medians_ms b). \<forall>y \<in> set (trial_medians_ms c). x < y then Slower
     else Inconclusive)"
proof (cases "all_usable b c")
  case True
  show ?thesis
    using verdict_ranges [OF assms(2,3,1) True] decide_not_comparator [of np b c] True
    by (cases "verdict (compare_speedup np b c)") simp_all
qed (simp add: compare_verdict)

lemma example_median_ok: "fp_ok binary64 (np_median example_ops xs)"
  using r64.grid_nat [of 2] r64.grid_nat [of 3]
  by (simp add: example_ops_def fp_ok_def maxfin_def)

theorem verdict_exact_witness:
  "\<exists>b c. compute_case_statistics example_ops [[FFin False 3], [FFin False 3]] = Inr b
     \<and> compute_case_statistics example_ops [[FFin False 2]] = Inr c
     \<and> verdict (compare_speedup example_ops b c) = Faster"
proof -
  let ?np = example_ops and ?t = "[[FFin False 3], [FFin False 3]]" and ?u = "[[FFin False 2]]"
  obtain b where b: "compute_case_statistics ?np ?t = Inr b"
    by (simp add: compute_case_statistics_def Let_def py_min_def py_max_def)
  obtain c where c: "compute_case_statistics ?np ?u = Inr c"
    by (simp add: compute_case_statistics_def Let_def py_min_def py_max_def)
  note v = usable_examples
  have m: "trial_medians_ms b = [FFin False 3, FFin False 3]" "trial_medians_ms c = [FFin False 2]"
    using case_statistics_trials(1) [OF b] case_statistics_trials(1) [OF c] by (simp_all add: example_ops_def)
  have "all_usable b c"
    using b c v by (auto simp: all_usable_def compute_case_statistics_def Let_def py_min_def py_max_def
        case_median_def compute_statistics_def example_ops_def)
  then have "verdict (compare_speedup ?np b c) = Faster"
    using verdict_exact [OF example_median_ok b c] m by simp
  then show ?thesis using b c by blast
qed

text \<open>
  The two directions of a comparison agree: a candidate is faster than its baseline exactly
  when the baseline, taken as the candidate, is slower.
\<close>

theorem verdict_antisymmetric:
  assumes "\<And>xs. fp_ok binary64 (np_median np xs)"
    and "compute_case_statistics np ts = Inr b" "compute_case_statistics np us = Inr c"
  shows "verdict (compare_speedup np b c) = Faster \<longleftrightarrow> verdict (compare_speedup np c b) = Slower"
proof (cases "all_usable b c")
  case True
  then have "all_usable c b" by (auto simp: all_usable_def)
  then show ?thesis
    using verdict_ranges(1) [OF assms(2,3,1) True] verdict_ranges(2) [OF assms(3,2,1)] by blast
next
  case False
  then have "\<not> all_usable c b" by (auto simp: all_usable_def)
  then show ?thesis using False by (simp add: compare_verdict)
qed

theorem verdict_antisymmetric_witness:
  "\<exists>b c. compute_case_statistics example_ops [[FFin False 3]] = Inr b
     \<and> compute_case_statistics example_ops [[FFin False 2]] = Inr c
     \<and> (verdict (compare_speedup example_ops b c) = Faster \<longleftrightarrow> verdict (compare_speedup example_ops c b) = Slower)"
proof -
  let ?np = example_ops and ?t = "[[FFin False 3]]" and ?u = "[[FFin False 2]]"
  obtain b where b: "compute_case_statistics ?np ?t = Inr b"
    by (simp add: compute_case_statistics_def Let_def py_min_def py_max_def)
  obtain c where c: "compute_case_statistics ?np ?u = Inr c"
    by (simp add: compute_case_statistics_def Let_def py_min_def py_max_def)
  show ?thesis using verdict_antisymmetric [OF example_median_ok b c] b c by blast
qed

end
