(* ===== verification/Json.thy ===== *)
theory Json
  imports Ieee754
begin

text \<open>
  JSON values as the program sees them after \<open>json.loads\<close>: Python's integers, floats, strings,
  lists and dictionaries, with the lookups, the type tests and the timing check that the
  components share. A dictionary is the list of its items in insertion order, with distinct
  keys.
\<close>

datatype json =
    JNull
  | JBool bool
  | JInt int
  | JFloat fp
  | JStr string
  | JList "json list"
  | JObj "(string \<times> json) list"

text \<open>\<open>d.get(key)\<close> and \<open>key in d\<close> for a dictionary given by its items.\<close>

definition has_key :: "(string \<times> json) list \<Rightarrow> string \<Rightarrow> bool" where
  "has_key items k = (map_of items k \<noteq> None)"

definition get_field :: "(string \<times> json) list \<Rightarrow> string \<Rightarrow> json" where
  "get_field items k = (case map_of items k of None \<Rightarrow> JNull | Some v \<Rightarrow> v)"

text \<open>\<open>type(v) is int\<close>, and \<open>isinstance(v, (int, float))\<close> with booleans excluded.\<close>

definition is_int :: "json \<Rightarrow> bool" where
  "is_int v = (case v of JInt z \<Rightarrow> True | _ \<Rightarrow> False)"

definition is_number :: "json \<Rightarrow> bool" where
  "is_number v = (case v of JInt z \<Rightarrow> True | JFloat x \<Rightarrow> True | _ \<Rightarrow> False)"

definition is_str :: "json \<Rightarrow> bool" where
  "is_str v = (case v of JStr s \<Rightarrow> True | _ \<Rightarrow> False)"

definition is_list :: "json \<Rightarrow> bool" where
  "is_list v = (case v of JList xs \<Rightarrow> True | _ \<Rightarrow> False)"

lemma json_tests [simp]:
  "is_int v \<longleftrightarrow> (\<exists>z. v = JInt z)" "is_str v \<longleftrightarrow> (\<exists>s. v = JStr s)" "is_list v \<longleftrightarrow> (\<exists>xs. v = JList xs)"
  "is_number v \<longleftrightarrow> (\<exists>z. v = JInt z) \<or> (\<exists>x. v = JFloat x)"
  by (auto simp: is_int_def is_str_def is_list_def is_number_def split: json.splits)

lemma has_key_get: "has_key items k \<Longrightarrow> map_of items k = Some (get_field items k)"
  by (auto simp: has_key_def get_field_def split: option.splits)

text \<open>\<open>d[key] = v\<close> and \<open>d.setdefault(key, v)\<close>: a new key goes last, an old one keeps its place.\<close>

fun dict_set :: "('k \<times> 'v) list \<Rightarrow> 'k \<Rightarrow> 'v \<Rightarrow> ('k \<times> 'v) list" where
  "dict_set [] k v = [(k, v)]"
| "dict_set ((k', v') # items) k v = (if k' = k then (k, v) # items else (k', v') # dict_set items k v)"

definition dict_setdefault :: "('k \<times> 'v) list \<Rightarrow> 'k \<Rightarrow> 'v \<Rightarrow> ('k \<times> 'v) list" where
  "dict_setdefault items k v = (if map_of items k = None then dict_set items k v else items)"

definition dict_update :: "('k \<times> 'v) list \<Rightarrow> ('k \<times> 'v) list \<Rightarrow> ('k \<times> 'v) list" where
  "dict_update items new = foldl (\<lambda>d (k, v). dict_set d k v) items new"

lemma map_of_dict_set [simp]: "map_of (dict_set items k v) k' = (if k' = k then Some v else map_of items k')"
  by (induction items k v rule: dict_set.induct) auto

lemma map_of_dict_setdefault [simp]:
  "map_of (dict_setdefault items k v) k' =
     (if k' = k then Some (case map_of items k of None \<Rightarrow> v | Some w \<Rightarrow> w) else map_of items k')"
  by (auto simp: dict_setdefault_def split: option.splits)

lemma get_dict_set [simp]: "get_field (dict_set items k v) k' = (if k' = k then v else get_field items k')"
  by (simp add: get_field_def)

lemma dict_set_keys: "set (map fst (dict_set items k v)) = insert k (set (map fst items))"
  by (induction items k v rule: dict_set.induct) auto

lemma dict_set_distinct: "distinct (map fst items) \<Longrightarrow> distinct (map fst (dict_set items k v))"
proof (induction items k v rule: dict_set.induct)
  case (2 k' v' items k v)
  then show ?case using dict_set_keys [of items k v] by (cases "k' = k") auto
qed simp

text \<open>A measured value read as a float.\<close>

definition sample_value :: "json \<Rightarrow> fp" where
  "sample_value v = (case v of JInt z \<Rightarrow> fp_of_rat binary64 False (of_int z) | JFloat x \<Rightarrow> x | _ \<Rightarrow> FNaN)"

subsection \<open>Integers in strings\<close>

text \<open>
  Python's \<open>int(s)\<close> on ASCII text: surrounding white space, an optional sign, and digits that
  single underscores may separate.
\<close>

definition is_space :: "char \<Rightarrow> bool" where
  "is_space c \<longleftrightarrow> of_char c \<in> {9, 10, 11, 12, 13, 28, 29, 30, 31, 32 :: nat}"

definition strip :: "string \<Rightarrow> string" where
  "strip s = rev (dropWhile is_space (rev (dropWhile is_space s)))"

definition digit_value :: "char \<Rightarrow> nat option" where
  "digit_value c = (let n = of_char c in if 48 \<le> n \<and> n \<le> (57::nat) then Some (n - 48) else None)"

fun digits_value :: "nat \<Rightarrow> bool \<Rightarrow> string \<Rightarrow> nat option" where
  "digits_value acc after_digit [] = (if after_digit then Some acc else None)"
| "digits_value acc after_digit (c # cs) =
     (case digit_value c of
        Some d \<Rightarrow> digits_value (10 * acc + d) True cs
      | None \<Rightarrow> if c = CHR ''_'' \<and> after_digit then digits_value acc False cs else None)"

definition py_int :: "string \<Rightarrow> int option" where
  "py_int s =
     (case strip s of
        [] \<Rightarrow> None
      | c # cs \<Rightarrow>
          if c = CHR ''-'' then map_option (\<lambda>n. - int n) (digits_value 0 False cs)
          else if c = CHR ''+'' then map_option int (digits_value 0 False cs)
          else map_option int (digits_value 0 False (c # cs)))"

lemma digits_value_append:
  "digits_value acc True (s @ [c]) = (case digits_value acc True s of None \<Rightarrow> None
     | Some n \<Rightarrow> digits_value n True [c])" if "list_all (\<lambda>c. digit_value c \<noteq> None) s"
  using that by (induction s arbitrary: acc) auto

lemma digit_value_digit: "d < 10 \<Longrightarrow> digit_value (char_of (48 + d)) = Some d"
  by (simp add: digit_value_def)

lemma str_nat_digits: "list_all (\<lambda>c. digit_value c \<noteq> None) (str_nat n)"
  by (induction n rule: str_nat.induct) (subst str_nat.simps, simp add: digit_value_digit)

lemma digits_value_start:
  "s \<noteq> [] \<Longrightarrow> list_all (\<lambda>c. digit_value c \<noteq> None) s \<Longrightarrow> digits_value acc b s = digits_value acc True s"
  by (cases s) auto

lemma str_nat_nonempty [simp]: "str_nat n \<noteq> []"
  by (subst str_nat.simps) simp

lemma digits_value_str_nat: "digits_value 0 True (str_nat n) = Some n"
proof (induction n rule: str_nat.induct)
  case (1 n)
  show ?case
  proof (cases "n < 10")
    case True
    then show ?thesis by (subst str_nat.simps) (simp add: digit_value_digit)
  next
    case False
    have "digits_value 0 True (str_nat n) = digits_value 0 True (str_nat (n div 10) @ [char_of (48 + n mod 10)])"
      using False by (subst str_nat.simps) simp
    also have "\<dots> = digits_value (n div 10) True [char_of (48 + n mod 10)]"
      using 1 [OF False] by (simp only: digits_value_append [OF str_nat_digits] option.case)
    finally show ?thesis by (simp add: digit_value_digit)
  qed
qed

lemma strip_no_space: "list_all (\<lambda>c. \<not> is_space c) s \<Longrightarrow> strip s = s"
proof -
  have d: "dropWhile is_space t = t" if "list_all (\<lambda>c. \<not> is_space c) t" for t
    using that by (cases t) auto
  assume "list_all (\<lambda>c. \<not> is_space c) s"
  then show ?thesis using d [of s] d [of "rev s"] by (simp add: strip_def list_all_iff)
qed

lemma digit_no_space: "digit_value c \<noteq> None \<Longrightarrow> \<not> is_space c"
  by (auto simp: digit_value_def is_space_def Let_def split: if_splits)

lemma str_nat_no_space: "list_all (\<lambda>c. \<not> is_space c) (str_nat n)"
  using str_nat_digits [of n] digit_no_space by (auto simp: list_all_iff)

text \<open>Parsing a printed integer gives it back.\<close>

lemma py_int_str_int: "py_int (str_int z) = Some z"
proof (cases "z < 0")
  case True
  have "list_all (\<lambda>c. \<not> is_space c) (CHR ''-'' # str_nat (nat (- z)))"
    using str_nat_no_space by (simp add: is_space_def)
  then have "strip (CHR ''-'' # str_nat (nat (- z))) = CHR ''-'' # str_nat (nat (- z))" by (rule strip_no_space)
  moreover have "digits_value 0 False (str_nat (nat (- z))) = Some (nat (- z))"
    using digits_value_start [OF str_nat_nonempty str_nat_digits, of 0 False] digits_value_str_nat by simp
  ultimately show ?thesis using True by (simp add: py_int_def str_int_def)
next
  case False
  obtain c cs where s: "str_nat (nat z) = c # cs" using str_nat_nonempty by (cases "str_nat (nat z)") auto
  have "digit_value c \<noteq> None" using str_nat_digits [of "nat z"] by (simp add: s)
  then have "c \<noteq> CHR ''-''" "c \<noteq> CHR ''+''" by (auto simp: digit_value_def)
  moreover have "strip (c # cs) = c # cs" using strip_no_space [OF str_nat_no_space [of "nat z"]] by (simp add: s)
  moreover have "digits_value 0 False (c # cs) = Some (nat z)"
    using digits_value_start [OF str_nat_nonempty str_nat_digits, of 0 False "nat z"] digits_value_str_nat [of "nat z"]
    by (simp add: s)
  ultimately show ?thesis using False by (simp add: py_int_def str_int_def s)
qed

end
