(* ===== verification/Runner.thy ===== *)
theory Runner
  imports Design Json
begin

text \<open>
  The bench process of \<open>src/stoquant/runner.py\<close>: the command line, the validation of the native
  response against the requested run, the process execution with its error paths and the two
  warm-up computations. Starting a process and parsing its output with \<open>json.loads\<close> are
  arguments: a process is a function from its state and the command line to an outcome.
\<close>

subsection \<open>Command lines\<close>

definition k1_args :: "string \<Rightarrow> string \<Rightarrow> string list" where
  "k1_args be k1 = (if be = ''cuda'' then [''--k1'', k1] else [])"

definition compress_args ::
  "string \<Rightarrow> string \<Rightarrow> string \<Rightarrow> int \<Rightarrow> int \<Rightarrow> int \<Rightarrow> int \<Rightarrow> string \<Rightarrow> string \<Rightarrow> string list" where
  "compress_args binary input_path output seed bits tensor_id invocation_id be k1 =
     [binary, ''compress'', ''--input'', input_path, ''--output'', output, ''--seed'', str_int seed,
      ''--bits'', str_int bits, ''--tensor-id'', str_int tensor_id, ''--invocation-id'', str_int invocation_id,
      ''--backend'', be] @ k1_args be k1"

text \<open>The keyword arguments of one requested bench run.\<close>

record bench_request =
  rq_count :: nat
  rq_bits :: nat
  rq_backend :: string
  rq_extra :: "string list"
  rq_seed :: int
  rq_warmups :: nat
  rq_reps :: nat
  rq_k1 :: string

definition bench_command :: "string \<Rightarrow> string \<Rightarrow> bench_request \<Rightarrow> string list" where
  "bench_command binary input_path r =
     [binary, ''bench'', ''--input'', input_path, ''--seed'', str_int (rq_seed r), ''--bits'', str_nat (rq_bits r),
      ''--tensor-id'', ''0'', ''--invocation-id'', ''0'', ''--backend'', rq_backend r]
     @ k1_args (rq_backend r) (rq_k1 r)
     @ [''--warmup'', str_nat (rq_warmups r), ''--reps'', str_nat (rq_reps r)] @ rq_extra r"

subsection \<open>Response errors\<close>

text \<open>
  One constructor per \<open>BenchResponseError\<close> of the module, with the values its message shows;
  \<open>BadInteger\<close> is the plain \<open>ValueError\<close> of \<open>int()\<close>, which no handler catches.
\<close>

datatype bench_error =
    OptionWithoutValue string
  | UnsupportedBackend string
  | UnsupportedPolicy string
  | PolicyWithoutBoundary string
  | MissingField string
  | NotAnArray string
  | WrongSampleCount string nat nat
  | SampleNotNumber string nat
  | SampleNotFinite string nat
  | MissingConfiguration string
  | ConfigurationMismatch string json json
  | UnsupportedPair string string
  | ConfigurationNotObject
  | K1OnNonCuda
  | ThreadsOnNonAvx2
  | ThreadsNotPositive
  | UnexpectedStages "string list"
  | CaptureMissing
  | CaptureNotNumber
  | CaptureNotFinite
  | CaptureOutsideGraph
  | BadInteger string

subsection \<open>The expected configuration\<close>

text \<open>\<open>_option_value\<close>: the last \<open>--option value\<close> or \<open>--option=value\<close> wins.\<close>

fun option_scan :: "string \<Rightarrow> string option \<Rightarrow> string list \<Rightarrow> (bench_error, string option) result" where
  "option_scan opt v [] = Inr v"
| "option_scan opt v (arg # rest) =
     (if arg = opt then
        (case rest of
           [] \<Rightarrow> Inl (OptionWithoutValue opt)
         | x # rest' \<Rightarrow> option_scan opt (Some x) rest')
      else if starts_with (opt @ ''='') arg
           then option_scan opt (Some (drop (length opt + 1) arg)) rest
      else option_scan opt v rest)"

definition option_value :: "string list \<Rightarrow> string \<Rightarrow> string option \<Rightarrow> (bench_error, string option) result" where
  "option_value extra opt d = option_scan opt d extra"

definition default_boundary :: "string \<Rightarrow> string option" where
  "default_boundary b =
     (if b = ''cpu'' \<or> b = ''cpu-avx2'' then Some ''host-host''
      else if b = ''cuda'' then Some (boundary CUDA_RESIDENT) else None)"

text \<open>\<open>x or y\<close> on an optional string: the empty string counts as missing.\<close>

definition or_else :: "string option \<Rightarrow> string \<Rightarrow> string" where
  "or_else v d = (case v of None \<Rightarrow> d | Some s \<Rightarrow> if s = [] then d else s)"

definition int_option :: "string list \<Rightarrow> string \<Rightarrow> string \<Rightarrow> (bench_error, int) result" where
  "int_option extra opt d =
     bindE (option_value extra opt (Some d)) (\<lambda>v.
       case py_int (or_else v d) of None \<Rightarrow> Inl (BadInteger (or_else v d)) | Some z \<Rightarrow> Inr z)"

text \<open>The echoed items, in the order of the dictionary.\<close>

definition expected_items :: "bench_request \<Rightarrow> string \<Rightarrow> string \<Rightarrow> int \<Rightarrow> int \<Rightarrow> (string \<times> json) list" where
  "expected_items r bd pol block_size grid_size =
     (let step = (if bd = ''resident-graph'' then 0 else 1) in
      [(''backend'', JStr (rq_backend r)), (''bits'', JInt (int (rq_bits r))),
       (''count'', JInt (int (rq_count r))), (''seed'', JInt (rq_seed r)),
       (''tensor_id'', JInt 0), (''invocation_id'', JInt 0),
       (''warmup'', JInt (int (rq_warmups r))), (''reps'', JInt (int (rq_reps r))),
       (''repetition_invocation_ids'', JList (map (\<lambda>i. JInt (int (i * step))) [0..<rq_reps r])),
       (''warmup_invocation_ids'', JList (map (\<lambda>i. JInt (int ((rq_reps r + i) * step))) [0..<rq_warmups r])),
       (''boundary'', JStr bd), (''transfer_policy'', JStr pol),
       (''block_size'', JInt block_size), (''grid_size'', JInt grid_size),
       (''prescribed_scale'', JNull)]
      @ (if rq_backend r = ''cuda'' then [(''k1'', JStr (rq_k1 r))] else []))"

text \<open>
  The \<open>threads\<close> entry is absent unless the backend is \<open>cpu-avx2\<close>, and then unconstrained when no
  thread count was requested.
\<close>

definition expected_threads :: "bench_request \<Rightarrow> (bench_error, int option option) result" where
  "expected_threads r =
     (if rq_backend r \<noteq> ''cpu-avx2'' then Inr None
      else bindE (option_value (rq_extra r) ''--threads'' None) (\<lambda>t.
        case t of None \<Rightarrow> Inr (Some None)
        | Some s \<Rightarrow> (case py_int s of None \<Rightarrow> Inl (BadInteger s) | Some z \<Rightarrow> Inr (Some (Some z)))))"

record expectation =
  ex_boundary :: string
  ex_items :: "(string \<times> json) list"
  ex_threads :: "int option option"

definition expectation_for :: "bench_request \<Rightarrow> string \<Rightarrow> string \<Rightarrow> (bench_error, expectation) result" where
  "expectation_for r bd pol =
     bindE (int_option (rq_extra r) ''--block-size'' ''256'') (\<lambda>block_size.
     bindE (int_option (rq_extra r) ''--grid-size'' ''0'') (\<lambda>grid_size.
     bindE (expected_threads r) (\<lambda>threads.
       Inr \<lparr>ex_boundary = bd, ex_items = expected_items r bd pol block_size grid_size, ex_threads = threads\<rparr>)))"

definition requested_policy :: "string \<Rightarrow> string option \<Rightarrow> (bench_error, string) result" where
  "requested_policy bd po =
     (let transfers = (bd = ''host-origin'' \<or> bd = ''gpu-origin'');
          pol = or_else po (if transfers then ''pageable'' else ''none'')
      in if pol \<notin> {''none'', ''pageable'', ''pinned''} then Inl (UnsupportedPolicy pol)
         else if (\<not> transfers \<and> pol \<noteq> ''none'') \<or> (transfers \<and> pol = ''none'')
         then Inl (PolicyWithoutBoundary pol)
         else Inr pol)"

definition expected_configuration :: "bench_request \<Rightarrow> (bench_error, expectation) result" where
  "expected_configuration r =
     (case default_boundary (rq_backend r) of
        None \<Rightarrow> Inl (UnsupportedBackend (rq_backend r))
      | Some d \<Rightarrow>
          bindE (option_value (rq_extra r) ''--boundary'' (Some d)) (\<lambda>bo.
          bindE (option_value (rq_extra r) ''--transfer-policy'' None) (\<lambda>po.
            let bd = (case bo of None \<Rightarrow> d | Some b \<Rightarrow> b) in
            bindE (requested_policy bd po) (\<lambda>pol. expectation_for r bd pol))))"

subsection \<open>Validation\<close>

definition valid_timing :: "json \<Rightarrow> bool" where
  "valid_timing v = (case v of
       JInt z \<Rightarrow> \<not> z < 0
     | JFloat x \<Rightarrow> \<not> x < fp_zero \<and> fp_finite x
     | _ \<Rightarrow> False)"

fun check_samples :: "string \<Rightarrow> nat \<Rightarrow> json list \<Rightarrow> (bench_error, unit) result" where
  "check_samples f i [] = Inr ()"
| "check_samples f i (v # vs) =
     (if \<not> is_number v then Inl (SampleNotNumber f i)
      else if \<not> valid_timing v then Inl (SampleNotFinite f i)
      else check_samples f (Suc i) vs)"

definition finite_nonnegative_samples :: "(string \<times> json) list \<Rightarrow> string \<Rightarrow> nat \<Rightarrow> (bench_error, json list) result" where
  "finite_nonnegative_samples payload f cnt =
     (if \<not> has_key payload f then Inl (MissingField f)
      else case get_field payload f of
        JList samples \<Rightarrow>
          if length samples \<noteq> cnt then Inl (WrongSampleCount f (length samples) cnt)
          else bindE (check_samples f 0 samples) (\<lambda>_. Inr samples)
      | _ \<Rightarrow> Inl (NotAnArray f))"

definition valid_echo_type :: "string \<Rightarrow> json \<Rightarrow> bool" where
  "valid_echo_type f actual =
     (if f \<in> {''backend'', ''boundary'', ''transfer_policy'', ''k1''} then is_str actual
      else if f \<in> {''repetition_invocation_ids'', ''warmup_invocation_ids''}
           then (case actual of JList xs \<Rightarrow> list_all is_int xs | _ \<Rightarrow> False)
      else if f = ''prescribed_scale'' then actual = JNull
      else is_int actual)"

definition validate_echoed_value :: "(string \<times> json) list \<Rightarrow> string \<times> json \<Rightarrow> (bench_error, unit) result" where
  "validate_echoed_value configuration item =
     (let f = fst item; expected = snd item in
      if \<not> has_key configuration f then Inl (MissingConfiguration f)
      else let actual = get_field configuration f in
        if \<not> valid_echo_type f actual \<or> actual \<noteq> expected then Inl (ConfigurationMismatch f actual expected)
        else Inr ())"

definition required_stages :: "string \<Rightarrow> string \<Rightarrow> (bench_error, string list) result" where
  "required_stages b bd =
     (if b = ''cuda'' \<and> bd = ''resident-graph'' then Inr []
      else if b = ''cuda'' \<and> bd = ''host-origin'' then Inr [''k1_ms'', ''k2_ms'', ''k3_ms'', ''h2d_ms'', ''d2h_ms'']
      else if b = ''cuda'' \<and> bd = ''gpu-origin'' then Inr [''k1_ms'', ''k2_ms'', ''k3_ms'', ''d2h_ms'']
      else if b = ''cuda'' \<and> bd = ''resident'' then Inr [''k1_ms'', ''k2_ms'', ''k3_ms'']
      else if b = ''cpu'' \<and> bd = ''gpu-origin'' then Inr [''d2h_ms'', ''cpu_ms'']
      else if b = ''cpu'' \<and> bd = ''host-host'' then Inr []
      else if b = ''cpu-avx2'' \<and> bd = ''host-host'' then Inr []
      else Inl (UnsupportedPair b bd))"

definition bench_stage_keys :: "string list" where
  "bench_stage_keys = [''k1_ms'', ''k2_ms'', ''k3_ms'', ''h2d_ms'', ''d2h_ms'', ''cpu_ms'']"

record validated_response =
  vr_payload :: "(string \<times> json) list"
  vr_configuration :: "(string \<times> json) list"
  vr_samples :: "json list"
  vr_stages :: "(string \<times> json list) list"
  vr_capture :: json

definition check_capture :: "(string \<times> json) list \<Rightarrow> string \<Rightarrow> (bench_error, unit) result" where
  "check_capture payload bd =
     (let f = ''capture_and_instantiate_ms''; capture = get_field payload f in
      if bd = ''resident-graph'' then
        if \<not> has_key payload f then Inl CaptureMissing
        else if \<not> is_number capture then Inl CaptureNotNumber
        else if \<not> valid_timing capture then Inl CaptureNotFinite
        else Inr ()
      else if has_key payload f then Inl CaptureOutsideGraph
      else Inr ())"

definition check_threads :: "(string \<times> json) list \<Rightarrow> int option option \<Rightarrow> (bench_error, unit) result" where
  "check_threads configuration threads =
     (case threads of
        None \<Rightarrow> Inr ()
      | Some (Some z) \<Rightarrow> validate_echoed_value configuration (''threads'', JInt z)
      | Some None \<Rightarrow>
          (case map_of configuration ''threads'' of
             Some (JInt z) \<Rightarrow> if z \<le> 0 then Inl ThreadsNotPositive else Inr ()
           | _ \<Rightarrow> Inl ThreadsNotPositive))"

definition validate_bench_response ::
  "(string \<times> json) list \<Rightarrow> bench_request \<Rightarrow> (bench_error, validated_response) result" where
  "validate_bench_response payload r =
     bindE (expected_configuration r) (\<lambda>ex.
       case get_field payload ''configuration'' of
         JObj configuration \<Rightarrow>
           if rq_backend r \<noteq> ''cuda'' \<and> has_key configuration ''k1'' then Inl K1OnNonCuda
           else if rq_backend r \<noteq> ''cpu-avx2'' \<and> has_key configuration ''threads'' then Inl ThreadsOnNonAvx2
           else
             bindE (traverse (validate_echoed_value configuration) (ex_items ex)) (\<lambda>_.
             bindE (check_threads configuration (ex_threads ex)) (\<lambda>_.
             bindE (finite_nonnegative_samples payload ''samples_ms'' (rq_reps r)) (\<lambda>samples.
             bindE (required_stages (rq_backend r) (ex_boundary ex)) (\<lambda>stages.
             bindE (traverse (\<lambda>f. bindE (finite_nonnegative_samples payload f (rq_reps r)) (\<lambda>xs. Inr (f, xs))) stages)
              (\<lambda>stage_samples.
               let unexpected = filter (\<lambda>f. has_key payload f \<and> f \<notin> set stages) bench_stage_keys in
               if unexpected \<noteq> [] then Inl (UnexpectedStages unexpected)
               else bindE (check_capture payload (ex_boundary ex)) (\<lambda>_.
                 Inr \<lparr>vr_payload = payload, vr_configuration = configuration, vr_samples = samples,
                      vr_stages = stage_samples,
                      vr_capture = get_field payload ''capture_and_instantiate_ms''\<rparr>))))))
       | _ \<Rightarrow> Inl ConfigurationNotObject)"

subsection \<open>Running the process\<close>

datatype proc_outcome =
    Completed int string string
  | TimeoutExpired
  | StartFailed string
  | NoFakeResult "string list"

text \<open>\<open>FakeBenchProcess\<close>: recorded commands and the results still to be replayed.\<close>

record fake_bench =
  fake_results :: "proc_outcome list"
  fake_commands :: "string list list"

definition fake_run :: "fake_bench \<Rightarrow> string list \<Rightarrow> proc_outcome \<times> fake_bench" where
  "fake_run p argv =
     (let p = p\<lparr>fake_commands := fake_commands p @ [argv]\<rparr> in
      case fake_results p of
        [] \<Rightarrow> (NoFakeResult argv, p)
      | r # rs \<Rightarrow> (r, p\<lparr>fake_results := rs\<rparr>))"

text \<open>What \<open>run_bench_process\<close> returns as its error string, and what it raises.\<close>

datatype run_error =
    BenchTimedOut
  | BenchNotStarted string
  | BenchFailed string
  | BenchInvalidJson
  | BenchNonObject
  | BenchRejected bench_error

datatype run_exn = K1InExtraArgs | EscapedInteger string | NoFake "string list"

definition passes_k1 :: "string list \<Rightarrow> bool" where
  "passes_k1 extra \<longleftrightarrow> list_ex (\<lambda>arg. arg = ''--k1'' \<or> starts_with ''--k1='' arg) extra"

definition read_response ::
  "(string \<Rightarrow> json option) \<Rightarrow> bench_request \<Rightarrow> proc_outcome
     \<Rightarrow> (run_exn, validated_response option \<times> run_error option) result" where
  "read_response json_loads r outcome =
     (case outcome of
        TimeoutExpired \<Rightarrow> Inr (None, Some BenchTimedOut)
      | StartFailed exc \<Rightarrow> Inr (None, Some (BenchNotStarted exc))
      | NoFakeResult argv \<Rightarrow> Inl (NoFake argv)
      | Completed returncode out err \<Rightarrow>
          if returncode \<noteq> 0 then Inr (None, Some (BenchFailed (strip err)))
          else (case json_loads out of
              None \<Rightarrow> Inr (None, Some BenchInvalidJson)
            | Some (JObj payload) \<Rightarrow>
                (case validate_bench_response payload r of
                   Inr response \<Rightarrow> Inr (Some response, None)
                 | Inl (BadInteger s) \<Rightarrow> Inl (EscapedInteger s)
                 | Inl e \<Rightarrow> Inr (None, Some (BenchRejected e)))
            | Some _ \<Rightarrow> Inr (None, Some BenchNonObject)))"

definition run_bench_process ::
  "('p \<Rightarrow> string list \<Rightarrow> proc_outcome \<times> 'p) \<Rightarrow> (string \<Rightarrow> json option) \<Rightarrow> string \<Rightarrow> string \<Rightarrow> bench_request
     \<Rightarrow> 'p \<Rightarrow> (run_exn, validated_response option \<times> run_error option) result \<times> 'p" where
  "run_bench_process run json_loads binary input_path r p =
     (if passes_k1 (rq_extra r) then (Inl K1InExtraArgs, p)
      else let (outcome, p) = run p (bench_command binary input_path r)
           in (read_response json_loads r outcome, p))"

subsection \<open>Warm-up\<close>

definition DEFAULT_COMPRESSION_SEED :: int where "DEFAULT_COMPRESSION_SEED = 42"
definition GPU_WARMUP_REPS :: nat where "GPU_WARMUP_REPS = 100"

definition warmup_request :: "nat \<Rightarrow> string \<Rightarrow> bench_request" where
  "warmup_request cnt k1 =
     \<lparr>rq_count = cnt, rq_bits = 8, rq_backend = ''cuda'', rq_extra = [''--boundary'', boundary CUDA_RESIDENT],
      rq_seed = DEFAULT_COMPRESSION_SEED, rq_warmups = 0, rq_reps = GPU_WARMUP_REPS, rq_k1 = k1\<rparr>"

datatype warmup_exn = WarmupFailed "run_error option" | WarmupRaised run_exn

text \<open>
  The loop of \<open>warm_up_gpu\<close>. \<open>clock i\<close> is the \<open>i\<close>-th reading of \<open>time.monotonic\<close>, reading \<open>0\<close> being the start;
  fuel bounds the number of readings, and \<open>None\<close> means that it was not enough.
\<close>

fun warm_up_loop ::
  "nat \<Rightarrow> ('p \<Rightarrow> (run_exn, validated_response option \<times> run_error option) result \<times> 'p) \<Rightarrow> (nat \<Rightarrow> fp) \<Rightarrow> fp
     \<Rightarrow> nat \<Rightarrow> 'p \<Rightarrow> ((warmup_exn, nat) result \<times> 'p) option" where
  "warm_up_loop 0 bench clock seconds processes p = None"
| "warm_up_loop (Suc fuel) bench clock seconds processes p =
     (if fp_sub binary64 (clock (Suc processes)) (clock 0) < seconds then
        (case bench p of
           (Inl e, p) \<Rightarrow> Some (Inl (WarmupRaised e), p)
         | (Inr (None, err), p) \<Rightarrow> Some (Inl (WarmupFailed err), p)
         | (Inr (Some payload, err), p) \<Rightarrow> warm_up_loop fuel bench clock seconds (Suc processes) p)
      else Some (Inr processes, p))"

definition warm_up_gpu ::
  "nat \<Rightarrow> ('p \<Rightarrow> string list \<Rightarrow> proc_outcome \<times> 'p) \<Rightarrow> (string \<Rightarrow> json option) \<Rightarrow> (nat \<Rightarrow> fp) \<Rightarrow> string \<Rightarrow> string
     \<Rightarrow> fp \<Rightarrow> string \<Rightarrow> nat \<Rightarrow> 'p \<Rightarrow> ((warmup_exn, nat) result \<times> 'p) option" where
  "warm_up_gpu fuel run json_loads clock binary input_path seconds k1 cnt p =
     warm_up_loop fuel (run_bench_process run json_loads binary input_path (warmup_request cnt k1))
       clock seconds 0 p"

text \<open>\<open>math.ceil\<close> of a float raises on an infinity and on a NaN.\<close>

definition py_ceil :: "fp \<Rightarrow> (py_exn, int) result" where
  "py_ceil x = (case x of
       FFin s a \<Rightarrow> Inr \<lceil>fp_num x\<rceil>
     | FInf s \<Rightarrow> Inl (OverflowError ''cannot convert float infinity to integer'')
     | FNaN \<Rightarrow> Inl (ValueError ''cannot convert float NaN to integer''))"

definition in_process_warmups :: "int \<Rightarrow> fp \<Rightarrow> fp \<Rightarrow> (py_exn, int) result" where
  "in_process_warmups minimum seconds rep_ms =
     (if seconds \<le> fp_zero \<or> rep_ms \<le> fp_zero then Inr minimum
      else bindE (py_ceil (fp_div binary64 (fp_mul binary64 seconds (fp_of_nat 1000)) rep_ms))
             (\<lambda>n. Inr (max minimum n)))"

subsection \<open>Accepted responses\<close>

lemma check_samples_Inr [result_simps]:
  "check_samples f i vs = Inr u \<longleftrightarrow> (\<forall>v \<in> set vs. is_number v \<and> valid_timing v)"
  by (induction vs arbitrary: i) auto

lemma samples_Inr [result_simps]:
  "finite_nonnegative_samples payload f n = Inr xs \<longleftrightarrow>
     map_of payload f = Some (JList xs) \<and> length xs = n \<and> (\<forall>v \<in> set xs. is_number v \<and> valid_timing v)"
  by (cases "map_of payload f")
     (auto simp: finite_nonnegative_samples_def has_key_def get_field_def result_simps split: json.splits)

lemma echoed_Inr [result_simps]:
  "validate_echoed_value cfg item = Inr u \<longleftrightarrow>
     map_of cfg (fst item) = Some (snd item) \<and> valid_echo_type (fst item) (snd item)"
  by (cases "map_of cfg (fst item)") (auto simp: validate_echoed_value_def has_key_def get_field_def Let_def)

lemma traverse_unit: "traverse g xs = Inr us \<Longrightarrow> x \<in> set xs \<Longrightarrow> \<exists>u. g x = Inr u"
  by (induction xs arbitrary: us) (auto simp: result_simps)

lemma traverse_tagged:
  assumes "traverse (\<lambda>f. bindE (g f) (\<lambda>xs. Inr (f, xs))) fs = Inr ys"
  shows "map fst ys = fs \<and> (\<forall>(f, xs) \<in> set ys. g f = Inr xs)"
  using assms by (induction fs arbitrary: ys) (auto simp: result_simps)

lemma check_capture_Inr:
  "check_capture payload bd = Inr u \<Longrightarrow>
     has_key payload ''capture_and_instantiate_ms'' \<longleftrightarrow> bd = ''resident-graph''"
  by (auto simp: check_capture_def Let_def split: if_splits)

lemma stage_keys_bench: "required_stages b bd = Inr stages \<Longrightarrow> set stages \<subseteq> set bench_stage_keys"
  by (auto simp: required_stages_def bench_stage_keys_def split: if_splits)

lemma validate_parts:
  assumes "validate_bench_response payload r = Inr v"
  obtains ex cfg stages where "expected_configuration r = Inr ex"
    "map_of payload ''configuration'' = Some (JObj cfg)" "vr_configuration v = cfg"
    "\<forall>item \<in> set (ex_items ex). map_of cfg (fst item) = Some (snd item)"
    "map_of payload ''samples_ms'' = Some (JList (vr_samples v))" "length (vr_samples v) = rq_reps r"
    "\<forall>x \<in> set (vr_samples v). valid_timing x"
    "required_stages (rq_backend r) (ex_boundary ex) = Inr stages" "map fst (vr_stages v) = stages"
    "\<forall>(f, xs) \<in> set (vr_stages v). map_of payload f = Some (JList xs) \<and> length xs = rq_reps r \<and> (\<forall>x \<in> set xs. valid_timing x)"
    "\<forall>f \<in> set bench_stage_keys. has_key payload f \<longrightarrow> f \<in> set stages"
    "has_key payload ''capture_and_instantiate_ms'' \<longleftrightarrow> ex_boundary ex = ''resident-graph''"
    "rq_backend r \<noteq> ''cuda'' \<longrightarrow> \<not> has_key cfg ''k1''" "rq_backend r \<noteq> ''cpu-avx2'' \<longrightarrow> \<not> has_key cfg ''threads''"
    "check_threads cfg (ex_threads ex) = Inr ()"
proof -
  obtain ex where ex: "expected_configuration r = Inr ex"
    using assms by (auto simp: validate_bench_response_def bindE_eq_Inr)
  obtain cfg where cfg: "get_field payload ''configuration'' = JObj cfg"
    using assms ex by (auto simp: validate_bench_response_def split: json.splits)
  obtain us stages ys where
    e: "traverse (validate_echoed_value cfg) (ex_items ex) = Inr us" and
    t: "check_threads cfg (ex_threads ex) = Inr ()" and
    s: "finite_nonnegative_samples payload ''samples_ms'' (rq_reps r) = Inr (vr_samples v)" and
    rs: "required_stages (rq_backend r) (ex_boundary ex) = Inr stages" and
    ys: "traverse (\<lambda>f. bindE (finite_nonnegative_samples payload f (rq_reps r)) (\<lambda>xs. Inr (f, xs))) stages = Inr ys" and
    un: "filter (\<lambda>f. has_key payload f \<and> f \<notin> set stages) bench_stage_keys = []" and
    ca: "check_capture payload (ex_boundary ex) = Inr ()" and
    v: "vr_configuration v = cfg" "vr_stages v = ys" and
    k: "rq_backend r \<noteq> ''cuda'' \<longrightarrow> \<not> has_key cfg ''k1''" "rq_backend r \<noteq> ''cpu-avx2'' \<longrightarrow> \<not> has_key cfg ''threads''"
    using assms unfolding validate_bench_response_def ex cfg
    by (auto simp: bindE_eq_Inr Let_def simp del: filter_empty_conv split: if_splits)
  have m: "map_of payload ''configuration'' = Some (JObj cfg)"
    using cfg by (auto simp: get_field_def split: option.splits)
  show ?thesis
  proof (rule that [OF ex m v(1) _ _ _ _ rs])
    show "\<forall>item \<in> set (ex_items ex). map_of cfg (fst item) = Some (snd item)"
      using traverse_unit [OF e] by (auto simp: echoed_Inr)
    show "map fst (vr_stages v) = stages" "\<forall>(f, xs) \<in> set (vr_stages v).
        map_of payload f = Some (JList xs) \<and> length xs = rq_reps r \<and> (\<forall>x \<in> set xs. valid_timing x)"
      using traverse_tagged [OF ys] v(2) by (auto simp: samples_Inr)
    show "\<forall>f \<in> set bench_stage_keys. has_key payload f \<longrightarrow> f \<in> set stages"
      using un by (simp add: filter_empty_conv)
  qed (use s t k check_capture_Inr [OF ca] in \<open>auto simp: samples_Inr\<close>)
qed

lemma expected_configuration_items:
  assumes "expected_configuration r = Inr ex"
  shows "\<exists>pol bs gs. ex_items ex = expected_items r (ex_boundary ex) pol bs gs"
proof -
  obtain d where d: "default_boundary (rq_backend r) = Some d"
    using assms by (cases "default_boundary (rq_backend r)") (simp_all add: expected_configuration_def)
  obtain bd pol where "expectation_for r bd pol = Inr ex"
    using assms unfolding expected_configuration_def d option.case bindE_eq_Inr Let_def
    by blast
  then show ?thesis unfolding expectation_for_def bindE_eq_Inr by force
qed

text \<open>The invocation ids the expected configuration lists.\<close>

lemma expected_ids:
  assumes "expected_configuration r = Inr ex"
  defines "step \<equiv> if ex_boundary ex = ''resident-graph'' then 0 else 1"
  shows "(''repetition_invocation_ids'', JList (map (\<lambda>i. JInt (int (i * step))) [0..<rq_reps r])) \<in> set (ex_items ex)"
    and "(''warmup_invocation_ids'', JList (map (\<lambda>i. JInt (int ((rq_reps r + i) * step))) [0..<rq_warmups r])) \<in> set (ex_items ex)"
    and "(''backend'', JStr (rq_backend r)) \<in> set (ex_items ex)" "(''bits'', JInt (int (rq_bits r))) \<in> set (ex_items ex)"
    and "(''count'', JInt (int (rq_count r))) \<in> set (ex_items ex)" "(''seed'', JInt (rq_seed r)) \<in> set (ex_items ex)"
    and "(''reps'', JInt (int (rq_reps r))) \<in> set (ex_items ex)" "(''warmup'', JInt (int (rq_warmups r))) \<in> set (ex_items ex)"
    and "(''boundary'', JStr (ex_boundary ex)) \<in> set (ex_items ex)"
    and "rq_backend r = ''cuda'' \<Longrightarrow> (''k1'', JStr (rq_k1 r)) \<in> set (ex_items ex)"
proof -
  obtain pol bs gs where items: "ex_items ex = expected_items r (ex_boundary ex) pol bs gs"
    using expected_configuration_items [OF assms(1)] by blast
  show "(''repetition_invocation_ids'', JList (map (\<lambda>i. JInt (int (i * step))) [0..<rq_reps r])) \<in> set (ex_items ex)"
    and "(''warmup_invocation_ids'', JList (map (\<lambda>i. JInt (int ((rq_reps r + i) * step))) [0..<rq_warmups r])) \<in> set (ex_items ex)"
    and "(''backend'', JStr (rq_backend r)) \<in> set (ex_items ex)" "(''bits'', JInt (int (rq_bits r))) \<in> set (ex_items ex)"
    and "(''count'', JInt (int (rq_count r))) \<in> set (ex_items ex)" "(''seed'', JInt (rq_seed r)) \<in> set (ex_items ex)"
    and "(''reps'', JInt (int (rq_reps r))) \<in> set (ex_items ex)" "(''warmup'', JInt (int (rq_warmups r))) \<in> set (ex_items ex)"
    and "(''boundary'', JStr (ex_boundary ex)) \<in> set (ex_items ex)"
    and "rq_backend r = ''cuda'' \<Longrightarrow> (''k1'', JStr (rq_k1 r)) \<in> set (ex_items ex)"
    unfolding items expected_items_def Let_def assms(2) by simp_all
qed

subsection \<open>The process interface\<close>

text \<open>
  What the callers rely on: \<open>run\<close> executes the command it is given and nothing else, here that it
  adds exactly that command to the record of commands.
\<close>

locale bench_process =
  fixes run :: "'p \<Rightarrow> string list \<Rightarrow> proc_outcome \<times> 'p"
    and commands :: "'p \<Rightarrow> string list list"
  assumes commands_run: "commands (snd (run p argv)) = commands p @ [argv]"
begin

lemma bench_commands:
  "commands (snd (run_bench_process run json_loads binary input_path r p))
     = commands p @ (if passes_k1 (rq_extra r) then [] else [bench_command binary input_path r])"
  using commands_run by (simp add: run_bench_process_def split: prod.split) (metis snd_conv)

lemma loop_commands:
  assumes "warm_up_loop fuel (run_bench_process run json_loads binary input_path r) clock seconds m p = Some (Inr n, p')"
    and "\<not> passes_k1 (rq_extra r)"
  shows "m \<le> n \<and> commands p' = commands p @ replicate (n - m) (bench_command binary input_path r)
    \<and> \<not> fp_sub binary64 (clock (Suc n)) (clock 0) < seconds
    \<and> (\<forall>k. m \<le> k \<and> k < n \<longrightarrow> fp_sub binary64 (clock (Suc k)) (clock 0) < seconds)"
  using assms(1)
proof (induction fuel arbitrary: m p)
  case (Suc fuel)
  show ?case
  proof (cases "fp_sub binary64 (clock (Suc m)) (clock 0) < seconds")
    case True
    obtain x q where b: "run_bench_process run json_loads binary input_path r p = (x, q)" by force
    then obtain v err where "x = Inr (Some v, err)" using Suc.prems True
      by (auto split: sum.splits option.splits prod.splits)
    then have "warm_up_loop fuel (run_bench_process run json_loads binary input_path r) clock seconds (Suc m) q
        = Some (Inr n, p')" using Suc.prems True b by simp
    note IH = Suc.IH [OF this]
    have "commands q = commands p @ [bench_command binary input_path r]"
      using bench_commands [of json_loads binary input_path r p] assms(2) b by simp
    then show ?thesis using IH True
      by (auto simp: Suc_diff_Suc [symmetric] simp del: replicate.simps)
         (metis Suc_diff_Suc Suc_le_lessD replicate_Suc append_Cons append_Nil append_assoc,
          metis le_eq_less_or_eq Suc_leI)
  qed (use Suc.prems in auto)
qed simp

end

interpretation fake: bench_process fake_run fake_commands
  by unfold_locales (simp add: fake_run_def Let_def split: list.split)

lemma read_response_one:
  "read_response json_loads r outcome = Inr (response, err) \<Longrightarrow> (response = None) \<noteq> (err = None)"
  by (auto simp: read_response_def split: proc_outcome.splits if_splits option.splits json.splits
      sum.splits bench_error.splits)

lemma read_response_accepted:
  "read_response json_loads r outcome = Inr (Some v, err) \<Longrightarrow>
     \<exists>out stderr payload. outcome = Completed 0 out stderr \<and> json_loads out = Some (JObj payload)
       \<and> validate_bench_response payload r = Inr v"
  by (auto simp: read_response_def split: proc_outcome.splits if_splits option.splits json.splits
      sum.splits bench_error.splits)

text \<open>The loop has returned once the clock has passed the limit within the fuel.\<close>

lemma warm_up_loop_returns:
  assumes "\<not> fp_sub binary64 (clock (m + fuel)) (clock 0) < seconds" "0 < fuel"
  shows "\<exists>res p'. warm_up_loop fuel bench clock seconds m p = Some (res, p')"
  using assms
proof (induction fuel arbitrary: m p)
  case (Suc fuel)
  show ?case
  proof (cases "fp_sub binary64 (clock (Suc m)) (clock 0) < seconds")
    case True
    then have "fuel \<noteq> 0" using Suc.prems(1) by (metis add_Suc_right add_0_right)
    then have "\<exists>res p'. warm_up_loop fuel bench clock seconds (Suc m) q = Some (res, p')" for q
      using Suc.IH [of "Suc m" q] Suc.prems(1) by simp
    then show ?thesis by (auto split: sum.splits option.splits prod.splits)
  qed simp
qed simp

lemma warmup_request_no_k1: "\<not> passes_k1 (rq_extra (warmup_request n k1))"
  by (simp add: warmup_request_def passes_k1_def starts_with_def path_simps)

subsection \<open>A concrete run\<close>

definition example_request :: bench_request where
  "example_request = \<lparr>rq_count = 16, rq_bits = 8, rq_backend = ''cuda'', rq_extra = [''--boundary'', ''resident''],
     rq_seed = 42, rq_warmups = 1, rq_reps = 2, rq_k1 = ''reference''\<rparr>"

definition example_payload :: "(string \<times> json) list" where
  "example_payload =
     [(''configuration'', JObj (expected_items example_request ''resident'' ''none'' 256 0)),
      (''samples_ms'', JList [JInt 1, JFloat (FFin False 2)]), (''k1_ms'', JList [JInt 1, JInt 1]),
      (''k2_ms'', JList [JInt 0, JInt 0]), (''k3_ms'', JList [JInt 0, JInt 1])]"

definition example_loads :: "string \<Rightarrow> json option" where
  "example_loads out = (if out = ''ok'' then Some (JObj example_payload) else None)"

lemma example_accepted: "\<not> isl (validate_bench_response example_payload example_request)"
  by code_simp

subsection \<open>Properties\<close>







text \<open>
  C18: The GPU warm-up returns: if the clock has advanced by the requested seconds at reading \<open>N\<close>,
  fuel \<open>N\<close> suffices. A warm-up that succeeds ran the resident workload exactly as many times
  as it reports, each time because the requested seconds had not yet passed, and stopped at the
  first reading at which they had.
\<close>

theorem gpu_warm_up_returns:
  assumes "\<not> fp_sub binary64 (clock N) (clock 0) < seconds" "0 < N"
  shows "\<exists>res p'. warm_up_gpu N fake_run json_loads clock binary input_path seconds k1 cnt p = Some (res, p')
    \<and> (\<forall>n. res = Inr n \<longrightarrow>
         fake_commands p' = fake_commands p
           @ replicate n (bench_command binary input_path (warmup_request cnt k1))
         \<and> \<not> fp_sub binary64 (clock (Suc n)) (clock 0) < seconds
         \<and> (\<forall>k < n. fp_sub binary64 (clock (Suc k)) (clock 0) < seconds))"
proof -
  obtain res p' where r: "warm_up_gpu N fake_run json_loads clock binary input_path seconds k1 cnt p = Some (res, p')"
    using warm_up_loop_returns [of clock 0 N seconds
        "run_bench_process fake_run json_loads binary input_path (warmup_request cnt k1)" p] assms
    by (auto simp: warm_up_gpu_def)
  have "fake_commands p' = fake_commands p @ replicate n (bench_command binary input_path (warmup_request cnt k1))
      \<and> \<not> fp_sub binary64 (clock (Suc n)) (clock 0) < seconds
      \<and> (\<forall>k < n. fp_sub binary64 (clock (Suc k)) (clock 0) < seconds)" if "res = Inr n" for n
    using fake.loop_commands [OF r [unfolded warm_up_gpu_def that] warmup_request_no_k1] by auto
  then show ?thesis using r by blast
qed

theorem gpu_warm_up_returns_witness:
  "\<exists>res p'. warm_up_gpu 3 fake_run example_loads fp_of_nat ''b'' ''x'' (FFin False 3) ''reference'' 16
      \<lparr>fake_results = [], fake_commands = []\<rparr> = Some (res, p')"
proof -
  have "fp_sub binary64 (fp_of_nat 3) (fp_of_nat 0) = FFin False 3"
    using r64.rnd_id [OF _ r64.grid_nat [of 3]]
    by (simp add: fp_sub_def fp_of_nat_def fp_neg_def fp_of_rat_def fp_num_def fp_round_def maxfin_def)
  then have "\<not> fp_sub binary64 (fp_of_nat 3) (fp_of_nat 0) < FFin False 3" by (simp add: less_fp_def)
  from gpu_warm_up_returns [where clock = fp_of_nat, OF this, of example_loads "''b''" "''x''" "''reference''" 16
      "\<lparr>fake_results = [], fake_commands = []\<rparr>"]
  show ?thesis by auto
qed



end
