(* ===== verification/Files.thy ===== *)
theory Files
  imports Json Codec
begin

text \<open>
  The part of a file system the program uses through \<open>pathlib\<close>: a finite tree of directories and
  files keyed by path, with existence tests, reading and writing, \<open>mkdir\<close>, \<open>rename\<close>, \<open>iterdir\<close>
  and \<open>rmtree\<close>. A file is a JSON document (what \<open>json.loads\<close> gives for its text), other text or
  bytes. The lemmas show that every operation keeps the tree well formed and says what it
  changes.
\<close>

type_synonym path = "string list"

datatype content = JsonDoc json | Text string | Bytes "byte list"

datatype node = Dir | File content

type_synonym fs = "(path \<times> node) list"

definition lookup :: "fs \<Rightarrow> path \<Rightarrow> node option" where
  "lookup fs p = map_of fs p"

definition path_exists :: "fs \<Rightarrow> path \<Rightarrow> bool" where
  "path_exists fs p = (lookup fs p \<noteq> None)"

definition is_dir :: "fs \<Rightarrow> path \<Rightarrow> bool" where
  "is_dir fs p = (lookup fs p = Some Dir)"

definition read_file :: "fs \<Rightarrow> path \<Rightarrow> content option" where
  "read_file fs p = (case lookup fs p of Some (File c) \<Rightarrow> Some c | _ \<Rightarrow> None)"

text \<open>\<open>json.loads(path.read_text())\<close>: nothing for an absent file or one that is not JSON.\<close>

definition read_json :: "fs \<Rightarrow> path \<Rightarrow> json option" where
  "read_json fs p = (case read_file fs p of Some (JsonDoc j) \<Rightarrow> Some j | _ \<Rightarrow> None)"

definition put :: "path \<Rightarrow> node \<Rightarrow> fs \<Rightarrow> fs" where
  "put p n fs = (p, n) # filter (\<lambda>e. fst e \<noteq> p) fs"

definition with_name :: "path \<Rightarrow> string \<Rightarrow> path" where
  "with_name p n = butlast p @ [n]"

text \<open>\<open>p\<close> lies in the tree at \<open>dir\<close>.\<close>

definition under :: "path \<Rightarrow> path \<Rightarrow> bool" where
  "under dir p = starts_with dir p"

definition remove_tree :: "path \<Rightarrow> fs \<Rightarrow> fs" where
  "remove_tree dir fs = filter (\<lambda>e. \<not> under dir (fst e)) fs"

definition moved :: "path \<Rightarrow> path \<Rightarrow> path \<Rightarrow> path" where
  "moved src dst p = (if under src p then dst @ drop (length src) p else p)"

definition rename_tree :: "path \<Rightarrow> path \<Rightarrow> fs \<Rightarrow> fs" where
  "rename_tree src dst fs = map (\<lambda>e. (moved src dst (fst e), snd e)) fs"

definition children :: "fs \<Rightarrow> path \<Rightarrow> path list" where
  "children fs d = filter (\<lambda>p. p \<noteq> [] \<and> butlast p = d) (map fst fs)"

text \<open>\<open>mkdir(parents=True, exist_ok=True)\<close>.\<close>

fun mkdirs :: "path list \<Rightarrow> fs \<Rightarrow> (py_exn, fs) result" where
  "mkdirs [] fs = Inr fs"
| "mkdirs (p # ps) fs =
     (case lookup fs p of
        None \<Rightarrow> mkdirs ps (put p Dir fs)
      | Some Dir \<Rightarrow> mkdirs ps fs
      | Some (File c) \<Rightarrow> Inl (FileExistsError (join ''/'' p)))"

definition ancestors :: "path \<Rightarrow> path list" where
  "ancestors p = map (\<lambda>k. take (Suc k) p) [0..<length p]"

definition mkdir_parents :: "path \<Rightarrow> fs \<Rightarrow> (py_exn, fs) result" where
  "mkdir_parents p fs = mkdirs (ancestors p) fs"

definition mkdir :: "path \<Rightarrow> fs \<Rightarrow> (py_exn, fs) result" where
  "mkdir p fs =
     (if path_exists fs p then Inl (FileExistsError (join ''/'' p))
      else if 1 < length p \<and> \<not> is_dir fs (butlast p) then Inl (FileNotFoundError (join ''/'' p))
      else Inr (put p Dir fs))"

definition write_file :: "path \<Rightarrow> content \<Rightarrow> fs \<Rightarrow> (py_exn, fs) result" where
  "write_file p c fs =
     (if 1 < length p \<and> \<not> is_dir fs (butlast p) then Inl (FileNotFoundError (join ''/'' p))
      else if is_dir fs p then Inl (OSError (join ''/'' p))
      else Inr (put p (File c) fs))"

subsection \<open>Well-formed trees\<close>

definition wf_fs :: "fs \<Rightarrow> bool" where
  "wf_fs fs \<longleftrightarrow> distinct (map fst fs) \<and> [] \<notin> fst ` set fs
     \<and> (\<forall>p \<in> fst ` set fs. 1 < length p \<longrightarrow> lookup fs (butlast p) = Some Dir)"

lemma wf_nil [simp]: "wf_fs []"
  by (simp add: wf_fs_def)

lemma lookup_put [simp]: "lookup (put p n fs) q = (if q = p then Some n else lookup fs q)"
proof -
  have "map_of (filter (\<lambda>e. fst e \<noteq> p) fs) q = map_of fs q" if "q \<noteq> p"
    using that by (induction fs) auto
  then show ?thesis by (simp add: lookup_def put_def)
qed

lemma lookup_in: "lookup fs p = Some n \<Longrightarrow> p \<in> fst ` set fs"
  unfolding lookup_def by (force dest: map_of_SomeD)

lemma in_lookup: "p \<in> fst ` set fs \<Longrightarrow> \<exists>n. lookup fs p = Some n"
  unfolding lookup_def by (metis image_eqI list.set_map map_of_eq_None_iff not_None_eq)

lemma put_keys: "fst ` set (put p n fs) = insert p (fst ` set fs)"
  by (auto simp: put_def)

lemma wf_put:
  assumes "wf_fs fs" "p \<noteq> []" "1 < length p \<Longrightarrow> lookup fs (butlast p) = Some Dir"
    and "lookup fs p = Some Dir \<Longrightarrow> n = Dir"
  shows "wf_fs (put p n fs)"
proof -
  have d: "distinct (map fst (put p n fs))"
    using assms(1) by (auto simp: wf_fs_def put_def distinct_map_filter)
  have par: "lookup (put p n fs) (butlast q) = Some Dir" if "q \<in> fst ` set (put p n fs)" "1 < length q" for q
  proof (cases "q = p")
    case True
    then have "butlast q \<noteq> p" using that(2) by (metis length_butlast less_not_refl diff_less zero_less_one less_trans)
    then show ?thesis using assms(3) that(2) True by simp
  next
    case False
    then have "q \<in> fst ` set fs" using that(1) by (simp add: put_keys)
    then have "lookup fs (butlast q) = Some Dir" using assms(1) that(2) by (auto simp: wf_fs_def)
    then show ?thesis using assms(4) by auto
  qed
  show ?thesis using d par assms(1,2) by (auto simp: wf_fs_def put_keys)
qed

lemma under_refl [simp]: "under p p" and under_append [simp]: "under p (p @ q)"
  by (simp_all add: under_def starts_with_def)

lemma under_butlast: "under dir (butlast p) \<Longrightarrow> p \<noteq> [] \<Longrightarrow> under dir p"
  by (auto simp: under_def starts_with_def) (metis append_butlast_last_id append_assoc append_take_drop_id append_eq_conv_conj)

text \<open>In a well-formed tree nothing lies under a path that does not exist.\<close>

lemma wf_under:
  assumes "wf_fs fs" "p \<in> fst ` set fs" "under dir p" "dir \<noteq> []"
  shows "dir \<in> fst ` set fs"
  using assms(2,3)
proof (induction "length p" arbitrary: p)
  case 0
  then show ?case using assms(1) by (auto simp: wf_fs_def)
next
  case (Suc k)
  show ?case
  proof (cases "p = dir")
    case False
    have pre: "take (length dir) p = dir" using Suc.prems(2) by (simp add: under_def starts_with_def)
    then have len: "length dir < length p"
      using False by (metis nat_less_le take_all length_take min.absorb_iff2 not_le order_refl min_def)
    then have one: "1 < length p" using assms(4) by (cases dir) auto
    then have "lookup fs (butlast p) = Some Dir" using assms(1) Suc.prems(1) by (auto simp: wf_fs_def)
    then have "butlast p \<in> fst ` set fs" by (rule lookup_in)
    moreover have "under dir (butlast p)"
      using pre len by (simp add: under_def starts_with_def take_butlast)
    moreover have "k = length (butlast p)" using Suc.hyps(2) by simp
    ultimately show ?thesis using Suc.hyps(1) by blast
  qed (use Suc.prems in simp)
qed

subsection \<open>Moving a tree\<close>

lemma moved_inj:
  assumes "\<not> under dst p" "\<not> under dst q" "moved src dst p = moved src dst q"
  shows "p = q"
proof -
  have pre: "under dst (dst @ x)" for x by simp
  show ?thesis
  proof (cases "under src p"; cases "under src q")
    assume u: "under src p" "under src q"
    then have "drop (length src) p = drop (length src) q" using assms(3) by (simp add: moved_def)
    then show ?thesis using u by (metis under_def starts_with_def append_take_drop_id)
  next
    assume "under src p" "\<not> under src q"
    then show ?thesis using assms(2,3) pre [of "drop (length src) p"] by (simp add: moved_def)
  next
    assume "\<not> under src p" "under src q"
    then show ?thesis using assms(1,3) pre [of "drop (length src) q"] by (simp add: moved_def)
  next
    assume "\<not> under src p" "\<not> under src q"
    then show ?thesis using assms(3) by (simp add: moved_def)
  qed
qed

lemma rename_lookup:
  assumes "distinct (map fst fs)" "\<forall>p \<in> fst ` set fs. \<not> under dst p"
  shows "lookup fs p = Some n \<Longrightarrow> lookup (rename_tree src dst fs) (moved src dst p) = Some n"
    and "lookup (rename_tree src dst fs) q = Some n \<Longrightarrow> \<exists>p. q = moved src dst p \<and> lookup fs p = Some n"
proof -
  have keys: "map fst (rename_tree src dst fs) = map (moved src dst) (map fst fs)"
    by (simp add: rename_tree_def)
  have "inj_on (moved src dst) (set (map fst fs))"
  proof (rule inj_onI)
    fix p q assume "p \<in> set (map fst fs)" "q \<in> set (map fst fs)" "moved src dst p = moved src dst q"
    then have "\<not> under dst p" "\<not> under dst q" "moved src dst p = moved src dst q" using assms(2) by auto
    then show "p = q" by (rule moved_inj)
  qed
  then have d: "distinct (map fst (rename_tree src dst fs))"
    unfolding keys by (subst distinct_map) (use assms(1) in simp)
  show "lookup (rename_tree src dst fs) (moved src dst p) = Some n" if "lookup fs p = Some n"
  proof -
    have "(p, n) \<in> set fs" using that by (simp add: lookup_def map_of_SomeD)
    then have "(moved src dst p, n) \<in> set (rename_tree src dst fs)"
      unfolding rename_tree_def by (force intro: image_eqI [of _ _ "(p, n)"])
    then show ?thesis unfolding lookup_def using d by (rule map_of_is_SomeI [rotated])
  qed
  show "\<exists>p. q = moved src dst p \<and> lookup fs p = Some n" if "lookup (rename_tree src dst fs) q = Some n"
  proof -
    have "(q, n) \<in> set (rename_tree src dst fs)" using that by (simp add: lookup_def map_of_SomeD)
    then obtain p where p: "(p, n) \<in> set fs" "q = moved src dst p" by (auto simp: rename_tree_def)
    have "lookup fs p = Some n" unfolding lookup_def by (rule map_of_is_SomeI [OF assms(1) p(1)])
    then show ?thesis using p(2) by blast
  qed
qed

lemma under_longer: "under src p \<Longrightarrow> length src \<le> length p"
  by (auto simp: under_def starts_with_def) (metis length_take min.cobounded1)

lemma under_split: "under src p \<Longrightarrow> \<exists>r. p = src @ r"
  by (metis append_take_drop_id under_def starts_with_def)

lemma wf_rename:
  assumes wf: "wf_fs fs" and src: "src \<in> fst ` set fs" and dst: "dst \<notin> fst ` set fs" "dst \<noteq> []"
    and sib: "butlast dst = butlast src" "length dst = length src"
  shows "wf_fs (rename_tree src dst fs)"
proof -
  have nu: "\<forall>p \<in> fst ` set fs. \<not> under dst p" using wf_under [OF wf] dst by blast
  note rl = rename_lookup [OF _ nu, where src = src]
  have d: "distinct (map fst fs)" and par: "\<And>p. p \<in> fst ` set fs \<Longrightarrow> 1 < length p \<Longrightarrow> lookup fs (butlast p) = Some Dir"
    using wf by (auto simp: wf_fs_def)
  have src0: "src \<noteq> []" using wf src unfolding wf_fs_def by metis
  have keys: "map fst (rename_tree src dst fs) = map (moved src dst) (map fst fs)" by (simp add: rename_tree_def)
  have "inj_on (moved src dst) (set (map fst fs))"
  proof (rule inj_onI)
    fix p q assume "p \<in> set (map fst fs)" "q \<in> set (map fst fs)" "moved src dst p = moved src dst q"
    then have "\<not> under dst p" "\<not> under dst q" "moved src dst p = moved src dst q" using nu by auto
    then show "p = q" by (rule moved_inj)
  qed
  then have d': "distinct (map fst (rename_tree src dst fs))" unfolding keys by (subst distinct_map) (use d in simp)
  have ne: "moved src dst p \<noteq> []" if "p \<in> fst ` set fs" for p
  proof -
    have "p \<noteq> []" using that wf unfolding wf_fs_def by metis
    then show ?thesis using dst(2) by (simp add: moved_def)
  qed
  have par': "lookup (rename_tree src dst fs) (butlast (moved src dst p)) = Some Dir"
    if p: "p \<in> fst ` set fs" "1 < length (moved src dst p)" for p
  proof (cases "under src p")
    case True
    then obtain r where r: "p = src @ r" using under_split by blast
    show ?thesis
    proof (cases "r = []")
      case True
      then have q: "moved src dst p = dst" using r by (simp add: moved_def)
      have "lookup fs (butlast src) = Some Dir" using par [OF src] p(2) q sib(2) by simp
      then have "lookup (rename_tree src dst fs) (moved src dst (butlast src)) = Some Dir" by (rule rl(1) [OF d])
      moreover have "\<not> under src (butlast src)"
        using under_longer [of src "butlast src"] src0 by (cases src) auto
      ultimately show ?thesis using q sib(1) by (simp add: moved_def)
    next
      case False
      then have "lookup fs (butlast p) = Some Dir" using par [OF p(1)] r src0 by (cases src; cases r) auto
      then have "lookup (rename_tree src dst fs) (moved src dst (butlast p)) = Some Dir" by (rule rl(1) [OF d])
      then show ?thesis using r False by (simp add: moved_def butlast_append)
    qed
  next
    case False
    then have q: "moved src dst p = p" by (simp add: moved_def)
    then have "lookup fs (butlast p) = Some Dir" using par [OF p(1)] p(2) by simp
    then have "lookup (rename_tree src dst fs) (moved src dst (butlast p)) = Some Dir" by (rule rl(1) [OF d])
    moreover have "\<not> under src (butlast p)" using False under_butlast p(2) q by (metis list.size(3) not_less_zero)
    ultimately show ?thesis using q by (simp add: moved_def)
  qed
  have keyset: "fst ` set (rename_tree src dst fs) = moved src dst ` (fst ` set fs)"
    by (simp add: rename_tree_def image_image)
  have "[] \<notin> moved src dst ` (fst ` set fs)"
  proof
    assume "[] \<in> moved src dst ` (fst ` set fs)"
    then obtain p where "[] = moved src dst p" "p \<in> fst ` set fs" by (rule imageE)
    then show False using ne by force
  qed
  moreover have "\<forall>q \<in> moved src dst ` (fst ` set fs). 1 < length q \<longrightarrow> lookup (rename_tree src dst fs) (butlast q) = Some Dir"
  proof (intro ballI impI)
    fix q assume "q \<in> moved src dst ` (fst ` set fs)" "1 < length q"
    from this(1) obtain p where "q = moved src dst p" "p \<in> fst ` set fs" by (rule imageE)
    then show "lookup (rename_tree src dst fs) (butlast q) = Some Dir" using par' \<open>1 < length q\<close> by blast
  qed
  ultimately show ?thesis unfolding wf_fs_def keyset using d' by blast
qed

text \<open>Creating directories adds entries and changes none.\<close>

lemma mkdirs_keeps: "mkdirs ps fs = Inr fs' \<Longrightarrow> lookup fs p = Some n \<Longrightarrow> lookup fs' p = Some n"
proof (induction ps fs rule: mkdirs.induct)
  case (2 q ps fs)
  show ?case
  proof (cases "lookup fs q")
    case None
    then have "q \<noteq> p" using 2 by auto
    then show ?thesis using 2 None by simp
  next
    case (Some n')
    then show ?thesis using 2 by (cases n') auto
  qed
qed simp

lemma mkdir_parents_keeps: "mkdir_parents d fs = Inr fs' \<Longrightarrow> lookup fs p = Some n \<Longrightarrow> lookup fs' p = Some n"
  unfolding mkdir_parents_def by (rule mkdirs_keeps)

lemma mkdir_keeps: "mkdir d fs = Inr fs' \<Longrightarrow> lookup fs p = Some n \<Longrightarrow> lookup fs' p = Some n"
  by (auto simp: mkdir_def path_exists_def split: if_splits)

lemma mkdirs_wf:
  assumes "mkdirs (map (\<lambda>k. take (Suc k) p) [i..<length p]) fs = Inr fs'" "wf_fs fs"
    and "0 < i \<Longrightarrow> lookup fs (take i p) = Some Dir" "i \<le> length p"
  shows "wf_fs fs'"
  using assms
proof (induction "length p - i" arbitrary: i fs)
  case (Suc k)
  then have i: "i < length p" by simp
  let ?q = "take (Suc i) p"
  have q: "?q \<noteq> []" "butlast ?q = take i p" "length ?q = Suc i" using i by (auto simp: butlast_take)
  have un: "map (\<lambda>k. take (Suc k) p) [i..<length p] = ?q # map (\<lambda>k. take (Suc k) p) [Suc i..<length p]"
    using i by (simp add: upt_conv_Cons)
  obtain fs1 where s: "mkdirs (map (\<lambda>k. take (Suc k) p) [Suc i..<length p]) fs1 = Inr fs'"
    "fs1 = fs \<and> lookup fs ?q = Some Dir \<or> fs1 = put ?q Dir fs \<and> lookup fs ?q = None"
    using Suc.prems(1) unfolding un by (auto split: option.splits node.splits)
  have "wf_fs fs1 \<and> lookup fs1 ?q = Some Dir"
    using s(2) Suc.prems(2,3) q by (auto intro!: wf_put)
  then show ?case using Suc.hyps(1) [of "Suc i" fs1] s(1) Suc.hyps(2) i by simp
qed simp

lemma mkdir_parents_wf: "mkdir_parents p fs = Inr fs' \<Longrightarrow> wf_fs fs \<Longrightarrow> wf_fs fs'"
  using mkdirs_wf [of p 0 fs fs'] by (simp add: mkdir_parents_def ancestors_def)

lemma mkdir_wf: "mkdir p fs = Inr fs' \<Longrightarrow> wf_fs fs \<Longrightarrow> p \<noteq> [] \<Longrightarrow> wf_fs fs'"
  by (auto simp: mkdir_def is_dir_def split: if_splits intro!: wf_put)

lemma write_wf: "write_file p c fs = Inr fs' \<Longrightarrow> wf_fs fs \<Longrightarrow> p \<noteq> [] \<Longrightarrow> wf_fs fs'"
  by (auto simp: write_file_def is_dir_def split: if_splits intro!: wf_put)

lemma remove_tree_lookup: "lookup (remove_tree dir fs) p = (if under dir p then None else lookup fs p)"
  unfolding lookup_def remove_tree_def by (induction fs) auto

lemma remove_tree_keys: "fst ` set (remove_tree dir fs) = {p \<in> fst ` set fs. \<not> under dir p}"
  by (auto simp: remove_tree_def)

lemma wf_remove_tree:
  assumes "wf_fs fs"
  shows "wf_fs (remove_tree dir fs)"
proof -
  have d: "distinct (map fst (remove_tree dir fs))"
    using assms by (auto simp: wf_fs_def remove_tree_def distinct_map_filter)
  have "lookup (remove_tree dir fs) (butlast p) = Some Dir"
    if "p \<in> fst ` set (remove_tree dir fs)" "1 < length p" for p
  proof -
    have p: "p \<in> fst ` set fs" "\<not> under dir p" using that(1) by (simp_all add: remove_tree_keys)
    have "p \<noteq> []" using that(2) by auto
    then have "\<not> under dir (butlast p)" using p(2) under_butlast by blast
    moreover have "lookup fs (butlast p) = Some Dir" using assms p(1) that(2) unfolding wf_fs_def by blast
    ultimately show ?thesis by (simp add: remove_tree_lookup)
  qed
  then show ?thesis using d assms unfolding wf_fs_def remove_tree_keys by blast
qed

end
