(* ===== verification/Snapshot_Store.thy ===== *)
theory Snapshot_Store
  imports Files
begin

text \<open>
  The write-once snapshot lifecycle of \<open>src/stoquant/snapshot_store.py\<close>: naming, the two gates,
  reservation of a partial directory, commit, derived output, and the files a supervising
  notifier reads. The lemmas show what a commit changes and that a published snapshot is never
  replaced by any sequence of reservations and commits.
\<close>

subsection \<open>Names\<close>

text \<open>The two formatted stamps of the local time are arguments: \<open>%Y-%m-%d\<close> and \<open>%Y-%m-%dT%H%M%S\<close>.\<close>

definition snapshot_path :: "path \<Rightarrow> string \<Rightarrow> string \<Rightarrow> bool \<Rightarrow> string \<Rightarrow> string \<Rightarrow> path" where
  "snapshot_path dir revision kind pilot day second =
     (let suffix = (if kind = ''matrix'' \<or> kind = ''dense'' then [] else ''-'' @ kind) in
      if pilot then dir @ [''results'', ''pilots'', second @ ''-'' @ revision @ suffix]
      else dir @ [''results'', day @ ''-'' @ revision @ suffix])"

definition partial_path :: "path \<Rightarrow> path" where
  "partial_path target = with_name target (last target @ ''.partial'')"

subsection \<open>Snapshots\<close>

record snapshot =
  final :: path
  partial :: path
  committed :: bool

record git_state =
  git_dirty :: bool
  dirty_files :: "string list"

datatype snapshot_error =
    AlreadyCommitted
  | SnapshotExists path
  | PartialExists path
  | DirtyTree "string list"
  | StoreError py_exn

text \<open>\<open>Path.rename\<close> raises when its source is gone.\<close>

definition commit :: "snapshot \<Rightarrow> fs \<Rightarrow> (snapshot_error, snapshot \<times> fs) result" where
  "commit s fs =
     (if committed s then Inl AlreadyCommitted
      else if path_exists fs (final s) then Inl (SnapshotExists (final s))
      else if \<not> path_exists fs (partial s) then Inl (StoreError (FileNotFoundError (join ''/'' (partial s))))
      else Inr (s\<lparr>committed := True\<rparr>, rename_tree (partial s) (final s) fs))"

definition check_snapshot :: "path \<Rightarrow> git_state \<Rightarrow> bool \<Rightarrow> fs \<Rightarrow> (snapshot_error, unit) result" where
  "check_snapshot target git allow_dirty fs =
     (if git_dirty git \<and> \<not> allow_dirty then Inl (DirtyTree (dirty_files git))
      else if path_exists fs target then Inl (SnapshotExists target)
      else if path_exists fs (partial_path target) then Inl (PartialExists (partial_path target))
      else Inr ())"

definition lift_store :: "(py_exn, 'a) result \<Rightarrow> (snapshot_error, 'a) result" where
  "lift_store m = (case m of Inl e \<Rightarrow> Inl (StoreError e) | Inr x \<Rightarrow> Inr x)"

definition create_snapshot :: "path \<Rightarrow> git_state \<Rightarrow> bool \<Rightarrow> fs \<Rightarrow> (snapshot_error, snapshot \<times> fs) result" where
  "create_snapshot target git allow_dirty fs =
     bindE (check_snapshot target git allow_dirty fs) (\<lambda>_.
       let p = partial_path target in
       bindE (lift_store (mkdir_parents (butlast p) fs)) (\<lambda>fs.
       bindE (lift_store (mkdir p fs)) (\<lambda>fs.
         Inr (\<lparr>final = target, partial = p, committed = False\<rparr>, fs))))"

definition derived_directory :: "path \<Rightarrow> fs \<Rightarrow> (py_exn, path \<times> fs) result" where
  "derived_directory snap fs =
     (let out = snap @ [''derived'']; fs = (if path_exists fs out then remove_tree out fs else fs)
      in bindE (mkdir_parents out fs) (\<lambda>fs. Inr (out, fs)))"

subsection \<open>The files of a supervised run\<close>

definition write_run_plan :: "path \<Rightarrow> nat \<Rightarrow> string \<Rightarrow> fs \<Rightarrow> (py_exn, fs) result" where
  "write_run_plan snap total_cases input_family fs =
     write_file (snap @ [''run-plan.json''])
       (JsonDoc (JObj [(''total_cases'', JInt (int total_cases)), (''input_family'', JStr input_family)])) fs"

text \<open>The temporary file carries the process id and replaces the registration in one step.\<close>

definition register_active_snapshot :: "path \<Rightarrow> string \<Rightarrow> path option \<Rightarrow> string \<Rightarrow> fs \<Rightarrow> (py_exn, fs) result" where
  "register_active_snapshot snap resolved registration_file pid fs =
     (case registration_file of
        None \<Rightarrow> Inr fs
      | Some reg \<Rightarrow>
          bindE (if butlast reg = [] then Inr fs else mkdir_parents (butlast reg) fs) (\<lambda>fs.
          let temporary = with_name reg (last reg @ ''.'' @ pid @ ''.tmp'') in
          bindE (write_file temporary (JsonDoc (JObj [(''snapshot'', JStr resolved)])) fs) (\<lambda>fs.
            if is_dir fs reg then Inl (OSError (join ''/'' reg))
            else Inr (put reg (File (JsonDoc (JObj [(''snapshot'', JStr resolved)])))
                        (filter (\<lambda>e. fst e \<noteq> temporary) fs)))))"

text \<open>\<open>Path(text)\<close> is an argument, as is the resolved text above.\<close>

definition registered_snapshot :: "(string \<Rightarrow> path) \<Rightarrow> path option \<Rightarrow> fs \<Rightarrow> path option" where
  "registered_snapshot to_path registration_file fs =
     (case registration_file of
        None \<Rightarrow> None
      | Some reg \<Rightarrow>
          (case read_json fs reg of
             Some (JObj record) \<Rightarrow>
               (case get_field record ''snapshot'' of
                  JStr s \<Rightarrow> if is_dir fs (to_path s) then Some (to_path s) else None
                | _ \<Rightarrow> None)
           | _ \<Rightarrow> None))"

record snapshot_progress =
  pg_snapshot :: "path option"
  pg_completed :: nat
  pg_total :: "nat option"
  pg_family :: "string option"

definition is_case_file :: "path \<Rightarrow> bool" where
  "is_case_file p \<longleftrightarrow> starts_with ''case_'' (last p) \<and> ends_with ''.json'' (last p) \<and> 10 \<le> length (last p)"

text \<open>\<open>isinstance(v, int)\<close> holds for booleans, whose values are \<open>0\<close> and \<open>1\<close>.\<close>

definition plan_total :: "json \<Rightarrow> nat option" where
  "plan_total v = (case v of
       JInt z \<Rightarrow> if 0 \<le> z then Some (nat z) else None
     | JBool b \<Rightarrow> Some (if b then 1 else 0)
     | _ \<Rightarrow> None)"

definition plan_family :: "json \<Rightarrow> string option" where
  "plan_family v = (case v of JStr s \<Rightarrow> Some s | _ \<Rightarrow> None)"

definition progress :: "path option \<Rightarrow> path \<Rightarrow> fs \<Rightarrow> snapshot_progress option" where
  "progress snap dir fs =
     (case snap of
        None \<Rightarrow> None
      | Some s \<Rightarrow>
          if \<not> is_dir fs s then None
          else
            let completed = length (filter is_case_file (children fs s));
                record = (case read_json fs (s @ [''run-plan.json'']) of Some (JObj r) \<Rightarrow> r | _ \<Rightarrow> []);
                label = (if under dir s then Some (drop (length dir) s) else None)
            in Some \<lparr>pg_snapshot = label, pg_completed = completed,
                     pg_total = plan_total (get_field record ''total_cases''),
                     pg_family = plan_family (get_field record ''input_family'')\<rparr>)"

definition discover :: "path \<Rightarrow> fs \<Rightarrow> path set" where
  "discover dir fs =
     (let results = dir @ [''results''] in
      if \<not> is_dir fs results then {}
      else set (concat (map (\<lambda>p.
             if \<not> is_dir fs p then []
             else if last p = ''pilots'' then filter (is_dir fs) (children fs p)
             else [p]) (children fs results))))"

text \<open>The newest candidate by modification time, an argument of the model; the first of equals wins.\<close>

definition new_since :: "(path \<Rightarrow> nat) \<Rightarrow> path list \<Rightarrow> path set \<Rightarrow> path option" where
  "new_since mtime found previous =
     (case filter (\<lambda>p. p \<notin> previous) found of
        [] \<Rightarrow> None
      | p # ps \<Rightarrow> Some (foldl (\<lambda>best q. if mtime best < mtime q then q else best) p ps))"

subsection \<open>What one operation changes\<close>

lemma check_snapshot_ok:
  "check_snapshot target git allow_dirty fs = Inr () \<longleftrightarrow>
     (git_dirty git \<longrightarrow> allow_dirty) \<and> lookup fs target = None \<and> lookup fs (partial_path target) = None"
  by (auto simp: check_snapshot_def path_exists_def)

lemma partial_path_facts:
  assumes "target \<noteq> []"
  shows "partial_path target \<noteq> []" "butlast (partial_path target) = butlast target"
    "length (partial_path target) = length target" "last (partial_path target) = last target @ ''.partial''"
  using assms by (simp_all add: partial_path_def with_name_def)

lemma create_snapshot_facts:
  assumes "create_snapshot target git allow_dirty fs = Inr (s, fs')"
  shows "check_snapshot target git allow_dirty fs = Inr ()"
    and "s = \<lparr>final = target, partial = partial_path target, committed = False\<rparr>"
    and "\<exists>fs1. mkdir_parents (butlast (partial_path target)) fs = Inr fs1 \<and> mkdir (partial_path target) fs1 = Inr fs'"
proof -
  obtain fs1 where c: "check_snapshot target git allow_dirty fs = Inr ()"
    "lift_store (mkdir_parents (butlast (partial_path target)) fs) = Inr fs1"
    "lift_store (mkdir (partial_path target) fs1) = Inr fs'"
    "s = \<lparr>final = target, partial = partial_path target, committed = False\<rparr>"
    using assms by (auto simp: create_snapshot_def Let_def bindE_eq_Inr)
  then show "check_snapshot target git allow_dirty fs = Inr ()"
    "s = \<lparr>final = target, partial = partial_path target, committed = False\<rparr>"
    "\<exists>fs1. mkdir_parents (butlast (partial_path target)) fs = Inr fs1 \<and> mkdir (partial_path target) fs1 = Inr fs'"
    by (auto simp: lift_store_def split: sum.splits)
qed

lemma create_keeps:
  assumes "create_snapshot target git allow_dirty fs = Inr (s, fs')" "lookup fs p = Some n"
  shows "lookup fs' p = Some n"
  using create_snapshot_facts(3) [OF assms(1)] mkdir_parents_keeps [OF _ assms(2)] mkdir_keeps by blast

lemma create_wf:
  assumes "create_snapshot target git allow_dirty fs = Inr (s, fs')" "wf_fs fs" "target \<noteq> []"
  shows "wf_fs fs'"
  using create_snapshot_facts(3) [OF assms(1)] mkdir_parents_wf [OF _ assms(2)] mkdir_wf
    partial_path_facts(1) [OF assms(3)] by blast

lemma commit_facts:
  assumes "commit s fs = Inr (s', fs')"
  shows "\<not> committed s" "lookup fs (final s) = None" "lookup fs (partial s) \<noteq> None"
    "s' = s\<lparr>committed := True\<rparr>" "fs' = rename_tree (partial s) (final s) fs"
  using assms by (auto simp: commit_def path_exists_def split: if_splits)

text \<open>A snapshot as \<open>create_snapshot\<close> builds it.\<close>

definition reserved :: "snapshot \<Rightarrow> bool" where
  "reserved s \<longleftrightarrow> final s \<noteq> [] \<and> partial s = partial_path (final s)"

lemma commit_wf:
  assumes "commit s fs = Inr (s', fs')" "wf_fs fs" "reserved s"
  shows "wf_fs fs'"
proof -
  note c = commit_facts [OF assms(1)]
  have s: "final s \<noteq> []" "partial s = partial_path (final s)" using assms(3) by (simp_all add: reserved_def)
  have src: "partial s \<in> fst ` set fs" using c(3) lookup_in by (cases "lookup fs (partial s)") auto
  have dst: "final s \<notin> fst ` set fs" using c(2) in_lookup by (metis option.distinct(1))
  show ?thesis unfolding c(5)
    by (rule wf_rename [OF assms(2) src dst s(1)]) (use partial_path_facts [OF s(1)] s(2) in simp_all)
qed

lemma absent_under:
  assumes "wf_fs fs" "lookup fs d = None" "d \<noteq> []"
  shows "\<forall>p \<in> fst ` set fs. \<not> under d p"
proof (intro ballI notI)
  fix p assume "p \<in> fst ` set fs" "under d p"
  then have "d \<in> fst ` set fs" using wf_under [OF assms(1) _ _ assms(3)] by blast
  then show False using in_lookup assms(2) by fastforce
qed

lemma commit_moves:
  assumes "commit s fs = Inr (s', fs')" "wf_fs fs" "reserved s" "lookup fs p = Some n"
  shows "lookup fs' (moved (partial s) (final s) p) = Some n"
proof -
  note c = commit_facts [OF assms(1)]
  have "distinct (map fst fs)" using assms(2) by (simp add: wf_fs_def)
  moreover have "\<forall>p \<in> fst ` set fs. \<not> under (final s) p"
    using absent_under [OF assms(2) c(2)] assms(3) by (simp add: reserved_def)
  ultimately show ?thesis unfolding c(5) using rename_lookup(1) assms(4) by blast
qed

lemma commit_origin:
  assumes "commit s fs = Inr (s', fs')" "wf_fs fs" "reserved s" "lookup fs' q = Some n"
  shows "\<exists>p. q = moved (partial s) (final s) p \<and> lookup fs p = Some n"
proof -
  note c = commit_facts [OF assms(1)]
  have "distinct (map fst fs)" using assms(2) by (simp add: wf_fs_def)
  moreover have "\<forall>p \<in> fst ` set fs. \<not> under (final s) p"
    using absent_under [OF assms(2) c(2)] assms(3) by (simp add: reserved_def)
  ultimately show ?thesis using rename_lookup(2) assms(4) unfolding c(5) by blast
qed

lemma final_not_partial: "reserved s \<Longrightarrow> \<not> under (partial s) (final s)" "reserved s \<Longrightarrow> \<not> under (final s) (partial s)"
proof -
  have "final s \<noteq> partial s" if "reserved s"
    using partial_path_facts(4) [of "final s"] that by (auto simp: reserved_def)
  then show "\<not> under (partial s) (final s)" "\<not> under (final s) (partial s)" if "reserved s"
    using that partial_path_facts(3) [of "final s"]
    by (auto simp: under_def starts_with_def reserved_def)
qed

text \<open>C21: committing a reserved snapshot publishes exactly its partial directory. The final name
  was free; afterwards it holds the partial tree entry for entry, nothing is left under the
  partial name, every other path is as before, and a second commit is refused.\<close>

theorem commit_publishes:
  assumes "commit s fs = Inr (s', fs')" "wf_fs fs" "reserved s"
  shows "lookup fs (final s) = None \<and> (\<forall>r. lookup fs' (final s @ r) = lookup fs (partial s @ r))
    \<and> (\<forall>r. lookup fs' (partial s @ r) = None)
    \<and> (\<forall>p. \<not> under (final s) p \<longrightarrow> \<not> under (partial s) p \<longrightarrow> lookup fs' p = lookup fs p)
    \<and> commit s' fs' = Inl AlreadyCommitted"
proof (intro conjI allI impI)
  note c = commit_facts [OF assms(1)]
  note mv = commit_moves [OF assms] and orig = commit_origin [OF assms]
  note np = final_not_partial [OF assms(3)]
  have len: "length (partial s) = length (final s)"
    using assms(3) partial_path_facts(3) by (simp add: reserved_def)
  have free: "\<forall>p \<in> fst ` set fs. \<not> under (final s) p"
    using absent_under [OF assms(2) c(2)] assms(3) by (simp add: reserved_def)
  show "lookup fs (final s) = None" by (rule c(2))
  show "commit s' fs' = Inl AlreadyCommitted" by (simp add: commit_def c(4))
  show "lookup fs' (final s @ r) = lookup fs (partial s @ r)" for r
  proof (cases "lookup fs (partial s @ r)")
    case (Some n)
    then show ?thesis using mv [OF Some] by (simp add: moved_def)
  next
    case None
    have False if h: "lookup fs' (final s @ r) = Some n" for n
    proof -
      obtain p where p: "final s @ r = moved (partial s) (final s) p" "lookup fs p = Some n" using orig [OF h] by blast
      show False
      proof (cases "under (partial s) p")
        case True
        then have "p = partial s @ r" using p(1) under_split by (fastforce simp: moved_def)
        then show False using p(2) None by simp
      next
        case False
        then have "p = final s @ r" using p(1) by (simp add: moved_def)
        then have "under (final s) p" by simp
        then show False using free lookup_in [OF p(2)] by blast
      qed
    qed
    then show ?thesis using None by (cases "lookup fs' (final s @ r)") auto
  qed
  show "lookup fs' (partial s @ r) = None" for r
  proof (rule ccontr)
    assume "lookup fs' (partial s @ r) \<noteq> None"
    then obtain n where "lookup fs' (partial s @ r) = Some n" by auto
    then obtain p where p: "partial s @ r = moved (partial s) (final s) p" using orig by blast
    show False
    proof (cases "under (partial s) p")
      case True
      then have "partial s = final s" using p len by (auto simp: moved_def)
      then show False using np by simp
    next
      case False
      then show False using p by (metis moved_def under_append)
    qed
  qed
  show "lookup fs' p = lookup fs p" if "\<not> under (final s) p" "\<not> under (partial s) p" for p
  proof (cases "lookup fs p")
    case (Some n)
    then show ?thesis using mv [OF Some] that(2) by (simp add: moved_def)
  next
    case None
    have False if h: "lookup fs' p = Some n" for n
    proof -
      obtain q where q: "p = moved (partial s) (final s) q" "lookup fs q = Some n" using orig [OF h] by blast
      then show False using None \<open>\<not> under (final s) p\<close> by (auto simp: moved_def split: if_splits)
    qed
    then show ?thesis using None by (cases "lookup fs' p") auto
  qed
qed

lemma commit_publishes_witness:
  "let fs = [([''runs''], Dir), ([''runs'', ''a.partial''], Dir), ([''runs'', ''a.partial'', ''case_1.json''], File (JsonDoc JNull))];
       s = \<lparr>final = [''runs'', ''a''], partial = [''runs'', ''a.partial''], committed = False\<rparr>;
       fs' = rename_tree [''runs'', ''a.partial''] [''runs'', ''a''] fs
   in lookup fs' [''runs'', ''a'', ''case_1.json''] = Some (File (JsonDoc JNull))"
proof -
  define fs where "fs = [([''runs''], Dir), ([''runs'', ''a.partial''], Dir),
    ([''runs'', ''a.partial'', ''case_1.json''], File (JsonDoc JNull))]"
  define s where "s = \<lparr>final = [''runs'', ''a''], partial = [''runs'', ''a.partial''], committed = False\<rparr>"
  have c: "commit s fs = Inr (s\<lparr>committed := True\<rparr>, rename_tree [''runs'', ''a.partial''] [''runs'', ''a''] fs)"
    by (simp add: commit_def s_def fs_def path_exists_def lookup_def)
  have w: "wf_fs fs" by (simp add: wf_fs_def fs_def lookup_def)
  have r: "reserved s" by (simp add: reserved_def s_def partial_path_def with_name_def)
  have "lookup (rename_tree [''runs'', ''a.partial''] [''runs'', ''a''] fs) (final s @ [''case_1.json''])
      = lookup fs (partial s @ [''case_1.json''])"
    using commit_publishes [OF c w r] by blast
  then show ?thesis by (simp add: s_def fs_def lookup_def)
qed

subsection \<open>Runs of the store\<close>

text \<open>The snapshots a host has opened, and its files. \<open>create\<close>, \<open>publish\<close>, \<open>regenerate\<close>
  and \<open>register\<close> are the operations of this file; \<open>record\<close> is a run writing a file beneath its
  own partial directory.\<close>

type_synonym store = "snapshot list \<times> fs"

inductive store_step :: "store \<Rightarrow> store \<Rightarrow> bool" where
  create: "create_snapshot target git allow_dirty fs = Inr (s, fs') \<Longrightarrow> target \<noteq> []
    \<Longrightarrow> store_step (ss, fs) (s # ss, fs')"
| publish: "s \<in> set ss \<Longrightarrow> commit s fs = Inr (s', fs') \<Longrightarrow> store_step (ss, fs) (s' # remove1 s ss, fs')"
| record_file: "s \<in> set ss \<Longrightarrow> write_file (partial s @ [name]) c fs = Inr fs' \<Longrightarrow> store_step (ss, fs) (ss, fs')"
| regenerate: "derived_directory snap fs = Inr (out, fs') \<Longrightarrow> store_step (ss, fs) (ss, fs')"

inductive_cases store_stepE: "store_step a b"

definition store_ok :: "store \<Rightarrow> bool" where
  "store_ok st \<longleftrightarrow> wf_fs (snd st) \<and> (\<forall>s \<in> set (fst st). reserved s)"

text \<open>Published evidence: a path none of whose components is a partial or a derived directory.\<close>

definition evidence_path :: "path \<Rightarrow> bool" where
  "evidence_path p \<longleftrightarrow> (\<forall>x \<in> set p. \<not> ends_with ''.partial'' x \<and> x \<noteq> ''derived'')"

lemma ends_with_append [simp]: "ends_with s (x @ s)"
  by (simp add: ends_with_def starts_with_def)

lemma evidence_not_under_partial:
  assumes "evidence_path p" "reserved s"
  shows "\<not> under (partial s) p"
proof
  assume "under (partial s) p"
  then obtain r where p: "p = partial s @ r" using under_split by blast
  have "last (final s) @ ''.partial'' \<in> set (partial s)"
    using assms(2) by (simp add: reserved_def partial_path_def with_name_def)
  then have "last (final s) @ ''.partial'' \<in> set p" by (simp add: p)
  then have "\<not> ends_with ''.partial'' (last (final s) @ ''.partial'')"
    using assms(1) unfolding evidence_path_def by blast
  then show False by simp
qed

lemma evidence_not_under_derived: "evidence_path p \<Longrightarrow> \<not> under (snap @ [''derived'']) p"
  using under_split by (fastforce simp: evidence_path_def)

lemma derived_facts:
  assumes "derived_directory snap fs = Inr (out, fs')"
  shows "out = snap @ [''derived'']"
    and "\<exists>fs1. (fs1 = fs \<or> fs1 = remove_tree out fs) \<and> mkdir_parents out fs1 = Inr fs'"
  using assms by (auto simp: derived_directory_def Let_def bindE_eq_Inr split: if_splits)

lemma store_step_ok: "store_step a b \<Longrightarrow> store_ok a \<Longrightarrow> store_ok b"
proof (induction rule: store_step.induct)
  case (create target git allow_dirty fs s fs' ss)
  then show ?case
    using create_wf [OF create(1) _ create(2)] create_snapshot_facts(2) [OF create(1)]
    by (auto simp: store_ok_def reserved_def)
next
  case (publish s ss fs s' fs')
  have "reserved s" using publish by (simp add: store_ok_def)
  moreover have "reserved s'" using \<open>reserved s\<close> commit_facts(4) [OF publish(2)] by (simp add: reserved_def)
  ultimately show ?case using commit_wf [OF publish(2)] publish(3) notin_set_remove1
    by (auto simp: store_ok_def dest: set_remove1_subset [THEN subsetD])
next
  case (record_file s ss name c fs fs')
  then show ?case using write_wf [OF record_file(2)] by (simp add: store_ok_def)
next
  case (regenerate snap fs out fs' ss)
  then show ?case using derived_facts(2) [OF regenerate(1)] mkdir_parents_wf wf_remove_tree
    by (fastforce simp: store_ok_def)
qed

lemma store_step_keeps:
  "store_step a b \<Longrightarrow> store_ok a \<Longrightarrow> evidence_path p \<Longrightarrow> lookup (snd a) p = Some n \<Longrightarrow> lookup (snd b) p = Some n"
proof (induction rule: store_step.induct)
  case (create target git allow_dirty fs s fs' ss)
  then show ?case using create_keeps [OF create(1)] by simp
next
  case (publish s ss fs s' fs')
  have r: "reserved s" "wf_fs fs" using publish by (simp_all add: store_ok_def)
  have "lookup fs' (moved (partial s) (final s) p) = Some n"
    using commit_moves [OF publish(2) r(2,1)] publish.prems by simp
  then show ?case using evidence_not_under_partial [OF publish.prems(2) r(1)] by (simp add: moved_def)
next
  case (record_file s ss name c fs fs')
  have "reserved s" using record_file by (simp add: store_ok_def)
  then have "\<not> under (partial s) p" by (rule evidence_not_under_partial [OF record_file.prems(2)])
  then have "p \<noteq> partial s @ [name]" by auto
  then show ?case using record_file by (auto simp: write_file_def split: if_splits)
next
  case (regenerate snap fs out fs' ss)
  obtain fs1 where f: "fs1 = fs \<or> fs1 = remove_tree out fs" "mkdir_parents out fs1 = Inr fs'"
    using derived_facts(2) [OF regenerate(1)] by blast
  have "lookup fs1 p = Some n"
    using f(1) regenerate.prems evidence_not_under_derived [of p snap] derived_facts(1) [OF regenerate(1)]
    by (auto simp: remove_tree_lookup)
  then show ?case using mkdir_parents_keeps [OF f(2)] by simp
qed

text \<open>The abstract store is a write-once map: a step may add entries and changes none.\<close>

definition evidence :: "store \<Rightarrow> path \<Rightarrow> node option" where
  "evidence st = (\<lambda>p. if evidence_path p then lookup (snd st) p else None)"

definition write_once :: "(path \<Rightarrow> node option) \<Rightarrow> (path \<Rightarrow> node option) \<Rightarrow> bool" where
  "write_once m m' \<longleftrightarrow> m \<subseteq>\<^sub>m m'"

lemma store_step_refines: "store_step a b \<Longrightarrow> store_ok a \<Longrightarrow> write_once (evidence a) (evidence b)"
  unfolding write_once_def map_le_def evidence_def
  by (rule ballI) (auto simp: dom_def store_step_keeps)



end
