(* ===== verification/Fp_Order.thy ===== *)
theory Fp_Order
  imports Ieee754
begin

text \<open>
  The order of floating-point numbers: a total preorder on everything but NaN, which is below and
  above nothing. The lemmas are what the components need of comparisons, maxima and folds.
\<close>

lemma fp_le_iff:
  "x \<le> y \<longleftrightarrow> (case (x, y) of
     (FNaN, _) \<Rightarrow> False | (_, FNaN) \<Rightarrow> False
   | (FInf s, FInf t) \<Rightarrow> s \<or> \<not> t
   | (FInf s, FFin t b) \<Rightarrow> s
   | (FFin s a, FInf t) \<Rightarrow> \<not> t
   | (FFin s a, FFin t b) \<Rightarrow> fp_num x \<le> fp_num y)"
  by (cases x; cases y) (auto simp: less_eq_fp_def fp_eq_def)

lemma fp_less_iff: "(x::fp) < y \<longleftrightarrow> x \<le> y \<and> \<not> y \<le> x"
  by (cases x; cases y) (auto simp: fp_le_iff less_fp_def)

lemma fp_le_trans: "x \<le> y \<Longrightarrow> y \<le> z \<Longrightarrow> (x::fp) \<le> z"
  by (cases x; cases y; cases z) (auto simp: fp_le_iff)

lemma fp_le_linear: "x \<noteq> FNaN \<Longrightarrow> y \<noteq> FNaN \<Longrightarrow> x \<le> y \<or> y \<le> (x::fp)"
  by (cases x; cases y) (auto simp: fp_le_iff)

lemma fp_le_refl: "x \<noteq> FNaN \<Longrightarrow> x \<le> (x::fp)"
  by (cases x) (auto simp: fp_le_iff)

lemma fp_le_nan [simp]: "\<not> FNaN \<le> x" "\<not> x \<le> FNaN"
  by (cases x; simp add: fp_le_iff)+

lemma fp_max_le: "fp_max x y \<le> b \<Longrightarrow> x \<le> b \<and> y \<le> b"
  using fp_le_linear [of x y] fp_le_trans [of x y b] fp_le_trans [of y x b] fp_less_iff [of x y]
  by (auto simp: fp_max_def less_fp_def split: if_splits)

lemma foldl_max_le: "foldl fp_max e es \<le> b \<Longrightarrow> e \<le> b \<and> (\<forall>x \<in> set es. x \<le> b)"
proof (induction es arbitrary: e)
  case (Cons a es)
  have "foldl fp_max (fp_max e a) es \<le> b" using Cons.prems by simp
  then have "fp_max e a \<le> b" "\<forall>x \<in> set es. x \<le> b" using Cons.IH by blast+
  then show ?case using fp_max_le [of e a b] by simp
qed simp

subsection \<open>Rounding by certificate\<close>

text \<open>
  A rounded value is checked, not computed: a significand \<open>m\<close> at the quantum \<open>1 / 2 ^ n\<close> that is closer
  than half a quantum.
\<close>

lemma round_half_even_near:
  assumes "of_int m - 1 / 2 < r" "r < of_int m + 1 / 2"
  shows "round_half_even r = m"
proof -
  have "of_int (round_half_even r) < (of_int (m + 1) :: rat)" "of_int (m - 1) < (of_int (round_half_even r) :: rat)"
    using round_half_even_bounds [of r] assms by simp_all
  then show ?thesis by (simp only: of_int_less_iff)
qed

lemma round64_near:
  assumes "2 ^ 52 / 2 ^ n \<le> r" "r < 2 ^ 53 / 2 ^ n" "n \<le> 1074"
    and "(of_nat m - 1 / 2) / 2 ^ n < r" "r < (of_nat m + 1 / 2) / 2 ^ n"
  shows "fp_round binary64 s r = FFin s (of_nat m / 2 ^ n)"
proof -
  have pos: "0 < r" using assms(1) by (rule less_le_trans [rotated]) simp
  have p: "(2::rat) powi (52 - int n) = 2 ^ 52 / 2 ^ n" "(2::rat) powi (52 - int n + 1) = 2 ^ 53 / 2 ^ n"
    using powi2_add [of 52 "- int n"] powi2_add [of 53 "- int n"] by (simp_all add: powi2_minus_nat)
  have "ilog2 r = 52 - int n" using assms(1,2) by (intro ilog2_unique) (simp_all only: p)
  then have q: "quantum_exp binary64 r = - int n" using assms(3) by (simp add: quantum_exp_def)
  have "round_half_even (r * 2 ^ n) = int m"
    using assms(4,5) by (intro round_half_even_near) (simp_all add: field_simps)
  then have "round_mag binary64 r = of_nat m / 2 ^ n"
    using pos by (simp add: round_mag_def q powi2_minus_nat)
  moreover have "r \<le> 2 ^ 53"
  proof -
    have "(2::rat) ^ 53 / 2 ^ n \<le> 2 ^ 53" by (simp add: divide_le_eq)
    then show ?thesis using assms(2) by linarith
  qed
  ultimately show ?thesis by (simp add: fp_round_eval)
qed

lemma round64_exact:
  assumes "m \<le> 2 ^ 53" "n \<le> 1074"
  shows "fp_round binary64 s (of_nat m / 2 ^ n) = FFin s (of_nat m / 2 ^ n)"
proof -
  have "on_grid binary64 (of_nat m / 2 ^ n)"
  proof (rule on_grid_small)
    show "of_nat m / 2 ^ n = of_int (int m) * (2::rat) powi (- int n)" by (simp add: powi2_minus_nat)
    have "int m \<le> int (2 ^ 53)" using assms(1) by (simp only: of_nat_le_iff)
    then show "int m \<le> 2 ^ fprec binary64" by simp
  qed (use assms(2) in simp_all)
  then have r: "round_mag binary64 (of_nat m / 2 ^ n) = of_nat m / 2 ^ n" by (intro round_mag_id) simp_all
  have "of_nat m / 2 ^ n \<le> (of_nat m / 1 :: rat)" by (intro divide_left_mono) simp_all
  also have "\<dots> \<le> of_nat (2 ^ 53)" using assms(1) by (simp only: div_by_1 of_nat_le_iff)
  finally have "of_nat m / 2 ^ n \<le> (2 ^ 53 :: rat)" by simp
  then show ?thesis by (simp add: fp_round_eval r)
qed

lemma round64_nat: "m \<le> 2 ^ 53 \<Longrightarrow> fp_round binary64 s (of_nat m) = FFin s (of_nat m)"
  using round64_exact [of m 0 s] by simp

lemma fp_sqrt_1: "fp_sqrt binary64 (FFin False 1) = FFin False 1"
proof -
  have q: "root_quantum binary64 1 = - 52" by (simp add: root_quantum_def ilog2_def bit_length_def floorlog_def)
  have p: "1 / ((2::rat) powi (- 52) * 2 powi (- 52)) = of_nat (2 ^ 52) * of_nat (2 ^ 52)"
    by (simp add: power_int_minus)
  have "int (2 ^ 52) \<le> root_significand (of_nat (2 ^ 52) * of_nat (2 ^ 52))" by (rule root_significand_ge) simp
  moreover have "root_significand (of_nat (2 ^ 52) * of_nat (2 ^ 52)) \<le> int (2 ^ 52)"
  proof -
    have "isqrt (2 ^ 52 * 2 ^ 52) = 2 ^ 52"
      using isqrt_ge [of "2 ^ 52" "2 ^ 52 * 2 ^ 52"] isqrt_le [of "2 ^ 52 * 2 ^ 52" "2 ^ 52 + 1"] by simp
    then show ?thesis by (simp add: root_significand_def Let_def)
  qed
  ultimately have "root_significand (1 / ((2::rat) powi (- 52) * 2 powi (- 52))) = 2 ^ 52" unfolding p by simp
  then show ?thesis by (simp add: fp_sqrt_def round_sqrt_def q power_int_minus)
qed

end
