(* ===== verification/Correctness.thy ===== *)
theory Correctness
  imports Quantizer Runner Fp_Order
begin

text \<open>
  The gate of \<open>src/stoquant/correctness.py\<close>, which every case passes before it is timed: the CPU
  reference record, the AVX2 and CUDA records, one bench record per selected path, and the FP64
  bounds. Starting a process and reading a file are arguments over a state \<open>'p\<close>; a phase is a
  state transformer that may leave with an exception. The lemmas show what a passed gate says
  about the files it leaves behind.
\<close>

subsection \<open>Failures\<close>

text \<open>
  One constructor per \<open>CorrectnessFailure\<close> of the module and per handler of \<open>verify_correctness\<close>, with
  the values the details carry beside their constant fields.
\<close>

datatype gate_failure =
    CpuCompressFailed string
  | CpuBenchFailed string
  | CpuBenchDiffers
  | Avx2CompressFailed string
  | Avx2Differs
  | CudaCompressFailed string
  | PathBenchFailed string string
  | PathDiffers bool
  | CpuCudaDiffer
  | DecodeFailed py_exn
  | BoundUndefined py_exn
  | BoundExceeded bool bool fp fp fp fp
  | GateTimedOut
  | GateNotStarted string

text \<open>Exceptions inside the gate: a \<open>CorrectnessFailure\<close>, the two that \<open>verify_correctness\<close> handles, and the rest.\<close>

datatype gate_exn =
    Failure gate_failure
  | GateTimeout
  | GateOSError string
  | GateEscapes py_exn
  | GateNoFake "string list"

type_synonym ('p, 'a) gate = "('p, gate_exn, 'a) st"

definition gate_lift :: "(py_exn, 'a) result \<Rightarrow> ('p, 'a) gate" where
  "gate_lift m = (\<lambda>p. (case m of Inl e \<Rightarrow> Inl (GateEscapes e) | Inr x \<Rightarrow> Inr x, p))"

subsection \<open>Commands\<close>

record 'p gate_env =
  env_run :: "'p \<Rightarrow> string list \<Rightarrow> proc_outcome \<times> 'p"
  env_read :: "'p \<Rightarrow> string \<Rightarrow> byte list option"

record record_run =
  rr_binary :: string
  rr_input :: string
  rr_tmp :: string
  rr_count :: int
  rr_bits :: int
  rr_seed :: int
  rr_tensor :: int
  rr_invocation :: int
  rr_k1 :: string

definition record_path :: "record_run \<Rightarrow> string \<Rightarrow> string" where
  "record_path r name =
     rr_tmp r @ ''/'' @ name @ ''_b'' @ str_int (rr_bits r) @ ''_n'' @ str_int (rr_count r) @ ''.msq''"

definition gate_exec :: "'p gate_env \<Rightarrow> string list \<Rightarrow> ('p, int \<times> string) gate" where
  "gate_exec env argv = (\<lambda>p.
     case env_run env p argv of
       (Completed code out err, p') \<Rightarrow> (Inr (code, err), p')
     | (TimeoutExpired, p') \<Rightarrow> (Inl GateTimeout, p')
     | (StartFailed exc, p') \<Rightarrow> (Inl (GateOSError exc), p')
     | (NoFakeResult a, p') \<Rightarrow> (Inl (GateNoFake a), p'))"

definition gate_read :: "'p gate_env \<Rightarrow> string \<Rightarrow> ('p, byte list) gate" where
  "gate_read env path = (\<lambda>p.
     (case env_read env p path of None \<Rightarrow> Inl (GateOSError path) | Some b \<Rightarrow> Inr b, p))"

definition gate_compress :: "'p gate_env \<Rightarrow> record_run \<Rightarrow> string \<Rightarrow> string \<Rightarrow> ('p, int \<times> string) gate" where
  "gate_compress env r be output =
     gate_exec env (compress_args (rr_binary r) (rr_input r) output (rr_seed r) (rr_bits r)
       (rr_tensor r) (rr_invocation r) be (rr_k1 r))"

definition gate_bench :: "'p gate_env \<Rightarrow> record_run \<Rightarrow> string \<Rightarrow> string \<Rightarrow> string list \<Rightarrow> ('p, int \<times> string) gate" where
  "gate_bench env r be output extra =
     gate_exec env
       ([rr_binary r, ''bench'', ''--input'', rr_input r, ''--record-output'', output,
         ''--seed'', str_int (rr_seed r), ''--bits'', str_int (rr_bits r),
         ''--tensor-id'', str_int (rr_tensor r), ''--invocation-id'', str_int (rr_invocation r),
         ''--backend'', be] @ k1_args be (rr_k1 r) @ extra @ [''--warmup'', ''0'', ''--reps'', ''1''])"

text \<open>A command that must exit with zero; its failure is named from its error output.\<close>

definition require_zero :: "('p, int \<times> string) gate \<Rightarrow> (string \<Rightarrow> gate_failure) \<Rightarrow> ('p, unit) gate" where
  "require_zero m mk =
     st_bind m (\<lambda>(code, err). if code \<noteq> 0 then st_fail (Failure (mk (strip err))) else st_return ())"

subsection \<open>The phases\<close>

definition check_cpu_reference :: "'p gate_env \<Rightarrow> record_run \<Rightarrow> ('p, byte list \<times> byte list) gate" where
  "check_cpu_reference env r =
     (let comp = record_path r ''cpu_comp''; bench = record_path r ''cpu_bench'' in
      st_bind (require_zero (gate_compress env r ''cpu'' comp) CpuCompressFailed) (\<lambda>_.
      st_bind (require_zero (gate_bench env r ''cpu'' bench []) CpuBenchFailed) (\<lambda>_.
      st_bind (gate_read env comp) (\<lambda>comp_bytes.
      st_bind (gate_read env bench) (\<lambda>bench_bytes.
        if bench_bytes \<noteq> comp_bytes then st_fail (Failure CpuBenchDiffers)
        else st_return (comp_bytes, bench_bytes))))))"

definition check_avx2_comparator :: "'p gate_env \<Rightarrow> record_run \<Rightarrow> byte list \<Rightarrow> ('p, unit) gate" where
  "check_avx2_comparator env r cpu_comp_bytes =
     (let comp = record_path r ''cpu-avx2_comp'' in
      st_bind (require_zero (gate_compress env r ''cpu-avx2'' comp) Avx2CompressFailed) (\<lambda>_.
      st_bind (gate_read env comp) (\<lambda>bytes.
        if bytes \<noteq> cpu_comp_bytes then st_fail (Failure Avx2Differs) else st_return ())))"

definition compress_cuda_reference :: "'p gate_env \<Rightarrow> record_run \<Rightarrow> ('p, byte list) gate" where
  "compress_cuda_reference env r =
     (let comp = record_path r ''cuda_comp'' in
      st_bind (require_zero (gate_compress env r ''cuda'' comp) CudaCompressFailed) (\<lambda>_. gate_read env comp))"

text \<open>The keys of a dictionary comprehension: first occurrences, in order.\<close>

definition dict_keys :: "'a list \<Rightarrow> 'a list" where
  "dict_keys xs = rev (remdups (rev xs))"

definition bench_record_path :: "record_run \<Rightarrow> bench_path \<Rightarrow> string" where
  "bench_record_path r p = record_path r (''bench_'' @ path_label p)"

fun bench_each :: "'p gate_env \<Rightarrow> record_run \<Rightarrow> bench_path list \<Rightarrow> ('p, unit) gate" where
  "bench_each env r [] = st_return ()"
| "bench_each env r (path # ps) =
     st_bind
       (require_zero (gate_bench env r (backend path) (bench_record_path r path) (extra_args path))
         (PathBenchFailed (if backend path = ''cuda'' then ''CUDA '' @ path_key path else path_label path)))
       (\<lambda>_. bench_each env r ps)"

definition record_other_paths :: "'p gate_env \<Rightarrow> record_run \<Rightarrow> bench_path list \<Rightarrow> ('p, bench_path list) gate" where
  "record_other_paths env r paths =
     (let selected = dict_keys (filter (\<lambda>p. boundary p \<noteq> boundary COMPARATOR) paths) in
      st_bind (bench_each env r selected) (\<lambda>_. st_return selected))"

text \<open>\<open>all(...)\<close> stops at the first record that differs.\<close>

fun records_match ::
  "'p gate_env \<Rightarrow> record_run \<Rightarrow> byte list \<Rightarrow> byte list option \<Rightarrow> bench_path list \<Rightarrow> ('p, bool) gate" where
  "records_match env r cpu cuda [] = st_return True"
| "records_match env r cpu cuda (path # ps) =
     st_bind (gate_read env (bench_record_path r path)) (\<lambda>bytes.
       if Some bytes = (if backend path = ''cuda'' then cuda else Some cpu)
       then records_match env r cpu cuda ps else st_return False)"

definition check_cross_path_identity ::
  "'p gate_env \<Rightarrow> record_run \<Rightarrow> bench_path list \<Rightarrow> byte list \<Rightarrow> byte list option \<Rightarrow> ('p, unit) gate" where
  "check_cross_path_identity env r paths cpu cuda =
     st_bind (records_match env r cpu cuda paths) (\<lambda>same.
       let cpu_cuda = (cuda = None \<or> Some cpu = cuda) in
       if \<not> same then st_fail (Failure (PathDiffers cpu_cuda))
       else if \<not> cpu_cuda then st_fail (Failure CpuCudaDiffer)
       else st_return ())"

subsection \<open>The FP64 layer\<close>

definition frombuffer_f4 :: "byte list \<Rightarrow> (py_exn, fp list) result" where
  "frombuffer_f4 bytes =
     (if length bytes mod 4 \<noteq> 0 then Inl (ValueError ''buffer size must be a multiple of element size'')
      else Inr (map (\<lambda>c. fp_of_bits32 (le_value c)) (chunks 4 bytes)))"

text \<open>NumPy's elementwise operations accept equal lengths, and a length of one against any other.\<close>

definition broadcast :: "'a list \<Rightarrow> 'b list \<Rightarrow> (py_exn, ('a \<times> 'b) list) result" where
  "broadcast xs ys =
     (if length xs = length ys then Inr (zip xs ys)
      else if length xs = 1 then Inr (map (Pair (xs ! 0)) ys)
      else if length ys = 1 then Inr (map (\<lambda>x. (x, ys ! 0)) xs)
      else Inl (ValueError ''operands could not be broadcast together''))"

definition max_recon_error :: "fp list \<Rightarrow> fp list \<Rightarrow> (py_exn, fp) result" where
  "max_recon_error got reference =
     bindE (broadcast got reference) (\<lambda>ps.
       case map (\<lambda>(d, x). fp_abs (fp_sub binary64 (fp_cast binary64 d) x)) ps of
         [] \<Rightarrow> Inl (ValueError ''zero-size array to reduction operation maximum'')
       | e # es \<Rightarrow> Inr (foldl fp_max e es))"

record bound_report =
  scale_error :: fp
  scale_bound :: fp
  reconstruction_error :: fp
  reconstruction_bound :: fp

definition judge_bounds :: "bound_report \<Rightarrow> (gate_failure, bound_report) result" where
  "judge_bounds b =
     (let scale_ok = (scale_error b \<le> scale_bound b);
          reconstruction_ok = (reconstruction_error b \<le> reconstruction_bound b)
      in if \<not> scale_ok \<or> \<not> reconstruction_ok
         then Inl (BoundExceeded scale_ok reconstruction_ok (scale_error b) (scale_bound b)
                     (reconstruction_error b) (reconstruction_bound b))
         else Inr b)"

text \<open>What the layer computes of the input and the record, once the input bytes are read.\<close>

definition compare_record ::
  "(fp list \<Rightarrow> fp) \<Rightarrow> record_run \<Rightarrow> byte list \<Rightarrow> fp list \<Rightarrow> (gate_exn, bound_report) result" where
  "compare_record np_sum r rec values =
     (case decode_record rec of
        Inl e \<Rightarrow> Inl (Failure (DecodeFailed e))
      | Inr vs \<Rightarrow>
          (case reference_fp64 np_sum values (rr_bits r) (rr_seed r) (rr_tensor r) (rr_invocation r) None of
             Inl e \<Rightarrow> Inl (GateEscapes e)
           | Inr (fp64_scale, fp64_decoded) \<Rightarrow>
               (case fp64_error_bounds (rr_count r) (nat (rr_bits r)) fp64_scale of
                  Inl (ValueError m) \<Rightarrow> Inl (Failure (BoundUndefined (ValueError m)))
                | Inl e \<Rightarrow> Inl (GateEscapes e)
                | Inr (sb, rb) \<Rightarrow>
                    (case max_recon_error vs fp64_decoded of
                       Inl e \<Rightarrow> Inl (GateEscapes e)
                     | Inr re \<Rightarrow> Inr \<lparr>scale_error =
                         fp_abs (fp_sub binary64 (fp_cast binary64 (h_scale (unpack_header rec))) fp64_scale),
                         scale_bound = sb, reconstruction_error = re, reconstruction_bound = rb\<rparr>))))"

definition check_fp64_bounds ::
  "'p gate_env \<Rightarrow> (fp list \<Rightarrow> fp) \<Rightarrow> record_run \<Rightarrow> byte list \<Rightarrow> ('p, bound_report) gate" where
  "check_fp64_bounds env np_sum r rec =
     st_bind (gate_read env (rr_input r)) (\<lambda>input_bytes.
     st_bind (gate_lift (frombuffer_f4 input_bytes)) (\<lambda>vals p.
       (bindE (compare_record np_sum r rec vals)
          (\<lambda>b. case judge_bounds b of Inl e \<Rightarrow> Inl (Failure e) | Inr b \<Rightarrow> Inr b), p)))"

subsection \<open>The gate\<close>

definition gate_phases ::
  "'p gate_env \<Rightarrow> (fp list \<Rightarrow> fp) \<Rightarrow> record_run \<Rightarrow> string list \<Rightarrow> bench_path list \<Rightarrow> ('p, bound_report) gate" where
  "gate_phases env np_sum r backends paths =
     st_bind (check_cpu_reference env r) (\<lambda>(cpu_comp, cpu_bench).
     st_bind (if ''cpu-avx2'' \<in> set backends then check_avx2_comparator env r cpu_comp else st_return ()) (\<lambda>_.
     st_bind (if ''cuda'' \<in> set backends
                then st_bind (compress_cuda_reference env r) (\<lambda>b. st_return (Some b))
                else st_return None) (\<lambda>cuda_comp.
     st_bind (record_other_paths env r paths) (\<lambda>selected.
     st_bind (check_cross_path_identity env r selected cpu_comp cuda_comp) (\<lambda>_.
       check_fp64_bounds env np_sum r cpu_bench)))))"

datatype gate_report = Passed bound_report | Failed gate_failure

datatype gate_escape = EscapedValue py_exn | EscapedDesign design_error | EscapedFake "string list"

definition gate_outcome :: "(gate_exn, bound_report) result \<Rightarrow> (gate_escape, gate_report) result" where
  "gate_outcome res =
     (case res of
        Inr b \<Rightarrow> Inr (Passed b)
      | Inl (Failure f) \<Rightarrow> Inr (Failed f)
      | Inl GateTimeout \<Rightarrow> Inr (Failed GateTimedOut)
      | Inl (GateOSError exc) \<Rightarrow> Inr (Failed (GateNotStarted exc))
      | Inl (GateEscapes e) \<Rightarrow> Inl (EscapedValue e)
      | Inl (GateNoFake a) \<Rightarrow> Inl (EscapedFake a))"

definition verify_correctness ::
  "'p gate_env \<Rightarrow> (fp list \<Rightarrow> fp) \<Rightarrow> record_run \<Rightarrow> string list \<Rightarrow> bench_path list option
     \<Rightarrow> 'p \<Rightarrow> (gate_escape, gate_report) result \<times> 'p" where
  "verify_correctness env np_sum r backends paths p =
     (case (case paths of None \<Rightarrow> build_paths backends [] [''pageable''] | Some ps \<Rightarrow> Inr ps) of
        Inl e \<Rightarrow> (Inl (EscapedDesign e), p)
      | Inr ps \<Rightarrow> (case gate_phases env np_sum r backends ps p of (res, p') \<Rightarrow> (gate_outcome res, p')))"

subsection \<open>Details\<close>

text \<open>
  The dictionary \<open>verify_correctness\<close> returns beside its flag. The texts of an exception and of a
  float are arguments.
\<close>

definition failure_items :: "(string \<times> json) list \<Rightarrow> string \<Rightarrow> (string \<times> json) list" where
  "failure_items flags msg = (''status'', JStr ''failed'') # flags @ [(''error_message'', JStr msg)]"

definition bool_text :: "bool \<Rightarrow> string" where
  "bool_text b = (if b then ''True'' else ''False'')"

definition layer2_flags :: "bool \<Rightarrow> bool \<Rightarrow> (string \<times> json) list" where
  "layer2_flags scale_ok reconstruction_ok =
     [(''byte_identical_to_compress'', JBool True), (''cpu_cuda_byte_identical'', JBool True),
      (''layer2_scale_within_bound'', JBool scale_ok), (''layer2_reconstruction_within_bound'', JBool reconstruction_ok)]"

definition bound_items :: "fp \<Rightarrow> fp \<Rightarrow> fp \<Rightarrow> fp \<Rightarrow> (string \<times> json) list" where
  "bound_items se sb re rb =
     [(''scale_error'', JFloat se), (''scale_bound'', JFloat sb),
      (''reconstruction_error'', JFloat re), (''reconstruction_bound'', JFloat rb)]"

definition failure_details :: "(py_exn \<Rightarrow> string) \<Rightarrow> (fp \<Rightarrow> string) \<Rightarrow> gate_failure \<Rightarrow> (string \<times> json) list" where
  "failure_details exn_text show f =
     (case f of
        CpuCompressFailed err \<Rightarrow> failure_items [] (''CPU compress failed: '' @ err)
      | CpuBenchFailed err \<Rightarrow> failure_items [] (''CPU bench record failed: '' @ err)
      | CpuBenchDiffers \<Rightarrow>
          failure_items [(''byte_identical_to_compress'', JBool False), (''cpu_cuda_byte_identical'', JBool False)]
            ''CPU bench record is not byte-identical to CPU compress record.''
      | Avx2CompressFailed err \<Rightarrow> failure_items [] (''cpu-avx2 compress failed: '' @ err)
      | Avx2Differs \<Rightarrow> failure_items [(''cpu_avx2_byte_identical'', JBool False)]
            ''cpu-avx2 compress record is not byte-identical to CPU.''
      | CudaCompressFailed err \<Rightarrow> failure_items [] (''CUDA compress failed: '' @ err)
      | PathBenchFailed name err \<Rightarrow> failure_items [] (name @ '' bench record failed: '' @ err)
      | PathDiffers cpu_cuda \<Rightarrow>
          failure_items [(''byte_identical_to_compress'', JBool False), (''cpu_cuda_byte_identical'', JBool cpu_cuda)]
            ''A bench record output is not byte-identical to compress output.''
      | CpuCudaDiffer \<Rightarrow>
          failure_items [(''byte_identical_to_compress'', JBool True), (''cpu_cuda_byte_identical'', JBool False)]
            ''CPU and CUDA records are not byte-identical.''
      | DecodeFailed e \<Rightarrow> failure_items (layer2_flags False False) (''Record decoding failed: '' @ exn_text e)
      | BoundUndefined e \<Rightarrow> failure_items (layer2_flags False False) (''Layer 2 bound check failed: '' @ exn_text e)
      | BoundExceeded scale_ok reconstruction_ok se sb re rb \<Rightarrow>
          failure_items (layer2_flags scale_ok reconstruction_ok @ bound_items se sb re rb)
            (''Layer 2 bound check failed: scale_ok='' @ bool_text scale_ok @ '' ('' @ show se @ '' <= '' @ show sb
             @ ''), reconstruction_ok='' @ bool_text reconstruction_ok @ '' ('' @ show re @ '' <= '' @ show rb @ '')'')
      | GateTimedOut \<Rightarrow> failure_items [] ''stoquant bench timed out''
      | GateNotStarted exc \<Rightarrow> failure_items [] (''stoquant bench could not start: '' @ exc))"

definition gate_details :: "(py_exn \<Rightarrow> string) \<Rightarrow> (fp \<Rightarrow> string) \<Rightarrow> gate_report \<Rightarrow> (string \<times> json) list" where
  "gate_details exn_text show report =
     (case report of
        Passed b \<Rightarrow>
          (''status'', JStr ''passed'') # layer2_flags True True
          @ bound_items (scale_error b) (scale_bound b) (reconstruction_error b) (reconstruction_bound b)
          @ [(''error_message'', JNull)]
      | Failed f \<Rightarrow> failure_details exn_text show f)"

lemma gate_details_status:
  "get_field (gate_details exn_text show report) ''status''
     = JStr (case report of Passed b \<Rightarrow> ''passed'' | Failed f \<Rightarrow> ''failed'')"
  by (auto simp: gate_details_def failure_details_def failure_items_def get_field_def split: gate_report.split gate_failure.split)

subsection \<open>What a passed phase says\<close>

lemma gate_read_Inr [result_simps]: "gate_read env path p = (Inr b, p') \<longleftrightarrow> env_read env p path = Some b \<and> p' = p"
  by (auto simp: gate_read_def split: option.splits)

lemma gate_lift_Inr [result_simps]: "gate_lift m p = (Inr x, p') \<longleftrightarrow> m = Inr x \<and> p' = p"
  by (auto simp: gate_lift_def split: sum.splits)

lemma set_dict_keys [simp]: "set (dict_keys xs) = set xs"
  by (simp add: dict_keys_def)

lemma check_cpu_reference_Inr:
  assumes "check_cpu_reference env r p = (Inr (cb, bb), p')"
  shows "cb = bb" "env_read env p' (record_path r ''cpu_comp'') = Some cb"
    "env_read env p' (record_path r ''cpu_bench'') = Some cb"
  using assms by (auto simp: check_cpu_reference_def Let_def result_simps split: if_splits)

lemma compress_cuda_Inr:
  "compress_cuda_reference env r p = (Inr b, p') \<Longrightarrow> env_read env p' (record_path r ''cuda_comp'') = Some b"
  by (auto simp: compress_cuda_reference_def Let_def result_simps)

lemma check_avx2_Inr:
  "check_avx2_comparator env r rec p = (Inr u, p') \<Longrightarrow> env_read env p' (record_path r ''cpu-avx2_comp'') = Some rec"
  by (auto simp: check_avx2_comparator_def Let_def result_simps split: if_splits)

lemma record_other_paths_Inr:
  "record_other_paths env r paths p = (Inr selected, p') \<Longrightarrow>
     set selected = {q \<in> set paths. boundary q \<noteq> boundary COMPARATOR}"
  by (auto simp: record_other_paths_def Let_def result_simps)

lemma records_match_Inr:
  "records_match env r cpu cuda ps p = (Inr True, p') \<Longrightarrow>
     p' = p \<and> (\<forall>q \<in> set ps. env_read env p (bench_record_path r q) = (if backend q = ''cuda'' then cuda else Some cpu)
                \<and> env_read env p (bench_record_path r q) \<noteq> None)"
  by (induction ps) (fastforce simp: result_simps split: if_splits)+

lemma cross_path_Inr:
  assumes "check_cross_path_identity env r ps cpu cuda p = (Inr u, p')"
  shows "p' = p" "cuda = None \<or> cuda = Some cpu"
    "\<forall>q \<in> set ps. env_read env p (bench_record_path r q) = Some cpu"
proof -
  have m: "records_match env r cpu cuda ps p = (Inr True, p')" "cuda = None \<or> cuda = Some cpu"
    using assms by (auto simp: check_cross_path_identity_def Let_def result_simps split: if_splits)
  then show "p' = p" "cuda = None \<or> cuda = Some cpu" using records_match_Inr [OF m(1)] by auto
  show "\<forall>q \<in> set ps. env_read env p (bench_record_path r q) = Some cpu"
    using records_match_Inr [OF m(1)] m(2) by (auto split: if_splits)
qed

lemma max_recon_le:
  assumes "max_recon_error vs xs = Inr re" "re \<le> b"
  shows "\<exists>ps. broadcast vs xs = Inr ps \<and>
    (\<forall>(d, x) \<in> set ps. fp_abs (fp_sub binary64 (fp_cast binary64 d) x) \<le> b)"
proof -
  obtain ps where ps: "broadcast vs xs = Inr ps"
    "(case map (\<lambda>(d, x). fp_abs (fp_sub binary64 (fp_cast binary64 d) x)) ps of
         [] \<Rightarrow> Inl (ValueError ''zero-size array to reduction operation maximum'')
       | e # es \<Rightarrow> Inr (foldl fp_max e es)) = (Inr re :: (py_exn, fp) result)"
    using assms(1) by (auto simp: max_recon_error_def result_simps)
  let ?f = "\<lambda>(d, x). fp_abs (fp_sub binary64 (fp_cast binary64 d) x)"
  obtain e es where m: "map ?f ps = e # es" "foldl fp_max e es = re"
    using ps(2) by (cases "map ?f ps") auto
  have "\<forall>y \<in> set (map ?f ps). y \<le> b" unfolding m(1) using foldl_max_le [of e es b] m(2) assms(2) by auto
  then show ?thesis using ps(1) by auto
qed

text \<open>Everything the FP64 layer establishes about one record and the input.\<close>

definition within_bounds ::
  "(fp list \<Rightarrow> fp) \<Rightarrow> record_run \<Rightarrow> byte list \<Rightarrow> byte list \<Rightarrow> bound_report \<Rightarrow> bool" where
  "within_bounds np_sum r rec input b \<longleftrightarrow>
     (\<exists>vs values scale xs ps. decode_record rec = Inr vs \<and> frombuffer_f4 input = Inr values
        \<and> reference_fp64 np_sum values (rr_bits r) (rr_seed r) (rr_tensor r) (rr_invocation r) None = Inr (scale, xs)
        \<and> fp64_error_bounds (rr_count r) (nat (rr_bits r)) scale = Inr (scale_bound b, reconstruction_bound b)
        \<and> fp_abs (fp_sub binary64 (fp_cast binary64 (h_scale (unpack_header rec))) scale) \<le> scale_bound b
        \<and> broadcast vs xs = Inr ps
        \<and> (\<forall>(d, x) \<in> set ps. fp_abs (fp_sub binary64 (fp_cast binary64 d) x) \<le> reconstruction_bound b))"

lemma compare_record_Inr:
  assumes "compare_record np_sum r rec values = Inr b"
  obtains vs scale xs where "decode_record rec = Inr vs"
    "reference_fp64 np_sum values (rr_bits r) (rr_seed r) (rr_tensor r) (rr_invocation r) None = Inr (scale, xs)"
    "fp64_error_bounds (rr_count r) (nat (rr_bits r)) scale = Inr (scale_bound b, reconstruction_bound b)"
    "scale_error b = fp_abs (fp_sub binary64 (fp_cast binary64 (h_scale (unpack_header rec))) scale)"
    "max_recon_error vs xs = Inr (reconstruction_error b)"
  using assms by (auto simp: compare_record_def split: sum.splits prod.splits py_exn.splits)

lemma judge_bounds_Inr: "judge_bounds b = Inr b' \<longleftrightarrow>
    b' = b \<and> scale_error b \<le> scale_bound b \<and> reconstruction_error b \<le> reconstruction_bound b"
  by (auto simp: judge_bounds_def Let_def)

lemma check_fp64_Inr:
  assumes "check_fp64_bounds env np_sum r rec p = (Inr b, p')"
  obtains input where "p' = p" "env_read env p (rr_input r) = Some input" "within_bounds np_sum r rec input b"
proof -
  obtain input vals where i: "env_read env p (rr_input r) = Some input" "frombuffer_f4 input = Inr vals" "p' = p"
    and c: "compare_record np_sum r rec vals = Inr b" "judge_bounds b = Inr b"
  proof -
    obtain input vals where i: "env_read env p (rr_input r) = Some input" "frombuffer_f4 input = Inr vals"
      and j: "bindE (compare_record np_sum r rec vals)
          (\<lambda>b. case judge_bounds b of Inl e \<Rightarrow> Inl (Failure e) | Inr b \<Rightarrow> Inr b) = Inr b" "p = p'"
      using assms by (auto simp: check_fp64_bounds_def st_bind_Inr gate_read_Inr gate_lift_Inr)
    obtain b0 where b0: "compare_record np_sum r rec vals = Inr b0"
      "(case judge_bounds b0 of Inl e \<Rightarrow> Inl (Failure e) | Inr b \<Rightarrow> Inr b) = Inr b"
      using j(1) unfolding bindE_eq_Inr by blast
    then have "judge_bounds b0 = Inr b" by (cases "judge_bounds b0") auto
    then have "b0 = b" by (simp add: judge_bounds_Inr)
    then show thesis using that i j(2) b0(1) \<open>judge_bounds b0 = Inr b\<close> by blast
  qed
  from c(1) obtain vs scale xs where k: "decode_record rec = Inr vs"
    "reference_fp64 np_sum vals (rr_bits r) (rr_seed r) (rr_tensor r) (rr_invocation r) None = Inr (scale, xs)"
    "fp64_error_bounds (rr_count r) (nat (rr_bits r)) scale = Inr (scale_bound b, reconstruction_bound b)"
    "scale_error b = fp_abs (fp_sub binary64 (fp_cast binary64 (h_scale (unpack_header rec))) scale)"
    "max_recon_error vs xs = Inr (reconstruction_error b)" by (rule compare_record_Inr)
  have j: "scale_error b \<le> scale_bound b" "reconstruction_error b \<le> reconstruction_bound b"
    using c(2) by (simp_all add: judge_bounds_Inr)
  show thesis
    using that [OF i(3,1)] max_recon_le [OF k(5) j(2)] j(1) k i(2) unfolding within_bounds_def by metis
qed

lemma gate_phases_Inr:
  assumes "gate_phases env np_sum r backends paths p = (Inr b, p')"
  obtains rec cuda p1 where
    "env_read env p1 (record_path r ''cpu_comp'') = Some rec" "env_read env p1 (record_path r ''cpu_bench'') = Some rec"
    "\<exists>p2. ''cpu-avx2'' \<in> set backends \<longrightarrow> env_read env p2 (record_path r ''cpu-avx2_comp'') = Some rec"
    "\<exists>p2. ''cuda'' \<in> set backends \<longrightarrow> env_read env p2 (record_path r ''cuda_comp'') = Some rec"
    "\<forall>q \<in> set paths. boundary q \<noteq> boundary COMPARATOR \<longrightarrow> env_read env p' (bench_record_path r q) = Some rec"
    "check_fp64_bounds env np_sum r rec p' = (Inr b, p')"
proof -
  obtain cpu p1 where a0: "check_cpu_reference env r p = (Inr cpu, p1)"
    and 1: "(case cpu of (cpu_comp, cpu_bench) \<Rightarrow>
     st_bind (if ''cpu-avx2'' \<in> set backends then check_avx2_comparator env r cpu_comp else st_return ()) (\<lambda>_.
     st_bind (if ''cuda'' \<in> set backends
                then st_bind (compress_cuda_reference env r) (\<lambda>b. st_return (Some b))
                else st_return None) (\<lambda>cuda_comp.
     st_bind (record_other_paths env r paths) (\<lambda>selected.
     st_bind (check_cross_path_identity env r selected cpu_comp cuda_comp) (\<lambda>_.
       check_fp64_bounds env np_sum r cpu_bench))))) p1 = (Inr b, p')"
    using assms unfolding gate_phases_def by (rule st_bindE)
  obtain rec bb where rb: "cpu = (rec, bb)" by (cases cpu)
  have a: "check_cpu_reference env r p = (Inr (rec, bb), p1)" using a0 rb by simp
  obtain u p2 where v: "(if ''cpu-avx2'' \<in> set backends then check_avx2_comparator env r rec else st_return ()) p1 = (Inr u, p2)"
    and 2: "st_bind (if ''cuda'' \<in> set backends
                then st_bind (compress_cuda_reference env r) (\<lambda>b. st_return (Some b))
                else st_return None) (\<lambda>cuda_comp.
     st_bind (record_other_paths env r paths) (\<lambda>selected.
     st_bind (check_cross_path_identity env r selected rec cuda_comp) (\<lambda>_.
       check_fp64_bounds env np_sum r bb))) p2 = (Inr b, p')"
    using 1 unfolding rb prod.case by (rule st_bindE)
  obtain cuda p3 where c: "(if ''cuda'' \<in> set backends then st_bind (compress_cuda_reference env r) (\<lambda>b. st_return (Some b))
                else st_return None) p2 = (Inr cuda, p3)"
    and 3: "st_bind (record_other_paths env r paths) (\<lambda>selected.
     st_bind (check_cross_path_identity env r selected rec cuda) (\<lambda>_.
       check_fp64_bounds env np_sum r bb)) p3 = (Inr b, p')"
    using 2 by (rule st_bindE)
  obtain selected p4 where o: "record_other_paths env r paths p3 = (Inr selected, p4)"
    and 4: "st_bind (check_cross_path_identity env r selected rec cuda) (\<lambda>_.
       check_fp64_bounds env np_sum r bb) p4 = (Inr b, p')"
    using 3 by (rule st_bindE)
  obtain u' p5 where x: "check_cross_path_identity env r selected rec cuda p4 = (Inr u', p5)"
    and f: "check_fp64_bounds env np_sum r bb p5 = (Inr b, p')"
    using 4 by (rule st_bindE)
  note a' = check_cpu_reference_Inr [OF a] and x' = cross_path_Inr [OF x]
  have p5: "p5 = p'" using f by (rule check_fp64_Inr) simp
  have "\<exists>p2. ''cpu-avx2'' \<in> set backends \<longrightarrow> env_read env p2 (record_path r ''cpu-avx2_comp'') = Some rec"
  proof (cases "''cpu-avx2'' \<in> set backends")
    case True
    then have "check_avx2_comparator env r rec p1 = (Inr u, p2)" using v by (simp only: if_True)
    note check_avx2_Inr [OF this]
    then show ?thesis by (intro exI impI)
  qed (intro exI impI, rule notE)
  moreover have "\<exists>p2. ''cuda'' \<in> set backends \<longrightarrow> env_read env p2 (record_path r ''cuda_comp'') = Some rec"
  proof (cases "''cuda'' \<in> set backends")
    case True
    then have "st_bind (compress_cuda_reference env r) (\<lambda>b. st_return (Some b)) p2 = (Inr cuda, p3)"
      using c by (simp only: if_True)
    then obtain b where b: "compress_cuda_reference env r p2 = (Inr b, p3)" "cuda = Some b"
      by (auto simp: st_bind_Inr st_return_Inr)
    then have "env_read env p3 (record_path r ''cuda_comp'') = Some rec" using compress_cuda_Inr [OF b(1)] x'(2) by simp
    then show ?thesis by (intro exI impI)
  qed (intro exI impI, rule notE)
  moreover have "\<forall>q \<in> set paths. boundary q \<noteq> boundary COMPARATOR \<longrightarrow> env_read env p' (bench_record_path r q) = Some rec"
    using x'(1,3) record_other_paths_Inr [OF o] p5 by auto
  ultimately show thesis using that a'(2,3) f a'(1) p5 by blast
qed

text \<open>
  C22: A passed gate leaves identical records. The CPU compress and bench records, the AVX2 and
  CUDA compress records where those backends are selected, and in the final state the bench
  record of every selected path but the comparator are one and the same byte string; it decodes,
  its scale is within the FP64 scale bound and every decoded element is within the
  reconstruction bound of the FP64 reference of the input.
\<close>

theorem passed_gate_records_identical:
  assumes "verify_correctness env np_sum r backends (Some paths) p = (Inr (Passed b), p')"
  shows "\<exists>rec input.
      (\<exists>p1. env_read env p1 (record_path r ''cpu_comp'') = Some rec \<and> env_read env p1 (record_path r ''cpu_bench'') = Some rec)
    \<and> (\<exists>p2. ''cpu-avx2'' \<in> set backends \<longrightarrow> env_read env p2 (record_path r ''cpu-avx2_comp'') = Some rec)
    \<and> (\<exists>p3. ''cuda'' \<in> set backends \<longrightarrow> env_read env p3 (record_path r ''cuda_comp'') = Some rec)
    \<and> (\<forall>q \<in> set paths. boundary q \<noteq> boundary COMPARATOR \<longrightarrow> env_read env p' (bench_record_path r q) = Some rec)
    \<and> env_read env p' (rr_input r) = Some input \<and> within_bounds np_sum r rec input b"
proof -
  obtain res where ph: "gate_phases env np_sum r backends paths p = (res, p')" "gate_outcome res = Inr (Passed b)"
    using assms by (auto simp: verify_correctness_def split: prod.splits)
  then have "res = Inr b" by (auto simp: gate_outcome_def split: sum.splits gate_exn.splits)
  from gate_phases_Inr [OF ph(1) [unfolded this]] check_fp64_Inr show ?thesis by metis
qed

lemma py_fdiv_nonzero: "b \<noteq> 0 \<Longrightarrow> py_fdiv x (FFin False b) = Inr (fp_div binary64 x (FFin False b))"
  by (simp add: py_fdiv_def fp_eq_def fp_zero_def fp_num_def)

lemma example_values:
  "fp_of_nat 1 = FFin False 1" "fp_of_nat 2 = FFin False 2" "fp_of_nat 5 = FFin False 5" "fp_of_nat 127 = FFin False 127"
  "fp_int64 12 = FFin False 12" "fp_int64 4 = FFin False 4"
  "unit_roundoff = FFin False (1 / 2 ^ 24)" "tiny_quantum = FFin False (1 / 2 ^ 149)" "error_operations 1 = 12"
  using powi2_minus_nat [of 24] powi2_minus_nat [of 149] round64_nat [of 12 False] round64_nat [of 4 False]
  by (simp_all add: fp_of_nat_def fp_int64_def fp_of_rat_def unit_roundoff_def tiny_quantum_def error_operations_def
      block_size_def bit_length_def floorlog_def)

lemma example_epsilon: "error_epsilon 1 (FFin False 1) = Inr (FFin False (of_nat 6755404272897408 / 2 ^ 73))"
proof -
  let ?ou = "of_nat 3 / 2 ^ 22 :: rat" and ?e = "of_nat 6755404272897408 / 2 ^ 73 :: rat"
  have ou: "fp_mul binary64 (FFin False 12) (FFin False (1 / 2 ^ 24)) = FFin False ?ou"
    using round64_exact [of 3 22 False] by simp
  have d: "fp_sub binary64 (FFin False 1) (FFin False ?ou) = FFin False (of_nat 4194301 / 2 ^ 22)"
    using round64_exact [of 4194301 22 False] by (simp add: fp_sub_def fp_neg_def fp_of_rat_def fp_num_def)
  have "fp_round binary64 False (?ou / (of_nat 4194301 / 2 ^ 22)) = FFin False ?e"
    by (rule round64_near) simp_all
  then have e0: "fp_div binary64 (FFin False ?ou) (FFin False (of_nat 4194301 / 2 ^ 22)) = FFin False ?e" by simp
  have m2: "fp_mul binary64 (FFin False 2) (FFin False 1) = FFin False 2"
    using round64_nat [of 2 False] by simp
  have sub: "fp_div binary64 (FFin False (1 / 2 ^ 149)) (FFin False 2) = FFin False (of_nat 1 / 2 ^ 150)"
    using round64_exact [of 1 150 False] by simp
  have t4: "fp_mul binary64 (FFin False 4) (FFin False (1 / 2 ^ 149)) = FFin False (of_nat 1 / 2 ^ 147)"
    using round64_exact [of 1 147 False] by simp
  have t9: "fp_add binary64 (FFin False (of_nat 1 / 2 ^ 147)) (FFin False (of_nat 1 / 2 ^ 150)) = FFin False (of_nat 9 / 2 ^ 150)"
    using round64_exact [of 9 150 False] by (simp add: fp_of_rat_def fp_num_def)
  have "fp_round binary64 False (?e + of_nat 9 / 2 ^ 150) = FFin False ?e" by (rule round64_near) simp_all
  then have e1: "fp_add binary64 (FFin False ?e) (FFin False (of_nat 9 / 2 ^ 150)) = FFin False ?e"
    by (simp add: fp_of_rat_def fp_num_def)
  have nz: "(of_nat 4194301 / 2 ^ 22 :: rat) \<noteq> 0" "(2::rat) \<noteq> 0" by simp_all
  show ?thesis
    by (simp only: error_epsilon_def Let_def mult_1_right example_values ou d e0 m2 sub t4 t9 e1 py_fdiv_nonzero [OF nz(1)]
        py_fdiv_nonzero [OF nz(2)] bindE_simps)
qed

lemma example_bounds:
  "fp64_error_bounds 1 8 (FFin False 1)
     = Inr (FFin False (of_nat 6755404272897408 / 2 ^ 73), FFin False (of_nat 4539559258555401 / 2 ^ 58))"
proof -
  let ?e = "of_nat 6755404272897408 / 2 ^ 73 :: rat" and ?d = "of_nat 9007192812285440 / 2 ^ 53 :: rat"
  have "fp_round binary64 False (2 / 127) = FFin False (of_nat 4539061041759240 / 2 ^ 58)"
    by (rule round64_near) simp_all
  then have r1: "fp_div binary64 (FFin False 2) (FFin False 127) = FFin False (of_nat 4539061041759240 / 2 ^ 58)" by simp
  have e2: "fp_mul binary64 (FFin False 2) (FFin False ?e) = FFin False (of_nat 6755404272897408 / 2 ^ 72)"
    using round64_exact [of 6755404272897408 72 False] by simp
  have "fp_round binary64 False (1 - ?e) = FFin False ?d" by (rule round64_near) simp_all
  then have d: "fp_sub binary64 (FFin False 1) (FFin False ?e) = FFin False ?d"
    by (simp add: fp_sub_def fp_neg_def fp_of_rat_def fp_num_def)
  have "fp_round binary64 False (of_nat 6755404272897408 / 2 ^ 72 / ?d) = FFin False (of_nat 6755409104745984 / 2 ^ 72)"
    by (rule round64_near) simp_all
  then have r2: "fp_div binary64 (FFin False (of_nat 6755404272897408 / 2 ^ 72)) (FFin False ?d)
      = FFin False (of_nat 6755409104745984 / 2 ^ 72)" by simp
  have r3: "fp_mul binary64 (FFin False 5) (FFin False (1 / 2 ^ 24)) = FFin False (of_nat 5 / 2 ^ 24)"
    using round64_exact [of 5 24 False] by simp
  have "fp_round binary64 False (of_nat 4539061041759240 / 2 ^ 58 + of_nat 6755409104745984 / 2 ^ 72)
      = FFin False (of_nat 4539473359209481 / 2 ^ 58)" by (rule round64_near) simp_all
  then have a1: "fp_add binary64 (FFin False (of_nat 4539061041759240 / 2 ^ 58)) (FFin False (of_nat 6755409104745984 / 2 ^ 72))
      = FFin False (of_nat 4539473359209481 / 2 ^ 58)" by (simp add: fp_of_rat_def fp_num_def)
  have "fp_round binary64 False (of_nat 4539473359209481 / 2 ^ 58 + of_nat 5 / 2 ^ 24)
      = FFin False (of_nat 4539559258555401 / 2 ^ 58)" by (rule round64_near) simp_all
  then have a2: "fp_add binary64 (FFin False (of_nat 4539473359209481 / 2 ^ 58)) (FFin False (of_nat 5 / 2 ^ 24))
      = FFin False (of_nat 4539559258555401 / 2 ^ 58)" by (simp add: fp_of_rat_def fp_num_def)
  have s: "fp_mul binary64 (FFin False 1) (FFin False ?e) = FFin False ?e"
      "fp_mul binary64 (FFin False 1) (FFin False (of_nat 4539559258555401 / 2 ^ 58)) = FFin False (of_nat 4539559258555401 / 2 ^ 58)"
    using round64_exact [of 6755404272897408 73 False] round64_exact [of 4539559258555401 58 False] by simp_all
  have guard: "\<not> (1::int) < 1" "\<not> (\<not> fp_finite (FFin False 1) \<or> FFin False 1 \<le> fp_zero)" "signed_limit_for 8 = Inr 127"
    "nat 1 = (1::nat)"
    by (simp_all add: fp_finite_def fp_le_iff fp_zero_def fp_num_def signed_limit_for_def)
  have nz: "?d \<noteq> 0" "(127::rat) \<noteq> 0" by simp_all
  show ?thesis
    by (simp only: fp64_error_bounds_def guard if_False bindE_simps example_epsilon example_values Let_def r1 e2 d r2 r3 a1 a2 s
        py_fdiv_nonzero [OF nz(1)] py_fdiv_nonzero [OF nz(2)])
qed

lemma example_words: "\<exists>w. resolve_words 1 42 0 0 None = Inr [w]"
proof -
  obtain ws where p: "philox_words 1 42 0 0 = Inr ws" using philox_words_Inr [of 1 42 0 0] by auto
  then have "length ws = 1" using philox_words_length by fastforce
  then obtain w where "ws = [w]" by (cases ws) auto
  then show ?thesis using p by (simp add: resolve_words_def)
qed

lemma example_reference: "reference_fp64 hd [FFin False 1] 8 42 0 0 None = Inr (FFin False 1, [FFin False 1])"
proof -
  obtain w where w: "resolve_words 1 42 0 0 None = Inr [w]" using example_words by blast
  have r: "fp_round binary64 s 1 = FFin s 1" "fp_round binary64 s 127 = FFin s 127" "fp_round binary32 s 1 = FFin s 1" for s
    using round64_nat [of 1 s] round64_nat [of 127 s] r32.rnd_nat [of 1]
    by (simp_all add: fp_round_eval)
  have v: "values_fp32 [FFin False 1] = Inr [FFin False 1]" "fp_cast binary64 (FFin False 1) = FFin False 1"
    "fp_cast binary32 (FFin False 1) = FFin False 1"
    by (simp_all add: values_fp32_def fp_cast_def fp_finite_def r)
  have m: "max_abs_of [FFin False 1] = FFin False 1"
    by (simp add: max_abs_of_def fp_zero_def fp_abs_def fp_max_def fp_num_def)
  have s: "scale_fp64 hd [FFin False 1] = Inr (FFin False 1)"
    using fp_sqrt_1 by (simp add: scale_fp64_def v m Let_def r fp_eq_def fp_zero_def fp_abs_def fp_num_def)
  have lv: "reference_level 127 (FFin False 1) (FFin False 1) = FFin False 127"
    by (simp add: reference_level_def r fp_abs_def fp_of_nat_def fp_min_def)
  have fl: "fp_floor (FFin False 127) = FFin False 127" "fp_floor (FFin False 0) = FFin False 0" by (simp_all add: fp_floor_def)
  have fr: "fp_sub binary64 (FFin False 127) (FFin False 127) = FFin False 0"
    by (simp add: fp_sub_def fp_neg_def fp_of_rat_def fp_num_def)
  have z: "fp_mul binary64 (FFin False 0) (fp_of_nat (2 ^ 32)) = FFin False 0"
    using round64_nat [of 0 False] by (simp add: fp_of_nat_def)
  have d: "reference_decoded 127 (FFin False 1) (FFin False 1) w = FFin False 1"
    by (simp only: reference_decoded_def Let_def lv fl fr z) (simp add: fp_num_def fp_signbit_def fp_of_int_def fp_of_nat_def r)
  have "unsigned_arg 8 8 ''bits'' = Inr 8" by (simp add: unsigned_arg_def)
  moreover have "signed_limit_for (nat 8) = Inr 127" by (simp add: signed_limit_for_def)
  ultimately show ?thesis using w s d
    by (simp add: reference_fp64_def v fp_eq_def fp_zero_def fp_num_def)
qed

definition example_record :: "byte list" where
  "example_record = [0x4D, 0x53, 0x51, 0x31, 1, 8, 0, 0, 1, 0, 0, 0, 0, 0, 0, 0, 0, 0, 128, 63, 254]"

definition example_env :: "unit gate_env" where
  "example_env = \<lparr>env_run = \<lambda>p argv. (Completed 0 [] [], p),
     env_read = \<lambda>p path. Some (if path = ''in.f32'' then [0, 0, 128, 63] else example_record)\<rparr>"

definition example_run :: record_run where
  "example_run = \<lparr>rr_binary = ''stoquant'', rr_input = ''in.f32'', rr_tmp = ''tmp'', rr_count = 1, rr_bits = 8,
     rr_seed = 42, rr_tensor = 0, rr_invocation = 0, rr_k1 = ''reference''\<rparr>"

lemma example_decoded:
  "decode_record example_record = Inr [FFin False 1]" "h_scale (unpack_header example_record) = FFin False 1"
  "frombuffer_f4 [0, 0, 128, 63] = Inr [FFin False 1]"
  by code_simp+

lemma example_compare:
  "compare_record hd example_run example_record [FFin False 1] = Inr \<lparr>scale_error = FFin False 0,
     scale_bound = FFin False (of_nat 6755404272897408 / 2 ^ 73), reconstruction_error = FFin False 0,
     reconstruction_bound = FFin False (of_nat 4539559258555401 / 2 ^ 58)\<rparr>"
proof -
  have c: "fp_cast binary64 (FFin False 1) = FFin False 1" using round64_nat [of 1 False] by (simp add: fp_cast_def)
  have d: "fp_abs (fp_sub binary64 (FFin False 1) (FFin False 1)) = FFin False 0"
    by (simp add: fp_sub_def fp_neg_def fp_of_rat_def fp_num_def fp_abs_def)
  have "max_recon_error [FFin False 1] [FFin False 1] = Inr (FFin False 0)"
    by (simp add: max_recon_error_def broadcast_def c d)
  then show ?thesis using example_decoded(1,2) example_reference example_bounds c d
    by (simp add: compare_record_def example_run_def del: of_nat_numeral)
qed

lemma example_io:
  "env_run example_env p argv = (Completed 0 [] [], p)"
  "env_read example_env p (record_path example_run name) = Some example_record"
  "env_read example_env p (rr_input example_run) = Some [0, 0, 128, 63]"
  by (simp_all add: example_env_def record_path_def example_run_def)

lemma example_steps:
  "gate_exec example_env argv p = (Inr (0, []), p)"
  "gate_read example_env (record_path example_run name) p = (Inr example_record, p)"
  "gate_read example_env (rr_input example_run) p = (Inr [0, 0, 128, 63], p)"
  by (simp_all add: gate_exec_def gate_read_def example_io)

lemma example_require:
  "require_zero (gate_compress example_env r be out) mk p = (Inr (), p)"
  "require_zero (gate_bench example_env r be out ex) mk p = (Inr (), p)"
  by (simp_all add: require_zero_def gate_compress_def gate_bench_def st_bind_def st_return_def example_steps)

lemma example_check:
  "\<exists>b. check_fp64_bounds example_env hd example_run example_record p = (Inr b, p)"
  by (simp add: check_fp64_bounds_def st_bind_def example_steps gate_lift_def example_decoded example_compare
      judge_bounds_def fp_le_iff fp_num_def)

lemma passed_gate_records_identical_witness:
  "\<exists>b. within_bounds hd example_run example_record [0, 0, 128, 63] b"
proof -
  let ?v = "verify_correctness example_env hd example_run [''cpu'', ''cuda''] (Some [COMPARATOR, CUDA_RESIDENT]) ()"
  obtain b where b: "check_fp64_bounds example_env hd example_run example_record () = (Inr b, ())"
    using example_check by blast
  have "check_cpu_reference example_env example_run () = (Inr (example_record, example_record), ())"
    by (simp add: check_cpu_reference_def st_bind_def example_require example_steps st_return_def Let_def)
  moreover have "compress_cuda_reference example_env example_run () = (Inr example_record, ())"
    by (simp add: compress_cuda_reference_def st_bind_def example_require example_steps Let_def)
  moreover have "record_other_paths example_env example_run [COMPARATOR, CUDA_RESIDENT] () = (Inr [CUDA_RESIDENT], ())"
    by (simp add: record_other_paths_def st_bind_def example_require st_return_def dict_keys_def path_simps)
  moreover have "check_cross_path_identity example_env example_run [CUDA_RESIDENT] example_record (Some example_record) () = (Inr (), ())"
    by (simp add: check_cross_path_identity_def st_bind_def bench_record_path_def example_steps st_return_def path_simps)
  ultimately have "?v = (Inr (Passed b), ())"
    by (simp add: verify_correctness_def gate_phases_def st_bind_def st_return_def gate_outcome_def b)
  from passed_gate_records_identical [OF this] obtain rec input where
    r: "\<forall>q \<in> set [COMPARATOR, CUDA_RESIDENT]. boundary q \<noteq> boundary COMPARATOR
          \<longrightarrow> env_read example_env () (bench_record_path example_run q) = Some rec"
    and i: "env_read example_env () (rr_input example_run) = Some input" "within_bounds hd example_run rec input b"
    by blast
  have "boundary CUDA_RESIDENT \<noteq> boundary COMPARATOR" by (simp add: path_simps)
  then have "rec = example_record" using r by (simp add: bench_record_path_def example_io)
  then show ?thesis using i by (auto simp: example_io)
qed

end
