(* ===== verification/Sweep.thy ===== *)
theory Sweep
  imports Correctness Stats
begin

text \<open>
  The sweep driver of \<open>src/stoquant/sweep.py\<close>: the case records of an (input, bits) group, their
  warm-up, trials and statistics, the summary rows, the order of the summary and the manifest's
  verdict on the run. Processes, the clock, JSON parsing and NumPy are the fields of \<open>sweep_env\<close>;
  provenance blocks that the sweep only copies into its records are left out of the records.
\<close>

subsection \<open>Invocation identifiers\<close>

datatype compact_ids = NoIds | IdList "int list" | Repeated int nat | Contiguous int int nat

definition compact_invocation_ids :: "int list option \<Rightarrow> compact_ids" where
  "compact_invocation_ids ids =
     (case ids of
        None \<Rightarrow> NoIds
      | Some [] \<Rightarrow> IdList []
      | Some (x # xs) \<Rightarrow>
          if 0 < length xs \<and> list_all (\<lambda>i. i = x) (x # xs) then Repeated x (length (x # xs))
          else if x # xs \<noteq> map (\<lambda>k. x + int k) [0..<length (x # xs)] then IdList (x # xs)
          else Contiguous x (last (x # xs)) (length (x # xs)))"

subsection \<open>Settings, inputs and environment\<close>

record sweep_settings =
  sw_counts :: "nat list"
  sw_bits :: "nat list"
  sw_backends :: "string list"
  sw_paths :: "bench_path list"
  sw_warmups :: nat
  sw_reps :: nat
  sw_trials :: nat
  sw_seed :: int
  sw_case_order_seed :: int
  sw_gpu_warmup_seconds :: fp
  sw_case_warmup_seconds :: fp
  sw_in_process_seconds :: fp
  sw_family :: string
  sw_k1 :: string

definition has_cuda :: "sweep_settings \<Rightarrow> bool" where
  "has_cuda s = (''cuda'' \<in> set (sw_backends s))"

definition has_avx2 :: "sweep_settings \<Rightarrow> bool" where
  "has_avx2 s = list_ex (\<lambda>p. backend p = ''cpu-avx2'') (sw_paths s)"

definition requires_publication_device_attributes :: "sweep_settings \<Rightarrow> bool" where
  "requires_publication_device_attributes s \<longleftrightarrow> sw_k1 s = ''optimized'' \<and> sw_paths s = PUBLICATION_PATHS"

text \<open>The inputs in the generator's order, with their files and element counts.\<close>

record sweep_inputs =
  si_keys :: "string list"
  si_file :: "string \<Rightarrow> string"
  si_count :: "string \<Rightarrow> nat"

text \<open>
  \<open>se_clock p\<close> is the clock of a warm-up that starts in state \<open>p\<close>, \<open>se_fuel\<close> the bound on its loop,
  \<open>se_text\<close>, \<open>se_exn_text\<close>, \<open>se_format\<close> and \<open>se_show\<close> the texts of an error, an exception, a float with a
  precision and a float.
\<close>

record 'p sweep_env =
  se_gate :: "'p gate_env"
  se_loads :: "string \<Rightarrow> json option"
  se_clock :: "'p \<Rightarrow> nat \<Rightarrow> fp"
  se_fuel :: nat
  se_np :: numpy_ops
  se_sum :: "fp list \<Rightarrow> fp"
  se_permute :: "int \<Rightarrow> nat \<Rightarrow> nat list"
  se_text :: "run_error option \<Rightarrow> string"
  se_format :: "nat \<Rightarrow> fp \<Rightarrow> string"
  se_exn_text :: "py_exn \<Rightarrow> string"
  se_show :: "fp \<Rightarrow> string"

datatype sweep_exn =
    OutOfFuel
  | SweepGate gate_escape
  | SweepDesign design_error
  | SweepRaised run_exn
  | SweepWarmup "run_error option"
  | DifferentIds string
  | DifferentThreads string
  | SweepValue py_exn

subsection \<open>Case records\<close>

record trial_run =
  tr_trial :: nat
  tr_position :: nat
  tr_order :: "string list"
  tr_rep_ids :: json
  tr_warm_ids :: compact_ids
  tr_threads :: "json option"
  tr_capture :: json
  tr_samples :: "json list"
  tr_stages :: "(string \<times> json) list"

record in_process_warmup =
  ip_target :: fp
  ip_probe_warmup :: nat
  ip_probe_reps :: nat
  ip_probe_median :: fp
  ip_warmup :: int

record bench_case =
  bc_id :: string
  bc_count :: nat
  bc_key :: string
  bc_bits :: nat
  bc_path :: bench_path
  bc_k1 :: "string option"
  bc_seed :: int
  bc_warmup :: int
  bc_in_process :: "in_process_warmup option"
  bc_reps :: nat
  bc_trials :: nat
  bc_payload_bytes :: nat
  bc_correctness :: "(string \<times> json) list"
  bc_execution_index :: nat
  bc_case_warmup :: "nat option"
  bc_runs :: "trial_run list"
  bc_samples :: "json list"
  bc_statistics :: "case_stats option"
  bc_annotation :: "annotation option"
  bc_resident :: "(speedup \<times> bool \<times> claims) option"
  bc_stage_medians :: "((string \<times> fp) list \<times> fp) option"
  bc_threads :: "json option"

definition case_passed :: "bench_case \<Rightarrow> bool" where
  "case_passed c = (get_field (bc_correctness c) ''status'' = JStr ''passed'')"

definition fail_case_execution :: "bench_case \<Rightarrow> string \<Rightarrow> string \<Rightarrow> bench_case" where
  "fail_case_execution c phase err =
     (let k = bc_correctness c;
          k = dict_setdefault k ''gate_status'' (get_field k ''status'');
          k = (if has_key k ''error_message''
               then dict_setdefault k ''gate_error_message'' (get_field k ''error_message'') else k);
          k = dict_set k ''status'' (JStr ''failed'');
          k = dict_set k ''failure_phase'' (JStr phase);
          k = dict_set k ''error_message'' (JStr err)
      in c\<lparr>bc_correctness := k\<rparr>)"

definition case_id :: "bench_path \<Rightarrow> nat \<Rightarrow> string \<Rightarrow> string" where
  "case_id path bits key = ''case_'' @ backend path @ ''_'' @ path_key path @ ''_bits'' @ str_nat bits @ ''_'' @ key"

definition case_stub ::
  "sweep_settings \<Rightarrow> sweep_inputs \<Rightarrow> string \<Rightarrow> nat \<Rightarrow> (string \<times> json) list \<Rightarrow> nat \<Rightarrow> bench_path \<Rightarrow> bench_case" where
  "case_stub s inputs key bits info index path =
     (let cnt = si_count inputs key in
      \<lparr>bc_id = case_id path bits key,
       bc_count = cnt, bc_key = key, bc_bits = bits, bc_path = path,
       bc_k1 = (if backend path = ''cuda'' then Some (sw_k1 s) else None),
       bc_seed = sw_seed s, bc_warmup = int (sw_warmups s), bc_in_process = None,
       bc_reps = sw_reps s, bc_trials = sw_trials s,
       bc_payload_bytes = (if bits = 8 then cnt else (cnt + 1) div 2),
       bc_correctness = info, bc_execution_index = index, bc_case_warmup = None,
       bc_runs = [], bc_samples = [], bc_statistics = None, bc_annotation = None, bc_resident = None,
       bc_stage_medians = None, bc_threads = None\<rparr>)"

definition build_case_stubs ::
  "sweep_settings \<Rightarrow> sweep_inputs \<Rightarrow> string \<Rightarrow> nat \<Rightarrow> (string \<times> json) list \<Rightarrow> nat \<Rightarrow> bench_case list" where
  "build_case_stubs s inputs key bits info index =
     map (case_stub s inputs key bits info index) (sw_paths s)"

subsection \<open>Running one path\<close>

definition path_request :: "sweep_settings \<Rightarrow> bench_case \<Rightarrow> bench_path \<Rightarrow> nat \<Rightarrow> nat \<Rightarrow> bench_request" where
  "path_request s c path bits warm =
     \<lparr>rq_count = bc_count c, rq_bits = bits, rq_backend = backend path, rq_extra = extra_args path,
      rq_seed = sw_seed s, rq_warmups = warm, rq_reps = sw_reps s, rq_k1 = sw_k1 s\<rparr>"

definition bench_path_once ::
  "'p sweep_env \<Rightarrow> string \<Rightarrow> string \<Rightarrow> bench_request
     \<Rightarrow> ('p, sweep_exn, (validated_response, run_error option) sum) st" where
  "bench_path_once env binary input_path r = (\<lambda>p.
     case run_bench_process (env_run (se_gate env)) (se_loads env) binary input_path r p of
       (Inl e, p') \<Rightarrow> (Inl (SweepRaised e), p')
     | (Inr (Some v, err), p') \<Rightarrow> (Inr (Inl v), p')
     | (Inr (None, err), p') \<Rightarrow> (Inr (Inr err), p'))"

text \<open>\<open>None\<close> is a \<open>RuntimeError\<close> of the warm-up, which the caller may handle.\<close>

definition sweep_warm_up ::
  "'p sweep_env \<Rightarrow> string \<Rightarrow> string \<Rightarrow> fp \<Rightarrow> string \<Rightarrow> nat \<Rightarrow> ('p, sweep_exn, (nat, run_error option) sum) st" where
  "sweep_warm_up env binary input_path seconds k1 cnt = (\<lambda>p.
     case warm_up_gpu (se_fuel env) (env_run (se_gate env)) (se_loads env) (se_clock env p) binary input_path
            seconds k1 cnt p of
       None \<Rightarrow> (Inl OutOfFuel, p)
     | Some (Inl (WarmupRaised e), p') \<Rightarrow> (Inl (SweepRaised e), p')
     | Some (Inl (WarmupFailed err), p') \<Rightarrow> (Inr (Inr err), p')
     | Some (Inr n, p') \<Rightarrow> (Inr (Inl n), p'))"

subsection \<open>Warm-up of a case group\<close>

text \<open>Python's \<open>error or "benchmark calibration failed"\<close>: an error text is never empty.\<close>

definition calibrate_case ::
  "'p sweep_env \<Rightarrow> sweep_settings \<Rightarrow> string \<Rightarrow> string \<Rightarrow> nat \<Rightarrow> bench_case \<times> bench_path \<Rightarrow> ('p, sweep_exn, bench_case) st" where
  "calibrate_case env s binary input_path bits cp =
     (case cp of (c, path) \<Rightarrow>
        st_bind (bench_path_once env binary input_path (path_request s c path bits (sw_warmups s))) (\<lambda>res.
          case res of
            Inr err \<Rightarrow> st_return (fail_case_execution c ''calibration-warmup'' (se_text env err))
          | Inl v \<Rightarrow>
              let probe = np_median (se_np env) (map sample_value (vr_samples v)) in
              st_bind (st_lift (case in_process_warmups (int (sw_warmups s)) (sw_in_process_seconds s) probe of
                   Inl e \<Rightarrow> Inl (SweepValue e) | Inr n \<Rightarrow> Inr n)) (\<lambda>n.
                st_return (c\<lparr>bc_warmup := n,
                  bc_in_process := Some \<lparr>ip_target = sw_in_process_seconds s, ip_probe_warmup = sw_warmups s,
                     ip_probe_reps = sw_reps s, ip_probe_median = probe, ip_warmup = n\<rparr>\<rparr>))))"

definition calibrate_cases ::
  "'p sweep_env \<Rightarrow> sweep_settings \<Rightarrow> string \<Rightarrow> string \<Rightarrow> nat \<Rightarrow> bench_case list \<Rightarrow> ('p, sweep_exn, bench_case list) st" where
  "calibrate_cases env s binary input_path bits cases =
     (if fp_zero < sw_in_process_seconds s
      then st_traverse (calibrate_case env s binary input_path bits) (zip cases (sw_paths s))
      else st_return cases)"

definition warm_up_case ::
  "'p sweep_env \<Rightarrow> sweep_settings \<Rightarrow> string \<Rightarrow> string \<Rightarrow> nat \<Rightarrow> bench_case list \<Rightarrow> ('p, sweep_exn, bench_case list) st" where
  "warm_up_case env s binary input_path bits cases =
     (if has_cuda s \<and> fp_zero < sw_case_warmup_seconds s then
        st_bind (sweep_warm_up env binary input_path (sw_case_warmup_seconds s) (sw_k1 s) (bc_count (hd cases))) (\<lambda>res.
          case res of
            Inr err \<Rightarrow> st_return (map (\<lambda>c. fail_case_execution c ''gpu-warmup''
                          (''GPU warm-up failed: '' @ se_text env err)) cases)
          | Inl n \<Rightarrow> calibrate_cases env s binary input_path bits (map (\<lambda>c. c\<lparr>bc_case_warmup := Some n\<rparr>) cases))
      else calibrate_cases env s binary input_path bits cases)"

subsection \<open>Trials\<close>

fun st_fold :: "('a \<Rightarrow> 's \<Rightarrow> ('p, 'e, 's) st) \<Rightarrow> 'a list \<Rightarrow> 's \<Rightarrow> ('p, 'e, 's) st" where
  "st_fold f [] s = st_return s"
| "st_fold f (x # xs) s = st_bind (f x s) (st_fold f xs)"

text \<open>The identifiers of an accepted response are an array of integers.\<close>

definition id_list :: "json \<Rightarrow> int list option" where
  "id_list v = (case v of JList xs \<Rightarrow> Some (map (\<lambda>x. case x of JInt z \<Rightarrow> z | _ \<Rightarrow> 0) xs) | _ \<Rightarrow> None)"

definition recorded_run :: "nat \<Rightarrow> nat \<Rightarrow> string list \<Rightarrow> validated_response \<Rightarrow> trial_run" where
  "recorded_run trial pos labels v =
     (let cfg = vr_configuration v in
      \<lparr>tr_trial = trial, tr_position = pos, tr_order = labels,
       tr_rep_ids = get_field cfg ''repetition_invocation_ids'',
       tr_warm_ids = compact_invocation_ids (id_list (get_field cfg ''warmup_invocation_ids'')),
       tr_threads = map_of cfg ''threads'', tr_capture = vr_capture v, tr_samples = vr_samples v,
       tr_stages = concat (map (\<lambda>k. case map_of (vr_payload v) k of None \<Rightarrow> [] | Some x \<Rightarrow> [(k, x)]) STAGE_KEYS)\<rparr>)"

definition run_one_trial ::
  "'p sweep_env \<Rightarrow> sweep_settings \<Rightarrow> string \<Rightarrow> string \<Rightarrow> nat \<Rightarrow> nat \<Rightarrow> string list \<Rightarrow> nat \<times> nat
     \<Rightarrow> bench_case list \<Rightarrow> ('p, sweep_exn, bench_case list) st" where
  "run_one_trial env s binary input_path bits trial labels slot cases =
     (case slot of (pos, i) \<Rightarrow>
        let c = cases ! i; path = sw_paths s ! i in
        if \<not> case_passed c then st_return cases
        else st_bind (bench_path_once env binary input_path (path_request s c path bits (nat (bc_warmup c)))) (\<lambda>res.
          case res of
            Inr err \<Rightarrow> st_return (cases[i := fail_case_execution c ''trial'' (se_text env err)])
          | Inl v \<Rightarrow> st_return (cases[i := c\<lparr>bc_runs := bc_runs c @ [recorded_run trial pos labels v]\<rparr>])))"

definition run_trial ::
  "'p sweep_env \<Rightarrow> sweep_settings \<Rightarrow> string \<Rightarrow> string \<Rightarrow> nat \<Rightarrow> nat \<times> nat list
     \<Rightarrow> bench_case list \<Rightarrow> ('p, sweep_exn, bench_case list) st" where
  "run_trial env s binary input_path bits t cases =
     (case t of (trial, order) \<Rightarrow>
        st_fold (run_one_trial env s binary input_path bits trial (map (\<lambda>i. path_label (sw_paths s ! i)) order))
          (zip [0..<length order] order) cases)"

definition run_trials ::
  "'p sweep_env \<Rightarrow> sweep_settings \<Rightarrow> string \<Rightarrow> string \<Rightarrow> nat \<Rightarrow> nat list list
     \<Rightarrow> bench_case list \<Rightarrow> ('p, sweep_exn, bench_case list) st" where
  "run_trials env s binary input_path bits orders cases =
     st_fold (run_trial env s binary input_path bits) (zip [0..<length orders] orders) cases"

subsection \<open>Statistics of a case group\<close>

definition timed_of :: "trial_run \<Rightarrow> timed_run" where
  "timed_of r = \<lparr>samples_ms = map sample_value (tr_samples r),
     stages = (\<lambda>k. case map_of (tr_stages r) k of Some (JList xs) \<Rightarrow> Some (map sample_value xs) | _ \<Rightarrow> None)\<rparr>"

definition pool_runs :: "numpy_ops \<Rightarrow> bench_case \<Rightarrow> trial_run list \<Rightarrow> (sweep_exn, bench_case) result" where
  "pool_runs np c runs =
     (case compute_case_statistics np (map (\<lambda>r. map sample_value (tr_samples r)) runs) of
        Inl e \<Rightarrow> Inl (SweepValue e)
      | Inr st \<Rightarrow> Inr (c\<lparr>bc_threads := tr_threads (hd runs), bc_samples := concat (map tr_samples runs),
            bc_statistics := Some st, bc_stage_medians := compute_stage_medians np (map timed_of runs)\<rparr>))"

definition case_statistics :: "numpy_ops \<Rightarrow> bench_case \<Rightarrow> (sweep_exn, bench_case) result" where
  "case_statistics np c =
     (if \<not> case_passed c then Inr (c\<lparr>bc_runs := []\<rparr>)
      else case bc_runs c of
        [] \<Rightarrow> Inl (SweepValue (IndexError ''list index out of range''))
      | first # rest \<Rightarrow>
          if list_ex (\<lambda>r. tr_rep_ids r \<noteq> tr_rep_ids first \<or> tr_warm_ids r \<noteq> tr_warm_ids first) rest
          then Inl (DifferentIds (bc_id c))
          else if tr_threads first \<noteq> None \<and> list_ex (\<lambda>r. tr_threads r \<noteq> tr_threads first) (first # rest)
          then Inl (DifferentThreads (bc_id c))
          else pool_runs np c (first # rest))"

definition compute_case_group_statistics ::
  "numpy_ops \<Rightarrow> bench_case list \<Rightarrow> bench_path list \<Rightarrow> (sweep_exn, bench_case list) result" where
  "compute_case_group_statistics np cases paths =
     bindE (traverse (case_statistics np) cases) (\<lambda>cases.
       case compare_case_group np (map bc_statistics cases) paths of
         Inl e \<Rightarrow> Inl (SweepValue e)
       | Inr notes \<Rightarrow> Inr (map2 (\<lambda>c n. c\<lparr>bc_annotation := fst n, bc_resident := snd n\<rparr>) cases notes))"

subsection \<open>Summary rows\<close>

definition SUMMARY_FIELDS :: "string list" where
  "SUMMARY_FIELDS =
     [''count'', ''bits'', ''backend'', ''boundary'', ''transfer_policy'', ''path_label'', ''correctness'', ''warmup'',
      ''reps'', ''trials'', ''median_ms'', ''iqr_ms'', ''trial_median_min_ms'', ''trial_median_max_ms'',
      ''spread_ratio'', ''spread_p90_p10'', ''stable'', ''unstable_rev2'', ''baseline'', ''speedup_vs_c'',
      ''speedup_low'', ''speedup_high'', ''speedup_ci_low'', ''speedup_ci_high'', ''verdict'',
      ''boundary_inversion'', ''direction_supported'', ''magnitude_supported'', ''claim_supported_rev2'',
      ''input_family'', ''input_key'']"

definition empty_summary_row :: "(string \<times> json) list" where
  "empty_summary_row = map (\<lambda>f. (f, JStr [])) SUMMARY_FIELDS"

definition csv_flag :: "bool option \<Rightarrow> string" where
  "csv_flag v = (case v of None \<Rightarrow> [] | Some True \<Rightarrow> ''true'' | Some False \<Rightarrow> ''false'')"

text \<open>Both kinds of rows: \<open>failed_row\<close> and the start of a passed one differ in \<open>correctness\<close> alone.\<close>

definition base_row :: "sweep_settings \<Rightarrow> bench_case \<Rightarrow> string \<Rightarrow> (string \<times> json) list" where
  "base_row s c outcome =
     dict_update empty_summary_row
       [(''count'', JInt (int (bc_count c))), (''input_family'', JStr (sw_family s)), (''input_key'', JStr (bc_key c)),
        (''bits'', JInt (int (bc_bits c))), (''backend'', JStr (backend (bc_path c))),
        (''boundary'', JStr (boundary (bc_path c))), (''transfer_policy'', JStr (policy (bc_path c))),
        (''path_label'', JStr (path_label (bc_path c))), (''correctness'', JStr outcome),
        (''warmup'', JInt (bc_warmup c)), (''reps'', JInt (int (sw_reps s))), (''trials'', JInt (int (sw_trials s)))]"

text \<open>The numeric columns of a passed row with their precisions; \<open>None\<close> is an absent or null entry.\<close>

definition numeric_fields :: "case_stats \<Rightarrow> annotation option \<Rightarrow> (string \<times> fp option \<times> nat) list" where
  "numeric_fields st note =
     (let vs = map_option vs_cpu note; get = (\<lambda>f. case vs of None \<Rightarrow> None | Some sp \<Rightarrow> f sp) in
      [(''median_ms'', map_option median_ms (pooled st), 6), (''iqr_ms'', map_option iqr_ms (pooled st), 6),
       (''trial_median_min_ms'', Some (trial_median_min_ms st), 6), (''trial_median_max_ms'', Some (trial_median_max_ms st), 6),
       (''spread_ratio'', Some (spread_ratio st), 4), (''spread_p90_p10'', Some (spread_p90_p10 st), 4),
       (''speedup_vs_c'', get point, 4), (''speedup_low'', get speedup_low, 4), (''speedup_high'', get speedup_high, 4),
       (''speedup_ci_low'', get speedup_ci_low, 4), (''speedup_ci_high'', get speedup_ci_high, 4)])"

definition verdict_text :: "verdict \<Rightarrow> string" where
  "verdict_text v = (case v of Faster \<Rightarrow> ''faster'' | Slower \<Rightarrow> ''slower'' | Inconclusive \<Rightarrow> ''inconclusive''
     | ComparatorVerdict \<Rightarrow> ''comparator'')"

definition claim_flag :: "(claims \<Rightarrow> bool) \<Rightarrow> annotation \<Rightarrow> json" where
  "claim_flag f note = JStr (csv_flag (case support note of NoClaims \<Rightarrow> None | Claims k \<Rightarrow> Some (f k)))"

definition note_fields :: "annotation \<Rightarrow> (string \<times> json) list" where
  "note_fields note =
     [(''boundary_inversion'', JStr (csv_flag (Some (inversion note)))), (''baseline'', JStr (base note)),
      (''verdict'', JStr (verdict_text (verdict (vs_cpu note)))),
      (''direction_supported'', claim_flag direction_supported note),
      (''magnitude_supported'', claim_flag magnitude_supported note),
      (''claim_supported_rev2'', claim_flag claim_supported_rev2 note)]"

definition stats_fields :: "'p sweep_env \<Rightarrow> case_stats \<Rightarrow> annotation option \<Rightarrow> (string \<times> json) list" where
  "stats_fields env st note =
     concat (map (\<lambda>(dest, v, precision). case v of
          None \<Rightarrow> []
        | Some x \<Rightarrow> if fp_finite x then [(dest, JStr (se_format env precision x))] else []) (numeric_fields st note))
     @ [(''stable'', JStr (csv_flag (Some (stable st)))), (''unstable_rev2'', JStr (csv_flag (Some (unstable_rev2 st))))]
     @ (case note of None \<Rightarrow> [] | Some n \<Rightarrow> note_fields n)"

definition summary_row :: "'p sweep_env \<Rightarrow> sweep_settings \<Rightarrow> bench_case \<Rightarrow> (string \<times> json) list" where
  "summary_row env s c =
     (if \<not> case_passed c then base_row s c ''failed''
      else dict_update (base_row s c ''passed'')
        (case bc_statistics c of None \<Rightarrow> [] | Some st \<Rightarrow> stats_fields env st (bc_annotation c)))"

subsection \<open>A case group\<close>

definition group_run :: "sweep_settings \<Rightarrow> sweep_inputs \<Rightarrow> string \<Rightarrow> string \<Rightarrow> string \<Rightarrow> nat \<Rightarrow> record_run" where
  "group_run s inputs binary tmp key bits =
     \<lparr>rr_binary = binary, rr_input = si_file inputs key, rr_tmp = tmp, rr_count = int (si_count inputs key),
      rr_bits = int bits, rr_seed = sw_seed s, rr_tensor = 0, rr_invocation = 0, rr_k1 = sw_k1 s\<rparr>"

definition gate_group ::
  "'p sweep_env \<Rightarrow> sweep_settings \<Rightarrow> record_run \<Rightarrow> ('p, sweep_exn, gate_report) st" where
  "gate_group env s r = (\<lambda>p.
     case verify_correctness (se_gate env) (se_sum env) r (sw_backends s) (Some (sw_paths s)) p of
       (Inl e, p') \<Rightarrow> (Inl (SweepGate e), p')
     | (Inr report, p') \<Rightarrow> (Inr report, p'))"

definition report_passed :: "gate_report \<Rightarrow> bool" where
  "report_passed report = (case report of Passed b \<Rightarrow> True | Failed f \<Rightarrow> False)"

definition time_group ::
  "'p sweep_env \<Rightarrow> sweep_settings \<Rightarrow> string \<Rightarrow> string \<Rightarrow> nat \<Rightarrow> nat list list \<Rightarrow> bool
     \<Rightarrow> bench_case list \<Rightarrow> ('p, sweep_exn, bench_case list) st" where
  "time_group env s binary input_path bits orders passed cases =
     (if passed then
        st_bind (warm_up_case env s binary input_path bits cases) (run_trials env s binary input_path bits orders)
      else st_return cases)"

definition sweep_group ::
  "'p sweep_env \<Rightarrow> sweep_settings \<Rightarrow> sweep_inputs \<Rightarrow> string \<Rightarrow> string \<Rightarrow> nat list list
     \<Rightarrow> nat \<times> string \<times> nat \<Rightarrow> ('p, sweep_exn, bench_case list) st" where
  "sweep_group env s inputs binary tmp orders job =
     (case job of (index, key, bits) \<Rightarrow>
        st_bind (gate_group env s (group_run s inputs binary tmp key bits)) (\<lambda>report.
          let info = gate_details (se_exn_text env) (se_show env) report;
              stubs = build_case_stubs s inputs key bits info index
          in st_bind (time_group env s binary (si_file inputs key) bits orders (report_passed report) stubs) (\<lambda>cases.
               st_lift (compute_case_group_statistics (se_np env) cases (sw_paths s)))))"

subsection \<open>Order, summary and manifest\<close>

text \<open>A dictionary \<open>{x: i for i, x in enumerate(xs)}\<close>: the last position wins.\<close>

definition rank_of :: "'a list \<Rightarrow> 'a \<Rightarrow> nat" where
  "rank_of xs x = (case map_of (rev (zip xs [0..<length xs])) x of None \<Rightarrow> length xs | Some i \<Rightarrow> i)"

definition case_key :: "sweep_settings \<Rightarrow> sweep_inputs \<Rightarrow> bench_case \<Rightarrow> nat list" where
  "case_key s inputs c =
     [bc_count c, rank_of (si_keys inputs) (bc_key c), bc_bits c,
      rank_of (map path_label (sw_paths s)) (path_label (bc_path c))]"

definition largest_input :: "sweep_inputs \<Rightarrow> (sweep_exn, string) result" where
  "largest_input inputs =
     (case si_keys inputs of
        [] \<Rightarrow> Inl (SweepValue (ValueError ''max() arg is an empty sequence''))
      | k # ks \<Rightarrow> Inr (foldl (\<lambda>best key. if si_count inputs best < si_count inputs key then key else best) k ks))"

record sweep_order =
  so_orders :: "nat list list"
  so_cases :: "(string \<times> nat) list"
  so_gpu_warmup :: "nat option"

definition order_and_warm_up ::
  "'p sweep_env \<Rightarrow> sweep_settings \<Rightarrow> sweep_inputs \<Rightarrow> string \<Rightarrow> ('p, sweep_exn, sweep_order) st" where
  "order_and_warm_up env s inputs binary =
     st_bind (st_lift (case trial_orders (length (sw_paths s)) (sw_trials s) of
          Inl e \<Rightarrow> Inl (SweepDesign e) | Inr orders \<Rightarrow> Inr (map (map nat) orders))) (\<lambda>orders.
     let cases = case_order (se_permute env) (si_keys inputs) (sw_bits s) (sw_case_order_seed s) in
     st_bind (st_lift (largest_input inputs)) (\<lambda>largest.
       if has_cuda s \<and> fp_zero < sw_gpu_warmup_seconds s then
         st_bind (sweep_warm_up env binary (si_file inputs largest) (sw_gpu_warmup_seconds s) (sw_k1 s)
                    (si_count inputs largest)) (\<lambda>res.
           case res of
             Inr err \<Rightarrow> st_fail (SweepWarmup err)
           | Inl n \<Rightarrow> st_return \<lparr>so_orders = orders, so_cases = cases, so_gpu_warmup = Some n\<rparr>)
       else st_return \<lparr>so_orders = orders, so_cases = cases, so_gpu_warmup = None\<rparr>))"

definition total_cases :: "sweep_settings \<Rightarrow> sweep_inputs \<Rightarrow> nat" where
  "total_cases s inputs = length (si_keys inputs) * length (sw_bits s) * length (sw_paths s)"

record run_conditions =
  rc_evidence :: bool
  rc_reasons :: "string list"

record sweep_manifest =
  mf_conditions :: run_conditions
  mf_cases :: "string list"
  mf_all_passed :: bool
  mf_trial_design :: string
  mf_trial_orders :: "string list list"
  mf_case_order :: "(string \<times> nat \<times> nat) list"
  mf_paths :: "string list"

definition failed_case_ids :: "bench_case list \<Rightarrow> string list" where
  "failed_case_ids cases = map bc_id (filter (\<lambda>c. \<not> case_passed c) cases)"

definition final_conditions :: "run_conditions \<Rightarrow> bench_case list \<Rightarrow> run_conditions" where
  "final_conditions conditions cases =
     (let failed = failed_case_ids cases in
      \<lparr>rc_evidence = (rc_evidence conditions \<and> failed = []),
       rc_reasons = rc_reasons conditions
         @ (if failed \<noteq> [] then [''failed benchmark cases: '' @ join '', '' failed] else [])\<rparr>)"

definition sweep_manifest_of ::
  "sweep_settings \<Rightarrow> sweep_inputs \<Rightarrow> run_conditions \<Rightarrow> sweep_order \<Rightarrow> bench_case list \<Rightarrow> sweep_manifest" where
  "sweep_manifest_of s inputs conditions order cases =
     \<lparr>mf_conditions = final_conditions conditions cases, mf_cases = map bc_id cases,
      mf_all_passed = (failed_case_ids cases = []), mf_trial_design = trial_design (length (sw_paths s)),
      mf_trial_orders = map (map (\<lambda>i. path_label (sw_paths s ! i))) (so_orders order),
      mf_case_order = map (\<lambda>(k, b). (k, si_count inputs k, b)) (so_cases order),
      mf_paths = map path_label (sw_paths s)\<rparr>"

record sweep_result =
  sr_cases :: "bench_case list"
  sr_rows :: "(string \<times> json) list list"
  sr_manifest :: sweep_manifest

text \<open>\<open>Sweep.run\<close> from the generated inputs on: the groups in the shuffled order, then the sorted outputs.\<close>

definition sweep_run ::
  "'p sweep_env \<Rightarrow> sweep_settings \<Rightarrow> sweep_inputs \<Rightarrow> run_conditions \<Rightarrow> string \<Rightarrow> string \<Rightarrow> ('p, sweep_exn, sweep_result) st" where
  "sweep_run env s inputs conditions binary tmp =
     st_bind (order_and_warm_up env s inputs binary) (\<lambda>order.
     st_bind (st_traverse (sweep_group env s inputs binary tmp (so_orders order))
                (zip [0..<length (so_cases order)] (so_cases order))) (\<lambda>groups.
       let cases = sort_key (case_key s inputs) (concat groups) in
       st_return \<lparr>sr_cases = cases, sr_rows = map (summary_row env s) cases,
                  sr_manifest = sweep_manifest_of s inputs conditions order cases\<rparr>))"

subsection \<open>What a case keeps and what it gains\<close>

text \<open>A case without the fields that warm-up and trials write.\<close>

definition fixed_part :: "bench_case \<Rightarrow> bench_case" where
  "fixed_part c = c\<lparr>bc_runs := [], bc_correctness := [], bc_warmup := 0, bc_in_process := None, bc_case_warmup := None\<rparr>"

text \<open>The invariant of the trials: a case that still passes has run \<open>n\<close> of them, each with all its repetitions.\<close>

definition ran :: "sweep_settings \<Rightarrow> nat \<Rightarrow> bench_case \<Rightarrow> bool" where
  "ran s n c \<longleftrightarrow> (case_passed c \<longrightarrow> length (bc_runs c) = n \<and> (\<forall>r \<in> set (bc_runs c). length (tr_samples r) = sw_reps s))"

lemma fixed_part_simps [simp]:
  "bc_id (fixed_part c) = bc_id c" "bc_count (fixed_part c) = bc_count c" "bc_key (fixed_part c) = bc_key c"
  "bc_bits (fixed_part c) = bc_bits c" "bc_path (fixed_part c) = bc_path c"
  "bc_statistics (fixed_part c) = bc_statistics c" "bc_samples (fixed_part c) = bc_samples c"
  by (simp_all add: fixed_part_def)

lemma fixed_part_updates [simp]:
  "fixed_part (c\<lparr>bc_runs := rs\<rparr>) = fixed_part c" "fixed_part (c\<lparr>bc_correctness := k\<rparr>) = fixed_part c"
  "fixed_part (c\<lparr>bc_warmup := w, bc_in_process := ip\<rparr>) = fixed_part c" "fixed_part (c\<lparr>bc_case_warmup := cw\<rparr>) = fixed_part c"
  by (simp_all add: fixed_part_def)

lemma fail_fixed [simp]: "fixed_part (fail_case_execution c phase err) = fixed_part c"
  by (simp add: fail_case_execution_def Let_def)

lemma fail_not_passed [simp]: "\<not> case_passed (fail_case_execution c phase err)"
  by (simp add: fail_case_execution_def case_passed_def Let_def)

lemma fail_runs [simp]: "bc_runs (fail_case_execution c phase err) = bc_runs c"
  by (simp add: fail_case_execution_def Let_def)

lemma bench_path_once_accepted:
  assumes "bench_path_once env binary input_path r p = (Inr (Inl v), p')"
  shows "length (vr_samples v) = rq_reps r" "\<exists>payload. validate_bench_response payload r = Inr v"
proof -
  obtain outcome err where "read_response (se_loads env) r outcome = Inr (Some v, err)"
    using assms by (auto simp: bench_path_once_def run_bench_process_def split: sum.splits prod.splits option.splits if_splits)
  then obtain payload where "validate_bench_response payload r = Inr v" using read_response_accepted by blast
  then show "length (vr_samples v) = rq_reps r" "\<exists>payload. validate_bench_response payload r = Inr v"
    by (blast elim: validate_parts)+
qed

lemma run_one_trial_inv:
  assumes "run_one_trial env s binary input_path bits trial labels (pos, i) cases p = (Inr cases', p')" "i < length cases"
  shows "length cases' = length cases" "j \<noteq> i \<Longrightarrow> cases' ! j = cases ! j"
    "fixed_part (cases' ! i) = fixed_part (cases ! i)" "ran s n (cases ! i) \<Longrightarrow> ran s (Suc n) (cases' ! i)"
proof -
  consider (skip) "\<not> case_passed (cases ! i)" "cases' = cases"
    | (fail) err where "cases' = cases[i := fail_case_execution (cases ! i) ''trial'' err]"
    | (run) v where "case_passed (cases ! i)"
        "cases' = cases[i := (cases ! i)\<lparr>bc_runs := bc_runs (cases ! i) @ [recorded_run trial pos labels v]\<rparr>]"
        "length (vr_samples v) = sw_reps s"
  proof (cases "case_passed (cases ! i)")
    case True
    then have "st_bind (bench_path_once env binary input_path
        (path_request s (cases ! i) (sw_paths s ! i) bits (nat (bc_warmup (cases ! i))))) (\<lambda>res. case res of
            Inr err \<Rightarrow> st_return (cases[i := fail_case_execution (cases ! i) ''trial'' (se_text env err)])
          | Inl v \<Rightarrow> st_return (cases[i := (cases ! i)\<lparr>bc_runs := bc_runs (cases ! i) @ [recorded_run trial pos labels v]\<rparr>])) p
        = (Inr cases', p')"
      using assms(1) by (simp add: run_one_trial_def Let_def)
    then obtain res q where b: "bench_path_once env binary input_path
        (path_request s (cases ! i) (sw_paths s ! i) bits (nat (bc_warmup (cases ! i)))) p = (Inr res, q)"
      and k: "(case res of
            Inr err \<Rightarrow> st_return (cases[i := fail_case_execution (cases ! i) ''trial'' (se_text env err)])
          | Inl v \<Rightarrow> st_return (cases[i := (cases ! i)\<lparr>bc_runs := bc_runs (cases ! i) @ [recorded_run trial pos labels v]\<rparr>])) q
        = (Inr cases' :: (sweep_exn, bench_case list) result, p')"
      by (rule st_bindE)
    show thesis
    proof (cases res)
      case (Inl v)
      have "length (vr_samples v) = sw_reps s"
        using bench_path_once_accepted(1) [OF b [unfolded Inl]] by (simp add: path_request_def)
      then show thesis using that(3) True k Inl by (auto simp: st_return_Inr)
    next
      case (Inr err)
      then show thesis using that(2) k by (auto simp: st_return_Inr)
    qed
  next
    case False
    then show thesis using that(1) assms(1) by (auto simp: run_one_trial_def Let_def st_return_Inr)
  qed
  note split = this
  show "length cases' = length cases" by (rule split) auto
  show "j \<noteq> i \<Longrightarrow> cases' ! j = cases ! j" by (rule split) auto
  show "fixed_part (cases' ! i) = fixed_part (cases ! i)" by (rule split) (use assms(2) in auto)
  show "ran s (Suc n) (cases' ! i)" if "ran s n (cases ! i)"
  proof (rule split)
    fix v
    assume r: "case_passed (cases ! i)" "length (vr_samples v) = sw_reps s"
      "cases' = cases[i := (cases ! i)\<lparr>bc_runs := bc_runs (cases ! i) @ [recorded_run trial pos labels v]\<rparr>]"
    then show ?thesis using that assms(2) by (auto simp: ran_def recorded_run_def Let_def)
  qed (use that assms(2) in \<open>auto simp: ran_def\<close>)
qed

lemma run_slots_inv:
  assumes "st_fold (run_one_trial env s binary input_path bits trial labels) slots cases p = (Inr cases', p')"
    and "distinct (map snd slots)" "\<forall>i \<in> snd ` set slots. i < length cases" "j < length cases"
  shows "length cases' = length cases \<and> fixed_part (cases' ! j) = fixed_part (cases ! j)
    \<and> (ran s n (cases ! j) \<longrightarrow> ran s (if j \<in> snd ` set slots then Suc n else n) (cases' ! j))"
  using assms
proof (induction slots arbitrary: cases p n)
  case (Cons slot slots)
  obtain pos i where slot: "slot = (pos, i)" by (cases slot)
  obtain mid q where one: "run_one_trial env s binary input_path bits trial labels (pos, i) cases p = (Inr mid, q)"
    and rest: "st_fold (run_one_trial env s binary input_path bits trial labels) slots mid q = (Inr cases', p')"
    using Cons.prems(1) unfolding slot by (auto elim: st_bindE)
  have i: "i < length cases" "i \<notin> snd ` set slots" using Cons.prems(2,3) slot by auto
  note o = run_one_trial_inv [OF one i(1)]
  have IH: "length cases' = length mid \<and> fixed_part (cases' ! j) = fixed_part (mid ! j)
    \<and> (ran s m (mid ! j) \<longrightarrow> ran s (if j \<in> snd ` set slots then Suc m else m) (cases' ! j))" for m
    using Cons.IH [OF rest] Cons.prems(2-4) o(1) slot by simp
  show ?case
  proof (cases "j = i")
    case True
    then show ?thesis using IH [of "Suc n"] o(1,3) o(4) [of n] i(2) slot by auto
  next
    case False
    then show ?thesis using IH [of n] o(1) o(2) [of j] slot by auto
  qed
qed (auto simp: st_return_Inr)

lemma run_trials_inv:
  assumes "st_fold (run_trial env s binary input_path bits) ts cases p = (Inr cases', p')"
    and "\<forall>ord \<in> snd ` set ts. distinct ord \<and> set ord = {..<length cases}" "j < length cases"
  shows "length cases' = length cases \<and> fixed_part (cases' ! j) = fixed_part (cases ! j)
    \<and> (ran s n (cases ! j) \<longrightarrow> ran s (n + length ts) (cases' ! j))"
  using assms
proof (induction ts arbitrary: cases p n)
  case (Cons t ts)
  obtain trial ord where t: "t = (trial, ord)" by (cases t)
  obtain mid q where one: "run_trial env s binary input_path bits (trial, ord) cases p = (Inr mid, q)"
    and rest: "st_fold (run_trial env s binary input_path bits) ts mid q = (Inr cases', p')"
    using Cons.prems(1) unfolding t by (auto elim: st_bindE)
  have ord: "distinct ord" "set ord = {..<length cases}" using Cons.prems(2) t by auto
  have snds: "map snd (zip [0..<length ord] ord) = ord" by simp
  then have img: "snd ` set (zip [0..<length ord] ord) = set ord" by (metis list.set_map)
  have o: "length mid = length cases \<and> fixed_part (mid ! j) = fixed_part (cases ! j)
    \<and> (ran s n (cases ! j) \<longrightarrow> ran s (Suc n) (mid ! j))"
    using run_slots_inv [OF one [unfolded run_trial_def prod.case], of j n] ord Cons.prems(3) snds img by simp
  have "length cases' = length mid \<and> fixed_part (cases' ! j) = fixed_part (mid ! j)
    \<and> (ran s (Suc n) (mid ! j) \<longrightarrow> ran s (Suc n + length ts) (cases' ! j))"
    using Cons.IH [OF rest, of "Suc n"] Cons.prems(2,3) o by simp
  then show ?case using o by auto
qed (simp add: st_return_Inr)

subsection \<open>Warm-up and statistics\<close>

definition untimed :: "bench_case \<Rightarrow> bench_case \<Rightarrow> bool" where
  "untimed c c' \<longleftrightarrow> fixed_part c' = fixed_part c \<and> bc_runs c' = bc_runs c"

lemma untimed_refl [simp]: "untimed c c"
  by (simp add: untimed_def)

lemma list_all2_untimed_refl: "list_all2 untimed cs cs"
  by (simp add: list_all2_refl)

lemma st_traverse_all2:
  assumes "st_traverse f xs p = (Inr ys, p')" "\<And>x y p p'. f x p = (Inr y, p') \<Longrightarrow> P x y"
  shows "list_all2 P xs ys"
  using assms(1)
proof (induction xs arbitrary: ys p)
  case (Cons x xs)
  obtain y q where y: "f x p = (Inr y, q)"
    and r: "st_bind (st_traverse f xs) (\<lambda>ys. st_return (y # ys)) q = (Inr ys, p')"
    using Cons.prems by (auto elim: st_bindE)
  obtain zs q' where "st_traverse f xs q = (Inr zs, q')" "ys = y # zs"
    using r by (auto simp: st_return_Inr elim: st_bindE)
  then show ?case using Cons.IH [of q zs] assms(2) [OF y] r by (auto simp: st_return_Inr elim: st_bindE)
qed (simp add: st_return_Inr)

lemma calibrate_case_untimed:
  "calibrate_case env s binary input_path bits cp p = (Inr c', p') \<Longrightarrow> untimed (fst cp) c'"
  by (auto simp: calibrate_case_def untimed_def Let_def st_return_Inr elim!: st_bindE split: prod.split_asm sum.split_asm)

lemma calibrate_cases_untimed:
  assumes "calibrate_cases env s binary input_path bits cases p = (Inr cases', p')" "length cases = length (sw_paths s)"
  shows "list_all2 untimed cases cases'"
proof (cases "fp_zero < sw_in_process_seconds s")
  case True
  then have "list_all2 (\<lambda>cp c'. untimed (fst cp) c') (zip cases (sw_paths s)) cases'"
    using assms(1) calibrate_case_untimed by (auto simp: calibrate_cases_def intro!: st_traverse_all2)
  then have "list_all2 untimed (map fst (zip cases (sw_paths s))) cases'" by (simp add: list_all2_map1)
  then show ?thesis using assms(2) by simp
qed (use assms in \<open>auto simp: calibrate_cases_def st_return_Inr list_all2_untimed_refl\<close>)

lemma warm_up_case_untimed:
  assumes "warm_up_case env s binary input_path bits cases p = (Inr cases', p')" "length cases = length (sw_paths s)"
  shows "list_all2 untimed cases cases'"
proof (cases "has_cuda s \<and> fp_zero < sw_case_warmup_seconds s")
  case True
  then have "st_bind (sweep_warm_up env binary input_path (sw_case_warmup_seconds s) (sw_k1 s) (bc_count (hd cases))) (\<lambda>res.
          case res of
            Inr err \<Rightarrow> st_return (map (\<lambda>c. fail_case_execution c ''gpu-warmup''
                          (''GPU warm-up failed: '' @ se_text env err)) cases)
          | Inl n \<Rightarrow> calibrate_cases env s binary input_path bits (map (\<lambda>c. c\<lparr>bc_case_warmup := Some n\<rparr>) cases)) p
      = (Inr cases', p')" using assms(1) unfolding warm_up_case_def by (simp only: if_True simp_thms)
  then obtain res q where res: "(case res of
            Inr err \<Rightarrow> st_return (map (\<lambda>c. fail_case_execution c ''gpu-warmup''
                          (''GPU warm-up failed: '' @ se_text env err)) cases)
          | Inl n \<Rightarrow> calibrate_cases env s binary input_path bits (map (\<lambda>c. c\<lparr>bc_case_warmup := Some n\<rparr>) cases)) q
      = (Inr cases', p')" by (rule st_bindE)
  show ?thesis
  proof (cases res)
    case (Inr err)
    then have "cases' = map (\<lambda>c. fail_case_execution c ''gpu-warmup'' (''GPU warm-up failed: '' @ se_text env err)) cases"
      using res by (simp add: st_return_Inr)
    then show ?thesis by (simp add: list_all2_map2 untimed_def list_all2_refl)
  next
    case (Inl n)
    then have "list_all2 untimed (map (\<lambda>c. c\<lparr>bc_case_warmup := Some n\<rparr>) cases) cases'"
      using res assms(2) by (auto intro: calibrate_cases_untimed)
    then show ?thesis unfolding list_all2_map1 by (rule list.rel_mono_strong) (simp add: untimed_def)
  qed
qed (use assms calibrate_cases_untimed in \<open>auto simp: warm_up_case_def\<close>)

lemma stubs_nth:
  "i < length (sw_paths s) \<Longrightarrow>
     build_case_stubs s inputs key bits info index ! i = case_stub s inputs key bits info index (sw_paths s ! i)"
  by (simp add: build_case_stubs_def)

lemma length_stubs [simp]: "length (build_case_stubs s inputs key bits info index) = length (sw_paths s)"
  by (simp add: build_case_stubs_def)

text \<open>A group after its timing: the stubs' fixed parts, and complete trials wherever a case still passes.\<close>

lemma time_group_inv:
  assumes "time_group env s binary input_path bits orders passed cases p = (Inr cases', p')"
    and "\<forall>ord \<in> set orders. distinct ord \<and> set ord = {..<length (sw_paths s)}" "length cases = length (sw_paths s)"
    and "\<forall>c \<in> set cases. bc_runs c = []" "\<not> passed \<Longrightarrow> \<forall>c \<in> set cases. \<not> case_passed c" "j < length cases"
  shows "length cases' = length cases" "fixed_part (cases' ! j) = fixed_part (cases ! j)" "ran s (length orders) (cases' ! j)"
proof -
  have "length cases' = length cases \<and> fixed_part (cases' ! j) = fixed_part (cases ! j) \<and> ran s (length orders) (cases' ! j)"
  proof (cases passed)
    case True
    then have "st_bind (warm_up_case env s binary input_path bits cases) (run_trials env s binary input_path bits orders) p
        = (Inr cases', p')" using assms(1) by (simp add: time_group_def)
    then obtain mid q where w: "warm_up_case env s binary input_path bits cases p = (Inr mid, q)"
      and t: "run_trials env s binary input_path bits orders mid q = (Inr cases', p')" by (rule st_bindE)
    have u: "list_all2 untimed cases mid" using warm_up_case_untimed [OF w assms(3)] .
    then have len: "length mid = length cases" and uj: "untimed (cases ! j) (mid ! j)"
      using assms(6) by (simp_all add: list_all2_lengthD list_all2_nthD)
    have "bc_runs (mid ! j) = []" using uj assms(4,6) by (simp add: untimed_def)
    then have "ran s 0 (mid ! j)" by (simp add: ran_def)
    moreover have "snd ` set (zip [0..<length orders] orders) = set orders" by (metis list.set_map map_snd_zip length_upt minus_nat.diff_0)
    ultimately show ?thesis
      using run_trials_inv [OF t [unfolded run_trials_def], of j 0] assms(2,3,6) uj len by (simp add: untimed_def)
  next
    case False
    then show ?thesis using assms by (auto simp: time_group_def st_return_Inr ran_def)
  qed
  then show "length cases' = length cases" "fixed_part (cases' ! j) = fixed_part (cases ! j)" "ran s (length orders) (cases' ! j)"
    by simp_all
qed

lemma case_statistics_Inr:
  assumes "case_statistics np c = Inr c'" "bc_statistics c = None" "bc_samples c = []"
  shows "bc_path c' = bc_path c" "bc_key c' = bc_key c" "bc_bits c' = bc_bits c" "bc_count c' = bc_count c"
    "case_passed c' = case_passed c" "case_passed c' \<longleftrightarrow> bc_statistics c' \<noteq> None" "bc_id c' = bc_id c"
    "case_passed c' \<Longrightarrow> bc_runs c' = bc_runs c" "\<not> case_passed c' \<Longrightarrow> bc_runs c' = []"
    "bc_samples c' = concat (map tr_samples (bc_runs c'))"
    "\<forall>r \<in> set (bc_runs c'). \<forall>r' \<in> set (bc_runs c'). tr_rep_ids r = tr_rep_ids r' \<and> tr_warm_ids r = tr_warm_ids r'"
  using assms
  by (auto simp: case_statistics_def case_passed_def pool_runs_def list_ex_iff split: if_splits list.splits sum.splits)

subsection \<open>A complete group\<close>

text \<open>What a finished case record says of itself.\<close>

definition complete_case :: "sweep_settings \<Rightarrow> nat \<Rightarrow> bench_case \<Rightarrow> bool" where
  "complete_case s n c \<longleftrightarrow>
     (case_passed c \<longleftrightarrow> bc_statistics c \<noteq> None)
     \<and> (case_passed c \<longrightarrow> length (bc_runs c) = n \<and> (\<forall>r \<in> set (bc_runs c). length (tr_samples r) = sw_reps s))
     \<and> (\<not> case_passed c \<longrightarrow> bc_runs c = [])
     \<and> bc_samples c = concat (map tr_samples (bc_runs c))
     \<and> (\<forall>r \<in> set (bc_runs c). \<forall>r' \<in> set (bc_runs c). tr_rep_ids r = tr_rep_ids r' \<and> tr_warm_ids r = tr_warm_ids r')"

lemma complete_annotated [simp]:
  "complete_case s n (c\<lparr>bc_annotation := a, bc_resident := b\<rparr>) = complete_case s n c"
  by (simp add: complete_case_def case_passed_def)

lemma group_statistics_Inr:
  assumes "compute_case_group_statistics np cases paths = Inr out"
  obtains mid anns where "list_all2 (\<lambda>c c'. case_statistics np c = Inr c') cases mid"
    "length anns = length mid" "length mid = length paths" "out = map2 (\<lambda>c n. c\<lparr>bc_annotation := fst n, bc_resident := snd n\<rparr>) mid anns"
proof -
  obtain mid where m: "traverse (case_statistics np) cases = Inr mid"
    and "(case compare_case_group np (map bc_statistics mid) paths of
         Inl e \<Rightarrow> Inl (SweepValue e)
       | Inr anns \<Rightarrow> Inr (map2 (\<lambda>c n. c\<lparr>bc_annotation := fst n, bc_resident := snd n\<rparr>) mid anns)) = Inr out"
    using assms unfolding compute_case_group_statistics_def bindE_eq_Inr by blast
  then obtain anns where n: "compare_case_group np (map bc_statistics mid) paths = Inr anns"
    "out = map2 (\<lambda>c n. c\<lparr>bc_annotation := fst n, bc_resident := snd n\<rparr>) mid anns"
    by (auto split: sum.splits)
  have "length anns = length mid" "length mid = length paths"
    using n(1) by (auto simp: compare_case_group_def Let_def split: if_splits)
  then show thesis using that m n(2) by (simp add: traverse_Inr_iff)
qed

lemma sweep_group_parts:
  assumes "sweep_group env s inputs binary tmp orders (index, key, bits) p = (Inr out, p')"
  obtains report q cases q' where
    "gate_group env s (group_run s inputs binary tmp key bits) p = (Inr report, q)"
    "time_group env s binary (si_file inputs key) bits orders (report_passed report)
       (build_case_stubs s inputs key bits (gate_details (se_exn_text env) (se_show env) report) index) q = (Inr cases, q')"
    "compute_case_group_statistics (se_np env) cases (sw_paths s) = Inr out" "q' = p'"
proof -
  obtain report q where g: "gate_group env s (group_run s inputs binary tmp key bits) p = (Inr report, q)"
    and k: "(let info = gate_details (se_exn_text env) (se_show env) report;
              stubs = build_case_stubs s inputs key bits info index
          in st_bind (time_group env s binary (si_file inputs key) bits orders (report_passed report) stubs) (\<lambda>cases.
               st_lift (compute_case_group_statistics (se_np env) cases (sw_paths s)))) q = (Inr out, p')"
    using assms unfolding sweep_group_def prod.case by (rule st_bindE)
  obtain cases q' where "time_group env s binary (si_file inputs key) bits orders (report_passed report)
       (build_case_stubs s inputs key bits (gate_details (se_exn_text env) (se_show env) report) index) q = (Inr cases, q')"
    "st_lift (compute_case_group_statistics (se_np env) cases (sw_paths s)) q' = (Inr out, p')"
    using k unfolding Let_def by (rule st_bindE)
  then show thesis using that g by (simp add: st_lift_Inr)
qed

lemma sweep_group_nth:
  assumes "sweep_group env s inputs binary tmp orders (index, key, bits) p = (Inr out, p')"
    and "\<forall>ord \<in> set orders. distinct ord \<and> set ord = {..<length (sw_paths s)}"
  shows "length out = length (sw_paths s)"
    and "j < length (sw_paths s) \<Longrightarrow> complete_case s (length orders) (out ! j) \<and> bc_path (out ! j) = sw_paths s ! j
      \<and> bc_key (out ! j) = key \<and> bc_bits (out ! j) = bits \<and> bc_count (out ! j) = si_count inputs key
      \<and> bc_id (out ! j) = case_id (sw_paths s ! j) bits key"
proof -
  obtain report q cases q' where
    t: "time_group env s binary (si_file inputs key) bits orders (report_passed report)
       (build_case_stubs s inputs key bits (gate_details (se_exn_text env) (se_show env) report) index) q = (Inr cases, q')" and
    st: "compute_case_group_statistics (se_np env) cases (sw_paths s) = Inr out"
    using sweep_group_parts [OF assms(1)] by metis
  let ?stubs = "build_case_stubs s inputs key bits (gate_details (se_exn_text env) (se_show env) report) index"
  obtain mid anns where m: "list_all2 (\<lambda>c c'. case_statistics (se_np env) c = Inr c') cases mid"
    "length anns = length mid" "length mid = length (sw_paths s)" "out = map2 (\<lambda>c n. c\<lparr>bc_annotation := fst n, bc_resident := snd n\<rparr>) mid anns"
    using st by (rule group_statistics_Inr)
  have e: "\<forall>c \<in> set ?stubs. bc_runs c = []" by (auto simp: build_case_stubs_def case_stub_def Let_def)
  have np: "\<forall>c \<in> set ?stubs. \<not> case_passed c" if "\<not> report_passed report"
    using that gate_details_status [of "se_exn_text env" "se_show env" report]
    by (auto simp: build_case_stubs_def case_stub_def Let_def case_passed_def report_passed_def split: gate_report.splits)
  note inv = time_group_inv [OF t assms(2) length_stubs e np, simplified length_stubs]
  have len: "length cases = length (sw_paths s)" using m(3) list_all2_lengthD [OF m(1)] by simp
  show "length out = length (sw_paths s)" using m by simp
  show "complete_case s (length orders) (out ! j) \<and> bc_path (out ! j) = sw_paths s ! j
      \<and> bc_key (out ! j) = key \<and> bc_bits (out ! j) = bits \<and> bc_count (out ! j) = si_count inputs key
      \<and> bc_id (out ! j) = case_id (sw_paths s ! j) bits key"
    if j: "j < length (sw_paths s)"
  proof -
    have lm: "j < length cases" "j < length mid" using len j list_all2_lengthD [OF m(1)] by auto
    note cs = list_all2_nthD [OF m(1) lm(1)]
    have stub: "?stubs ! j = case_stub s inputs key bits (gate_details (se_exn_text env) (se_show env) report) index (sw_paths s ! j)"
      by (rule stubs_nth [OF j])
    have fx: "fixed_part (cases ! j) = fixed_part (?stubs ! j)" and rn: "ran s (length orders) (cases ! j)"
      using inv(2,3) [OF _ j] by auto
    have f: "bc_path (cases ! j) = sw_paths s ! j" "bc_key (cases ! j) = key" "bc_bits (cases ! j) = bits"
      "bc_count (cases ! j) = si_count inputs key" "bc_statistics (cases ! j) = None" "bc_samples (cases ! j) = []"
      "bc_id (cases ! j) = case_id (sw_paths s ! j) bits key"
      using arg_cong [OF fx, of bc_path] arg_cong [OF fx, of bc_key] arg_cong [OF fx, of bc_bits]
        arg_cong [OF fx, of bc_count] arg_cong [OF fx, of bc_statistics] arg_cong [OF fx, of bc_samples]
        arg_cong [OF fx, of bc_id] stub
      by (simp_all add: case_stub_def Let_def)
    note c = case_statistics_Inr [OF cs f(5,6)]
    have "complete_case s (length orders) (mid ! j)"
      unfolding complete_case_def
    proof (intro conjI)
      show "case_passed (mid ! j) \<longrightarrow> length (bc_runs (mid ! j)) = length orders
          \<and> (\<forall>r \<in> set (bc_runs (mid ! j)). length (tr_samples r) = sw_reps s)"
      proof
        assume p: "case_passed (mid ! j)"
        then have "case_passed (cases ! j)" by (simp only: c(5))
        then show "length (bc_runs (mid ! j)) = length orders
          \<and> (\<forall>r \<in> set (bc_runs (mid ! j)). length (tr_samples r) = sw_reps s)"
          using rn unfolding ran_def c(8) [OF p] by blast
      qed
      show "\<not> case_passed (mid ! j) \<longrightarrow> bc_runs (mid ! j) = []" using c(9) by (rule impI)
    qed (rule c(6), rule c(10), rule c(11))
    moreover have "out ! j = (mid ! j)\<lparr>bc_annotation := fst (anns ! j), bc_resident := snd (anns ! j)\<rparr>"
      using m(2,4) lm(2) by simp
    ultimately show ?thesis using c(1-4,7) f(1-4,7) by simp
  qed
qed

subsection \<open>Properties\<close>

definition expand_ids :: "compact_ids \<Rightarrow> int list option" where
  "expand_ids k = (case k of NoIds \<Rightarrow> None | IdList xs \<Rightarrow> Some xs | Repeated x n \<Rightarrow> Some (replicate n x)
     | Contiguous x y n \<Rightarrow> Some (map (\<lambda>i. x + int i) [0..<n]))"

text \<open>
  C25: The compact form of an invocation identifier list loses nothing: expanding a repeated or
  contiguous run, or a plain list, gives the identifiers back, and an absent list stays absent.
\<close>

theorem compact_ids_lossless: "expand_ids (compact_invocation_ids ids) = ids"
proof (cases ids)
  case (Some xs)
  show ?thesis
  proof (cases xs)
    case (Cons y ys)
    have "list_all (\<lambda>i. i = y) (y # ys) \<Longrightarrow> replicate (length (y # ys)) y = y # ys"
      using replicate_length_same [of "y # ys" y] by (simp add: list_all_iff)
    then show ?thesis using Some Cons
      by (auto simp: compact_invocation_ids_def expand_ids_def simp del: upt.simps)
  qed (simp add: Some compact_invocation_ids_def expand_ids_def)
qed (simp add: compact_invocation_ids_def expand_ids_def)

text \<open>
  C24: Every case record of a finished group is complete. There is one record per selected path, in
  the order of the paths; a record that passed has statistics and one run per trial, each with all
  repetitions and the same invocation identifiers, its samples being theirs in order; a record that failed
  the gate, the warm-up or any trial keeps no run, no sample and no statistics.
\<close>

theorem finished_group_complete:
  assumes "sweep_group env s inputs binary tmp orders (index, key, bits) p = (Inr out, p')"
    and "\<forall>ord \<in> set orders. distinct ord \<and> set ord = {..<length (sw_paths s)}"
  shows "map bc_path out = sw_paths s \<and> (\<forall>c \<in> set out. bc_key c = key \<and> bc_bits c = bits \<and> complete_case s (length orders) c)"
proof -
  have len: "length out = length (sw_paths s)" by (rule sweep_group_nth(1) [OF assms])
  note at = sweep_group_nth(2) [OF assms]
  have "map bc_path out = sw_paths s" by (rule nth_equalityI) (simp_all add: len at)
  moreover have "bc_key c = key \<and> bc_bits c = bits \<and> complete_case s (length orders) c" if "c \<in> set out" for c
    using that at len by (metis in_set_conv_nth)
  ultimately show ?thesis by blast
qed

definition idle_env :: "nat sweep_env" where
  "idle_env = \<lparr>se_gate = \<lparr>env_run = \<lambda>p argv. (TimeoutExpired, Suc p), env_read = \<lambda>p path. None\<rparr>,
     se_loads = \<lambda>s. None, se_clock = \<lambda>p n. FNaN, se_fuel = 0,
     se_np = \<lparr>np_median = hd, np_percentile = \<lambda>xs q. hd xs, np_mean = hd, np_std = hd,
        np_draws = \<lambda>a b c d. ([], [])\<rparr>,
     se_sum = hd, se_permute = \<lambda>seed n. [0..<n], se_text = \<lambda>e. [], se_format = \<lambda>n x. [], se_exn_text = \<lambda>e. [], se_show = \<lambda>x. []\<rparr>"

definition idle_settings :: sweep_settings where
  "idle_settings = \<lparr>sw_counts = [16], sw_bits = [8], sw_backends = [''cpu''], sw_paths = [COMPARATOR], sw_warmups = 1, sw_reps = 2,
     sw_trials = 2, sw_seed = 42, sw_case_order_seed = 7, sw_gpu_warmup_seconds = fp_zero, sw_case_warmup_seconds = fp_zero,
     sw_in_process_seconds = fp_zero, sw_family = ''dense'', sw_k1 = ''reference''\<rparr>"

definition idle_inputs :: sweep_inputs where
  "idle_inputs = \<lparr>si_keys = [''n16''], si_file = \<lambda>k. k, si_count = \<lambda>k. 16\<rparr>"

lemma idle_gate:
  "verify_correctness (se_gate idle_env) hd r [''cpu''] (Some [COMPARATOR]) p = (Inr (Failed GateTimedOut), Suc p)"
  by (simp add: verify_correctness_def gate_phases_def check_cpu_reference_def require_zero_def gate_compress_def
      gate_exec_def st_bind_def gate_outcome_def idle_env_def Let_def)

lemma idle_group:
  "\<exists>out. sweep_group idle_env idle_settings inputs binary tmp [[0], [0]] (0, key, 8) p = (Inr out, Suc p)"
proof -
  have g: "gate_group idle_env idle_settings r p = (Inr (Failed GateTimedOut), Suc p)" for r p
    using idle_gate [of r p] by (simp add: gate_group_def idle_settings_def) (simp add: idle_env_def)
  have "compare_case_group np [None] [COMPARATOR] = Inr [(None, None)]" for np
    by (simp add: compare_case_group_def Let_def median_missing_def annotate_def resident_comparison_def stats_get_def
        path_simps path_label_def path_key_def)
  moreover have "\<not> case_passed (case_stub idle_settings inputs key 8 (gate_details x y (Failed GateTimedOut)) 0 COMPARATOR)" for x y
    using gate_details_status [of x y "Failed GateTimedOut"] by (simp add: case_stub_def case_passed_def Let_def)
  moreover have "sw_paths idle_settings = [COMPARATOR]" by (simp add: idle_settings_def)
  moreover have "bc_statistics (case_stub idle_settings inputs key 8 info 0 COMPARATOR) = None" for info
    by (simp add: case_stub_def Let_def)
  ultimately show ?thesis
    by (simp add: sweep_group_def g st_bind_def Let_def time_group_def report_passed_def st_return_def st_lift_def
        compute_case_group_statistics_def build_case_stubs_def case_statistics_def)
qed

lemma finished_group_complete_witness:
  "\<exists>out. sweep_group idle_env idle_settings idle_inputs ''b'' ''t'' [[0], [0]] (0, ''n16'', 8) 0 = (Inr out, 1)
     \<and> map bc_path out = [COMPARATOR]"
proof -
  obtain out where o: "sweep_group idle_env idle_settings idle_inputs ''b'' ''t'' [[0], [0]] (0, ''n16'', 8) 0 = (Inr out, 1)"
    using idle_group [of idle_inputs "''b''" "''t''" "''n16''" 0] by auto
  have "\<forall>ord \<in> set [[0], [0]]. distinct ord \<and> set ord = {..<length (sw_paths idle_settings)}"
    by (auto simp: idle_settings_def)
  from finished_group_complete [OF o this] show ?thesis using o by (auto simp: idle_settings_def)
qed

text \<open>The groups of a run, the sorted cases and the orders of its trials.\<close>

lemma st_traverse_set:
  assumes "st_traverse f xs p = (Inr ys, p')" "y \<in> set ys"
  obtains x q q' where "x \<in> set xs" "f x q = (Inr y, q')"
proof -
  have "list_all2 (\<lambda>x y. \<exists>q q'. f x q = (Inr y, q')) xs ys"
    by (rule st_traverse_all2 [OF assms(1)]) blast
  then have "\<exists>x \<in> set xs. \<exists>q q'. f x q = (Inr y, q')"
    using assms(2) by (fastforce simp: list_all2_conv_all_nth in_set_conv_nth)
  then show thesis using that by blast
qed

lemma st_traverse_length: "st_traverse f xs p = (Inr ys, p') \<Longrightarrow> length ys = length xs"
  using st_traverse_all2 [of f xs p ys p' "\<lambda>x y. True"] by (simp add: list_all2_lengthD)

lemma sweep_run_parts:
  assumes "sweep_run env s inputs conditions binary tmp p = (Inr res, p')"
  obtains order q groups q' where "order_and_warm_up env s inputs binary p = (Inr order, q)"
    "st_traverse (sweep_group env s inputs binary tmp (so_orders order))
       (zip [0..<length (so_cases order)] (so_cases order)) q = (Inr groups, q')"
    "sr_cases res = sort_key (case_key s inputs) (concat groups)"
    "sr_rows res = map (summary_row env s) (sr_cases res)"
    "sr_manifest res = sweep_manifest_of s inputs conditions order (sr_cases res)"
proof -
  obtain order q where o: "order_and_warm_up env s inputs binary p = (Inr order, q)"
    and k: "st_bind (st_traverse (sweep_group env s inputs binary tmp (so_orders order))
                (zip [0..<length (so_cases order)] (so_cases order))) (\<lambda>groups.
       let cases = sort_key (case_key s inputs) (concat groups) in
       st_return \<lparr>sr_cases = cases, sr_rows = map (summary_row env s) cases,
                  sr_manifest = sweep_manifest_of s inputs conditions order cases\<rparr>) q = (Inr res, p')"
    using assms unfolding sweep_run_def by (rule st_bindE)
  obtain groups q' where "st_traverse (sweep_group env s inputs binary tmp (so_orders order))
                (zip [0..<length (so_cases order)] (so_cases order)) q = (Inr groups, q')"
    "(let cases = sort_key (case_key s inputs) (concat groups) in
       st_return \<lparr>sr_cases = cases, sr_rows = map (summary_row env s) cases,
                  sr_manifest = sweep_manifest_of s inputs conditions order cases\<rparr>) q'
       = (Inr res :: (sweep_exn, sweep_result) result, p')"
    using k by (rule st_bindE)
  then show thesis using that o by (auto simp: Let_def st_return_Inr)
qed

lemma order_facts:
  assumes "order_and_warm_up env s inputs binary p = (Inr order, q)"
  shows "length (so_orders order) = sw_trials s"
    and "\<forall>ord \<in> set (so_orders order). distinct ord \<and> set ord = {..<length (sw_paths s)}"
    and "so_cases order = case_order (se_permute env) (si_keys inputs) (sw_bits s) (sw_case_order_seed s)"
proof -
  have "\<exists>orders. trial_orders (length (sw_paths s)) (sw_trials s) = Inr orders \<and> so_orders order = map (map nat) orders
      \<and> so_cases order = case_order (se_permute env) (si_keys inputs) (sw_bits s) (sw_case_order_seed s)"
    using assms
    by (auto simp: order_and_warm_up_def Let_def st_lift_Inr st_return_Inr st_fail_Inr elim!: st_bindE
        split: sum.split_asm if_split_asm)
  then obtain orders where o: "trial_orders (length (sw_paths s)) (sw_trials s) = Inr orders"
    "so_orders order = map (map nat) orders"
    "so_cases order = case_order (se_permute env) (si_keys inputs) (sw_bits s) (sw_case_order_seed s)" by blast
  have rows: "length orders = sw_trials s" "\<forall>row \<in> set orders. is_order (length (sw_paths s)) row"
    using trial_orders_rows [of "length (sw_paths s)" "sw_trials s"] o(1) by auto
  have "distinct (map nat row) \<and> set (map nat row) = {..<length (sw_paths s)}" if "is_order (length (sw_paths s)) row" for row
  proof -
    have r: "distinct row" "set row = int ` {..<length (sw_paths s)}" using that by (auto simp: is_order_def)
    then have "inj_on nat (set row)" by (auto simp: inj_on_def)
    moreover have "nat ` set row = {..<length (sw_paths s)}" using r(2) by (auto simp: image_image)
    ultimately show ?thesis using r(1) by (simp add: distinct_map)
  qed
  then show "\<forall>ord \<in> set (so_orders order). distinct ord \<and> set ord = {..<length (sw_paths s)}"
    using rows(2) o(2) by auto
  show "length (so_orders order) = sw_trials s" using rows(1) o(2) by simp
  show "so_cases order = case_order (se_permute env) (si_keys inputs) (sw_bits s) (sw_case_order_seed s)" by (rule o(3))
qed

lemma sweep_cases_complete:
  assumes "sweep_run env s inputs conditions binary tmp p = (Inr res, p')" "c \<in> set (sr_cases res)"
  shows "complete_case s (sw_trials s) c"
proof -
  obtain order q groups q' where o: "order_and_warm_up env s inputs binary p = (Inr order, q)"
    and t: "st_traverse (sweep_group env s inputs binary tmp (so_orders order))
       (zip [0..<length (so_cases order)] (so_cases order)) q = (Inr groups, q')"
    and c: "sr_cases res = sort_key (case_key s inputs) (concat groups)"
    using sweep_run_parts [OF assms(1)] by metis
  note f = order_facts [OF o]
  obtain g where g: "g \<in> set groups" "c \<in> set g" using assms(2) c by auto
  obtain job a b where "sweep_group env s inputs binary tmp (so_orders order) job a = (Inr g, b)"
    using st_traverse_set [OF t g(1)] by metis
  then obtain index key bits where sg: "sweep_group env s inputs binary tmp (so_orders order) (index, key, bits) a = (Inr g, b)"
    by (cases job) auto
  obtain j where "j < length g" "c = g ! j" using g(2) by (auto simp: in_set_conv_nth)
  then show ?thesis using sweep_group_nth [OF sg f(2)] f(1) by simp
qed

lemma sweep_cases_count:
  assumes "sweep_run env s inputs conditions binary tmp p = (Inr res, p')"
    and "\<And>seed n. length (se_permute env seed n) = n"
  shows "length (sr_cases res) = total_cases s inputs"
proof -
  obtain order q groups q' where o: "order_and_warm_up env s inputs binary p = (Inr order, q)"
    and t: "st_traverse (sweep_group env s inputs binary tmp (so_orders order))
       (zip [0..<length (so_cases order)] (so_cases order)) q = (Inr groups, q')"
    and c: "sr_cases res = sort_key (case_key s inputs) (concat groups)"
    using sweep_run_parts [OF assms(1)] by metis
  note f = order_facts [OF o]
  have "length g = length (sw_paths s)" if g: "g \<in> set groups" for g
  proof -
    obtain job a b where "sweep_group env s inputs binary tmp (so_orders order) job a = (Inr g, b)"
      using st_traverse_set [OF t g] by metis
    then obtain index key bits where "sweep_group env s inputs binary tmp (so_orders order) (index, key, bits) a = (Inr g, b)"
      by (cases job) auto
    then show ?thesis by (rule sweep_group_nth(1) [OF _ f(2)])
  qed
  then have "length (concat groups) = length groups * length (sw_paths s)"
    by (induction groups) (auto simp: algebra_simps)
  moreover have "length groups = length (so_cases order)" using st_traverse_length [OF t] by simp
  moreover have "length (so_cases order) = length (si_keys inputs) * length (sw_bits s)"
  proof -
    have "length (concat (map (\<lambda>key. map (\<lambda>bits. (key, bits)) (sw_bits s)) (si_keys inputs)))
        = length (si_keys inputs) * length (sw_bits s)"
      by (induction "si_keys inputs") (auto simp: length_concat comp_def sum_list_triv)
    then show ?thesis by (simp add: f(3) case_order_def Let_def assms(2))
  qed
  ultimately show ?thesis by (simp add: c total_cases_def)
qed

text \<open>
  C23: The manifest calls a run evidence only when every case is complete. If the manifest of a
  finished sweep says so, the run's conditions did before it, every case passed its gate, its
  warm-up and all its trials and has statistics over one run per trial, and no failure is listed;
  otherwise some condition had failed before or some case did, and then its identifier is in the reasons. The
  summary has one row per case, the cases are sorted by count, input, width and path, and they are as
  many as the run plan announces (when the shuffled order has the length it is asked for).
\<close>

theorem sweep_evidence_complete:
  assumes "sweep_run env s inputs conditions binary tmp p = (Inr res, p')"
  shows "(rc_evidence (mf_conditions (sr_manifest res)) \<longleftrightarrow>
        rc_evidence conditions \<and> (\<forall>c \<in> set (sr_cases res). case_passed c))
    \<and> (\<forall>c \<in> set (sr_cases res). complete_case s (sw_trials s) c)
    \<and> (mf_all_passed (sr_manifest res) \<longleftrightarrow> (\<forall>c \<in> set (sr_cases res). bc_statistics c \<noteq> None))
    \<and> mf_cases (sr_manifest res) = map bc_id (sr_cases res)
    \<and> length (sr_rows res) = length (sr_cases res) \<and> sorted (map (case_key s inputs) (sr_cases res))
    \<and> ((\<forall>seed n. length (se_permute env seed n) = n) \<longrightarrow> length (sr_cases res) = total_cases s inputs)"
proof -
  obtain order where r: "sr_rows res = map (summary_row env s) (sr_cases res)"
    "sr_manifest res = sweep_manifest_of s inputs conditions order (sr_cases res)"
    and so: "sorted (map (case_key s inputs) (sr_cases res))"
    using sweep_run_parts [OF assms] by (metis sorted_sort_key)
  have comp: "complete_case s (sw_trials s) c" if "c \<in> set (sr_cases res)" for c
    using sweep_cases_complete [OF assms that] .
  have none: "failed_case_ids (sr_cases res) = [] \<longleftrightarrow> (\<forall>c \<in> set (sr_cases res). case_passed c)"
    by (auto simp: failed_case_ids_def filter_empty_conv)
  have stats: "(\<forall>c \<in> set (sr_cases res). case_passed c) \<longleftrightarrow> (\<forall>c \<in> set (sr_cases res). bc_statistics c \<noteq> None)"
    using comp unfolding complete_case_def by blast
  show ?thesis
    using comp none stats so sweep_cases_count [OF assms] by (simp add: r sweep_manifest_of_def final_conditions_def Let_def)
qed

lemma sweep_evidence_complete_witness:
  "\<exists>res p'. sweep_run idle_env idle_settings idle_inputs \<lparr>rc_evidence = True, rc_reasons = []\<rparr> ''b'' ''t'' 0 = (Inr res, p')
     \<and> length (sr_rows res) = length (sr_cases res) \<and> (rc_evidence (mf_conditions (sr_manifest res)) \<longleftrightarrow>
        (\<forall>c \<in> set (sr_cases res). case_passed c))"
proof -
  have "trial_orders 1 2 = Inr [[0], [0]]"
    by (simp add: trial_orders_def trial_design_def MAX_PERMUTATION_PATHS_def Let_def upt_rec numeral_2_eq_2)
  then have o: "order_and_warm_up idle_env idle_settings idle_inputs ''b'' 0
      = (Inr \<lparr>so_orders = [[0], [0]], so_cases = [(''n16'', 8)], so_gpu_warmup = None\<rparr>, 0)"
    by (simp add: order_and_warm_up_def idle_settings_def idle_inputs_def idle_env_def st_bind_def st_lift_def case_order_def
        largest_input_def has_cuda_def st_return_def Let_def)
  obtain out where "sweep_group idle_env idle_settings idle_inputs ''b'' ''t'' [[0], [0]] (0, ''n16'', 8) 0 = (Inr out, 1)"
    using idle_group [of idle_inputs "''b''" "''t''" "''n16''" 0] by auto
  then have "\<exists>res p'. sweep_run idle_env idle_settings idle_inputs \<lparr>rc_evidence = True, rc_reasons = []\<rparr> ''b'' ''t'' 0 = (Inr res, p')"
    by (simp add: sweep_run_def o st_bind_def st_return_def Let_def)
  then obtain res p' where r:
    "sweep_run idle_env idle_settings idle_inputs \<lparr>rc_evidence = True, rc_reasons = []\<rparr> ''b'' ''t'' 0 = (Inr res, p')" by blast
  show ?thesis using sweep_evidence_complete [OF r] r by auto
qed

end
