(* ===== verification/Host.thy ===== *)
theory Host
  imports Design Json
begin

unbundle bit_operations_syntax

text \<open>
  Host control of \<open>src/stoquant/host.py\<close>: the outputs of the probes, the readiness check that a sweep
  must pass to count as evidence, and the affinity mask every benchmark process runs under.
  System calls are arguments: what a probe returns or raises, and the mask of the process as
  a state.
\<close>

definition EXCLUDED_LOGICAL_CPUS :: "nat list" where "EXCLUDED_LOGICAL_CPUS = [0, 1]"
definition MIN_AVAILABLE_PHYSICAL_BYTES :: int where "MIN_AVAILABLE_PHYSICAL_BYTES = 4 * 1024 ^ 3"
definition BENIGN_CLOCK_EVENTS :: int where "BENIGN_CLOCK_EVENTS = 1"

definition CLOCK_EVENT_REASONS :: "(int \<times> string) list" where
  "CLOCK_EVENT_REASONS =
     [(0x1, ''GpuIdle''), (0x2, ''ApplicationsClocksSetting''), (0x4, ''SwPowerCap''), (0x8, ''HwSlowdown''),
      (0x10, ''SyncBoost''), (0x20, ''SwThermalSlowdown''), (0x40, ''HwThermalSlowdown''),
      (0x80, ''HwPowerBrakeSlowdown''), (0x100, ''DisplayClockSetting'')]"

subsection \<open>Probe outputs\<close>

record finished =
  fin_code :: int
  fin_out :: string
  fin_err :: string

definition checked_probe_output :: "finished \<Rightarrow> string \<Rightarrow> (py_exn, string) result" where
  "checked_probe_output proc name =
     (if fin_code proc \<noteq> 0 then
        let detail = strip (if fin_err proc = [] then fin_out proc else fin_err proc);
            detail = (if detail = [] then ''no diagnostic output'' else detail)
        in Inl (RuntimeError (name @ '' exited with status '' @ str_int (fin_code proc) @ '': '' @ detail))
      else if strip (fin_err proc) \<noteq> [] then Inl (RuntimeError (name @ '' wrote to stderr: '' @ strip (fin_err proc)))
      else Inr (fin_out proc))"

text \<open>\<open>json.loads\<close> is an argument; its failure carries the decoder's message.\<close>

definition parse_json_array :: "(string \<Rightarrow> (string, json) result) \<Rightarrow> string \<Rightarrow> string \<Rightarrow> (py_exn, json list) result" where
  "parse_json_array loads output name =
     (case loads output of
        Inl msg \<Rightarrow> Inl (RuntimeError (name @ '' returned unparseable JSON: '' @ msg))
      | Inr (JList xs) \<Rightarrow> Inr xs
      | Inr _ \<Rightarrow> Inl (RuntimeError (name @ '' returned unparseable JSON: expected an array'')))"

record memory_status =
  total_bytes :: int
  available_bytes :: int
  used_percent :: fp

definition physical_memory_status :: "int \<Rightarrow> int \<Rightarrow> (py_exn, memory_status) result" where
  "physical_memory_status tot avail =
     (if tot \<le> 0 \<or> avail < 0 \<or> tot < avail
      then Inl (ValueError ''physical-memory probe returned invalid byte counts'')
      else Inr \<lparr>total_bytes = tot, available_bytes = avail,
        used_percent = fp_div binary64 (fp_mul binary64 (fp_of_rat binary64 False (of_int (tot - avail))) (fp_of_nat 100))
                          (fp_of_rat binary64 False (of_int tot))\<rparr>)"

definition checked_uptime :: "fp \<Rightarrow> (py_exn, fp) result" where
  "checked_uptime uptime =
     (if \<not> fp_finite uptime \<or> uptime < fp_zero then Inl (ValueError ''uptime probe returned an invalid value'')
      else Inr uptime)"

text \<open>\<open>str.split()\<close> and \<open>str.isdecimal\<close> on ASCII text.\<close>

fun split_words :: "string \<Rightarrow> string \<Rightarrow> string list" where
  "split_words word [] = (if word = [] then [] else [rev word])"
| "split_words word (c # cs) =
     (if is_space c then (if word = [] then split_words [] cs else rev word # split_words [] cs)
      else split_words (c # word) cs)"

definition is_decimal :: "string \<Rightarrow> bool" where
  "is_decimal s \<longleftrightarrow> s \<noteq> [] \<and> list_all (\<lambda>c. digit_value c \<noteq> None) s"

definition positive_pid :: "json \<Rightarrow> bool" where
  "positive_pid v = (case v of JInt z \<Rightarrow> 0 < z | _ \<Rightarrow> False)"

definition list_processes :: "bool \<Rightarrow> (string \<Rightarrow> (string, json) result) \<Rightarrow> finished \<Rightarrow> (py_exn, json list) result" where
  "list_processes nt loads proc =
     (if nt then
        bindE (checked_probe_output proc ''list_processes'') (\<lambda>out.
        bindE (parse_json_array loads (strip out) ''list_processes'') (\<lambda>ids.
          if list_ex (\<lambda>pid. \<not> positive_pid pid) ids
          then Inl (RuntimeError ''list_processes returned an unparseable process ID'')
          else Inr ids))
      else if fin_code proc = 1 \<and> strip (fin_err proc) = [] \<and> strip (fin_out proc) = [] then Inr []
      else
        bindE (checked_probe_output proc ''list_processes'') (\<lambda>out.
          let pids = split_words [] out in
          if list_ex (\<lambda>pid. \<not> is_decimal pid) pids
          then Inl (RuntimeError (''list_processes returned unparseable output: '' @ strip out))
          else Inr (map (\<lambda>s. JInt (case py_int s of None \<Rightarrow> 0 | Some z \<Rightarrow> z)) pids)))"

subsection \<open>Facts\<close>

text \<open>
  A probe returns a value or raises; the text of an exception, its type name and detail, is
  an argument. A failure is recorded under the probe's name, and the fallback takes the value's place.
\<close>

type_synonym 'a probed = "'a \<times> (string \<times> json) list"

definition probe :: "(py_exn \<Rightarrow> string) \<Rightarrow> string \<Rightarrow> (py_exn, 'a) result \<Rightarrow> 'a \<Rightarrow> (string \<times> json) list \<Rightarrow> 'a probed" where
  "probe exn_text name call fallback failures =
     (case call of Inr x \<Rightarrow> (x, failures) | Inl e \<Rightarrow> (fallback, dict_set failures name (JStr (exn_text e))))"

record machine_probes =
  mp_gpu_state :: "(py_exn, json) result"
  mp_git :: "(py_exn, json) result"
  mp_memory :: "(py_exn, memory_status) result"
  mp_pids :: "(py_exn, json list) result"
  mp_power_plan :: "(py_exn, string) result"
  mp_hags :: "(py_exn, string) result"
  mp_uptime :: "(py_exn, fp) result"

definition memory_items :: "memory_status \<Rightarrow> json" where
  "memory_items m = JObj [(''total_bytes'', JInt (total_bytes m)), (''available_bytes'', JInt (available_bytes m)),
     (''used_percent'', JFloat (used_percent m))]"

definition object_items :: "json \<Rightarrow> (string \<times> json) list option" where
  "object_items v = (case v of JObj items \<Rightarrow> Some items | _ \<Rightarrow> None)"

definition gpu_facts :: "(py_exn \<Rightarrow> string) \<Rightarrow> machine_probes \<Rightarrow> (string \<times> json) list probed" where
  "gpu_facts exn_text m =
     (case probe exn_text ''query_gpu_state'' (mp_gpu_state m) (JObj []) [] of
        (v, failures) \<Rightarrow> (case object_items v of
           Some items \<Rightarrow> (items, failures)
         | None \<Rightarrow> ([], dict_set failures ''query_gpu_state'' (JStr ''returned an unparseable result''))))"

definition git_facts ::
  "(py_exn \<Rightarrow> string) \<Rightarrow> machine_probes \<Rightarrow> json option \<Rightarrow> (string \<times> json) list \<Rightarrow> json list probed" where
  "git_facts exn_text m git_prov failures =
     (case (case git_prov of Some v \<Rightarrow> (v, failures)
            | None \<Rightarrow> probe exn_text ''collect_git_provenance'' (mp_git m) (JObj []) failures) of
        (v, failures) \<Rightarrow>
          (case object_items v of
             Some items \<Rightarrow>
               (case get_field items ''dirty_files'' of
                  JList files \<Rightarrow> (files, failures)
                | _ \<Rightarrow> ([JStr ''<git status unavailable>''],
                        dict_set failures ''collect_git_provenance'' (JStr ''returned an unparseable result'')))
           | None \<Rightarrow> ([JStr ''<git status unavailable>''],
                dict_set failures ''collect_git_provenance'' (JStr ''returned an unparseable result''))))"

definition probe_readiness_facts ::
  "(py_exn \<Rightarrow> string) \<Rightarrow> machine_probes \<Rightarrow> json option \<Rightarrow> (string \<times> json) list" where
  "probe_readiness_facts exn_text m git_prov =
     (let (gpu, failures) = gpu_facts exn_text m;
          (dirty, failures) = git_facts exn_text m git_prov failures;
          (memory, failures) = probe exn_text ''physical_memory_status'' (map_sum id memory_items (mp_memory m)) (JObj []) failures;
          (pids, failures) = probe exn_text ''list_processes'' (mp_pids m) [] failures;
          (plan, failures) = probe exn_text ''query_power_plan'' (mp_power_plan m) ''unavailable'' failures;
          (hags, failures) = probe exn_text ''query_hags'' (mp_hags m) ''unavailable'' failures;
          (uptime, context) = probe exn_text ''uptime_seconds'' (map_sum id JFloat (mp_uptime m)) JNull []
      in [(''physical_memory'', memory), (''stoquant_pids'', JList pids), (''git_dirty_files'', JList dirty),
          (''gpu_clock_event_reasons'', get_field gpu ''clocks_event_reasons.active''),
          (''power_plan'', JStr plan), (''hags_hwschmode'', JStr hags), (''uptime_seconds'', uptime)]
         @ (if failures \<noteq> [] then [(''probe_failures'', JObj failures)] else [])
         @ (if context \<noteq> [] then [(''context_probe_failures'', JObj context)] else []))"

subsection \<open>The readiness check\<close>

text \<open>\<open>int(s, 16)\<close> on ASCII text, with its optional prefix.\<close>

definition hex_value :: "char \<Rightarrow> nat option" where
  "hex_value c =
     (let n = of_char c in
      if 48 \<le> n \<and> n \<le> (57::nat) then Some (n - 48)
      else if 97 \<le> n \<and> n \<le> 102 then Some (n - 87)
      else if 65 \<le> n \<and> n \<le> 70 then Some (n - 55) else None)"

fun hex_digits :: "nat \<Rightarrow> bool \<Rightarrow> string \<Rightarrow> nat option" where
  "hex_digits acc after_digit [] = (if after_digit then Some acc else None)"
| "hex_digits acc after_digit (c # cs) =
     (case hex_value c of
        Some d \<Rightarrow> hex_digits (16 * acc + d) True cs
      | None \<Rightarrow> if c = CHR ''_'' \<and> after_digit then hex_digits acc False cs else None)"

definition hex_body :: "string \<Rightarrow> nat option" where
  "hex_body s =
     (if starts_with ''0x'' s \<or> starts_with ''0X'' s
      then (case drop 2 s of [] \<Rightarrow> None | c # cs \<Rightarrow>
              if c = CHR ''_'' then hex_digits 0 False cs else hex_digits 0 False (c # cs))
      else hex_digits 0 False s)"

definition py_int16 :: "string \<Rightarrow> int option" where
  "py_int16 s =
     (case strip s of
        [] \<Rightarrow> None
      | c # cs \<Rightarrow>
          if c = CHR ''-'' then map_option (\<lambda>n. - int n) (hex_body cs)
          else if c = CHR ''+'' then map_option int (hex_body cs)
          else map_option int (hex_body (c # cs)))"

datatype readiness_failure =
    UnparseableFailures
  | ProbeFailed string json
  | InvalidMemory
  | LowMemory int
  | AlreadyRunning json
  | NoClockReasons
  | ClockEvents int "string list"

definition truthy :: "json \<Rightarrow> bool" where
  "truthy v = (case v of JNull \<Rightarrow> False | JBool b \<Rightarrow> b | JInt z \<Rightarrow> z \<noteq> 0 | JFloat x \<Rightarrow> \<not> fp_eq x fp_zero
     | JStr s \<Rightarrow> s \<noteq> [] | JList xs \<Rightarrow> xs \<noteq> [] | JObj items \<Rightarrow> items \<noteq> [])"

text \<open>\<open>facts.get("probe_failures", {})\<close>: the recorded failures in the order of their names, and the names.\<close>

definition failure_report :: "(string \<times> json) list \<Rightarrow> readiness_failure list \<times> string set" where
  "failure_report facts =
     (case (case map_of facts ''probe_failures'' of None \<Rightarrow> JObj [] | Some v \<Rightarrow> v) of
        JObj items \<Rightarrow> (map (\<lambda>(name, detail). ProbeFailed name detail) (sort_key fst items), set (map fst items))
      | _ \<Rightarrow> ([UnparseableFailures], {}))"

definition memory_counts :: "json \<Rightarrow> (int \<times> int) option" where
  "memory_counts v =
     (case v of
        JObj m \<Rightarrow> (case (get_field m ''total_bytes'', get_field m ''available_bytes'') of
            (JInt tot, JInt avail) \<Rightarrow>
              if tot \<le> 0 \<or> avail < 0 \<or> tot < avail then None else Some (tot, avail)
          | _ \<Rightarrow> None)
      | _ \<Rightarrow> None)"

definition memory_failures :: "(string \<times> json) list \<Rightarrow> string set \<Rightarrow> readiness_failure list" where
  "memory_failures facts failed =
     (case memory_counts (get_field facts ''physical_memory'') of
        None \<Rightarrow> if ''physical_memory_status'' \<in> failed then [] else [InvalidMemory]
      | Some (tot, avail) \<Rightarrow> if avail < MIN_AVAILABLE_PHYSICAL_BYTES then [LowMemory avail] else [])"

definition clock_reasons :: "json \<Rightarrow> int option" where
  "clock_reasons v = (case v of JStr s \<Rightarrow> py_int16 s | _ \<Rightarrow> None)"

definition clock_failures :: "json \<Rightarrow> string set \<Rightarrow> readiness_failure list" where
  "clock_failures v failed =
     (case clock_reasons v of
        None \<Rightarrow> if ''query_gpu_state'' \<in> failed then [] else [NoClockReasons]
      | Some reasons \<Rightarrow>
          let active = reasons AND NOT BENIGN_CLOCK_EVENTS in
          if active \<noteq> 0
          then [ClockEvents active (map snd (filter (\<lambda>(b, n). active AND b \<noteq> 0) CLOCK_EVENT_REASONS))] else [])"

definition check_readiness :: "(string \<times> json) list \<Rightarrow> (py_exn, readiness_failure list) result" where
  "check_readiness facts =
     (case failure_report facts of (failures, failed) \<Rightarrow>
        let failures = failures @ memory_failures facts failed in
        case map_of facts ''stoquant_pids'' of
          None \<Rightarrow> Inl (KeyError ''stoquant_pids'')
        | Some pids \<Rightarrow>
            let failures = failures @ (if truthy pids then [AlreadyRunning pids] else []) in
            case map_of facts ''gpu_clock_event_reasons'' of
              None \<Rightarrow> Inl (KeyError ''gpu_clock_event_reasons'')
            | Some reasons \<Rightarrow> Inr (failures @ clock_failures reasons failed))"

subsection \<open>Affinity\<close>

definition clear_cpus :: "nat list \<Rightarrow> int \<Rightarrow> int" where
  "clear_cpus cpus k = foldl (\<lambda>m cpu. m AND NOT (push_bit cpu 1)) k cpus"

definition affinity_mask_excluding :: "nat list \<Rightarrow> int \<Rightarrow> (py_exn, int) result" where
  "affinity_mask_excluding excluded current_mask =
     (let msk = clear_cpus excluded current_mask in
      if msk = 0 then Inl (RuntimeError ''no logical CPU left after excluding'') else Inr msk)"

text \<open>
  The affinity mask of the process is the state; a body runs with a mask and may raise. The
  previous mask comes back in both cases.
\<close>

record 'w host_state =
  hs_mask :: int
  hs_world :: 'w

definition process_affinity :: "int \<Rightarrow> ('w host_state, 'e, 'a) st \<Rightarrow> ('w host_state, 'e, 'a) st" where
  "process_affinity msk body = (\<lambda>h.
     let previous = hs_mask h in
     case body (h\<lparr>hs_mask := msk\<rparr>) of (res, h') \<Rightarrow> (res, h'\<lparr>hs_mask := previous\<rparr>))"

record affinity =
  excluded_cpus :: "nat list"
  aff_mask :: int
  previous_mask :: int

definition benchmark_process_affinity ::
  "(py_exn \<Rightarrow> 'e) \<Rightarrow> (affinity \<Rightarrow> ('w host_state, 'e, 'a) st) \<Rightarrow> ('w host_state, 'e, 'a) st" where
  "benchmark_process_affinity raise body = (\<lambda>h.
     case affinity_mask_excluding EXCLUDED_LOGICAL_CPUS (hs_mask h) of
       Inl e \<Rightarrow> (Inl (raise e), h)
     | Inr msk \<Rightarrow> process_affinity msk
         (body \<lparr>excluded_cpus = EXCLUDED_LOGICAL_CPUS, aff_mask = msk, previous_mask = hs_mask h\<rparr>) h)"

subsection \<open>Properties\<close>

lemma bit_cleared: "bit (clear_cpus cpus k) i \<longleftrightarrow> bit (k::int) i \<and> i \<notin> set cpus"
proof (induction cpus arbitrary: k)
  case (Cons cpu cpus)
  have "bit (clear_cpus (cpu # cpus) k) i \<longleftrightarrow> bit (k AND NOT (push_bit cpu 1)) i \<and> i \<notin> set cpus"
    using Cons [of "k AND NOT (push_bit cpu 1)"] by (simp add: clear_cpus_def)
  then show ?case by (auto simp: bit_simps)
qed (simp add: clear_cpus_def)

text \<open>
  The benchmark mask is the process mask without the excluded logical processors: bit for bit, and
  never empty; it is refused exactly when every processor of the mask is excluded.
\<close>

theorem affinity_mask_exact:
  "case affinity_mask_excluding excluded k of
     Inr m \<Rightarrow> m \<noteq> 0 \<and> (\<forall>i. bit m i \<longleftrightarrow> bit k i \<and> i \<notin> set excluded)
   | Inl e \<Rightarrow> \<forall>i. bit k i \<longrightarrow> i \<in> set excluded"
proof -
  let ?m = "clear_cpus excluded k"
  have "\<forall>i. bit k i \<longrightarrow> i \<in> set excluded" if "?m = 0"
    using that bit_cleared [of excluded k] by auto
  then show ?thesis by (simp add: affinity_mask_excluding_def Let_def bit_cleared)
qed

lemma affinity_mask_exact_witness: "\<exists>m. affinity_mask_excluding [0, 1] 15 = Inr m \<and> bit m 2 \<and> \<not> bit m 0"
proof -
  have a: "affinity_mask_excluding [0, 1] 15 = Inr 12" by (simp add: affinity_mask_excluding_def clear_cpus_def)
  show ?thesis using affinity_mask_exact [of 15 "[0, 1]"] a by simp
qed

text \<open>
  C27: A benchmark leaves the process affinity as it found it, whether its body returns or raises and
  whatever it does to the mask meanwhile; the body runs under a mask without the two logical
  processors of physical core 0, and does not run when no other processor is left.
\<close>

theorem affinity_restored:
  "hs_mask (snd (benchmark_process_affinity raise body h)) = hs_mask h
   \<and> (\<forall>msk. affinity_mask_excluding EXCLUDED_LOGICAL_CPUS (hs_mask h) = Inr msk \<longrightarrow>
        fst (benchmark_process_affinity raise body h)
          = fst (body \<lparr>excluded_cpus = EXCLUDED_LOGICAL_CPUS, aff_mask = msk, previous_mask = hs_mask h\<rparr> (h\<lparr>hs_mask := msk\<rparr>))
        \<and> \<not> bit msk 0 \<and> \<not> bit msk 1)"
proof (intro conjI allI impI)
  show "hs_mask (snd (benchmark_process_affinity raise body h)) = hs_mask h"
    by (simp add: benchmark_process_affinity_def process_affinity_def Let_def split: sum.split prod.split)
  fix msk assume m: "affinity_mask_excluding EXCLUDED_LOGICAL_CPUS (hs_mask h) = Inr msk"
  then show "fst (benchmark_process_affinity raise body h)
      = fst (body \<lparr>excluded_cpus = EXCLUDED_LOGICAL_CPUS, aff_mask = msk, previous_mask = hs_mask h\<rparr> (h\<lparr>hs_mask := msk\<rparr>))"
    by (simp add: benchmark_process_affinity_def process_affinity_def Let_def split: prod.split)
  have "msk = clear_cpus EXCLUDED_LOGICAL_CPUS (hs_mask h)"
    using m by (simp add: affinity_mask_excluding_def Let_def split: if_splits)
  then show "\<not> bit msk 0" "\<not> bit msk 1"
    using bit_cleared [of EXCLUDED_LOGICAL_CPUS "hs_mask h"] by (simp_all add: EXCLUDED_LOGICAL_CPUS_def)
qed

lemma affinity_restored_witness:
  "let body = (\<lambda>a h. (Inr (hs_mask h), h\<lparr>hs_mask := 1\<rparr>) :: (py_exn, int) result \<times> unit host_state);
       out = benchmark_process_affinity id body \<lparr>hs_mask = 15, hs_world = ()\<rparr>
   in hs_mask (snd out) = 15 \<and> fst out = Inr 12"
proof -
  let ?body = "\<lambda>a h. (Inr (hs_mask h), h\<lparr>hs_mask := 1\<rparr>) :: (py_exn, int) result \<times> unit host_state"
  have "affinity_mask_excluding EXCLUDED_LOGICAL_CPUS (hs_mask \<lparr>hs_mask = 15, hs_world = ()\<rparr>) = Inr 12"
    by (simp add: affinity_mask_excluding_def clear_cpus_def EXCLUDED_LOGICAL_CPUS_def)
  then show ?thesis
    using affinity_restored [of id ?body "\<lparr>hs_mask = 15, hs_world = ()\<rparr>"] by (simp add: Let_def)
qed

lemma only_idle: "reasons AND NOT BENIGN_CLOCK_EVENTS = 0 \<longleftrightarrow> reasons = 0 \<or> reasons = 1"
proof
  assume a: "reasons AND NOT BENIGN_CLOCK_EVENTS = 0"
  have z: "\<not> bit reasons i" if "0 < i" for i
  proof -
    have "\<not> bit (reasons AND NOT BENIGN_CLOCK_EVENTS) i" by (simp add: a)
    then show ?thesis using that by (simp add: bit_simps BENIGN_CLOCK_EVENTS_def)
  qed
  have "reasons = (if bit reasons 0 then 1 else 0)"
  proof (rule bit_eqI)
    fix n
    show "bit reasons n = bit (if bit reasons 0 then 1 else (0::int)) n"
      using z by (cases "n = 0") (auto simp: bit_1_iff)
  qed
  then show "reasons = 0 \<or> reasons = 1" by presburger
qed (auto simp: BENIGN_CLOCK_EVENTS_def)



end
