(* ===== verification/Monitoring.thy ===== *)
theory Monitoring
  imports Json
begin

text \<open>
  The notifier settings of \<open>src/stoquant/monitoring.py\<close>: reading the local file, merging it with
  the process environment, and the checks a configuration passes. \<open>urlsplit\<close> and its port
  are arguments. The lemmas show what an accepted configuration satisfies.
\<close>

definition DEFAULT_SERVER :: string where "DEFAULT_SERVER = ''https://ntfy.sh''"
definition DEFAULT_HEARTBEAT_SECONDS :: int where "DEFAULT_HEARTBEAT_SECONDS = 3600"
definition NTFY_KEYS :: "string list" where
  "NTFY_KEYS = [''NTFY_SERVER'', ''NTFY_TOPIC'', ''NTFY_TOKEN'', ''NTFY_HEARTBEAT_SECONDS'']"

datatype configuration_error =
    UnreadableFile
  | MissingSettings "string list"
  | IncompletePair
  | BadServer
  | BadProvider
  | BadHeartbeat

record monitoring_config =
  mc_server :: string
  mc_topic :: "string option"
  mc_token :: "string option"
  mc_heartbeat :: int
  mc_provider :: "string option"

definition manifest_metadata :: "monitoring_config \<Rightarrow> (string \<times> int) option" where
  "manifest_metadata c = map_option (\<lambda>p. (p, mc_heartbeat c)) (mc_provider c)"

subsection \<open>The local file\<close>

text \<open>The line breaks of \<open>str.splitlines\<close> in ASCII; a carriage return and a line feed are one.\<close>

definition is_line_break :: "char \<Rightarrow> bool" where
  "is_line_break c \<longleftrightarrow> of_char c \<in> {10, 11, 12, 13, 28, 29, 30 :: nat}"

fun split_lines :: "string \<Rightarrow> string \<Rightarrow> string list" where
  "split_lines line [] = (if line = [] then [] else [rev line])"
| "split_lines line [c] = (if is_line_break c then [rev line] else [rev (c # line)])"
| "split_lines line (c # d # cs) =
     (if c = CHR 0x0D \<and> d = CHR 0x0A then rev line # split_lines [] cs
      else if is_line_break c then rev line # split_lines [] (d # cs)
      else split_lines (c # line) (d # cs))"

text \<open>\<open>line.split("=", 1)\<close> on a line that has the sign.\<close>

definition split_assign :: "string \<Rightarrow> string \<times> string" where
  "split_assign s = (takeWhile (\<lambda>c. c \<noteq> CHR ''='') s, tl (dropWhile (\<lambda>c. c \<noteq> CHR ''='') s))"

definition unquoted :: "string \<Rightarrow> string" where
  "unquoted v =
     (if 2 \<le> length v \<and> hd v = last v \<and> (hd v = CHR 0x27 \<or> hd v = CHR 0x22)
      then butlast (tl v) else v)"

definition env_line :: "string \<Rightarrow> (string \<times> string) option" where
  "env_line line =
     (let stripped = strip line in
      if stripped = [] \<or> starts_with ''#'' stripped \<or> CHR ''='' \<notin> set stripped then None
      else let key = strip (fst (split_assign stripped)) in
        if key \<notin> set NTFY_KEYS then None
        else Some (key, unquoted (strip (snd (split_assign stripped)))))"

datatype file_text = FileAbsent | FileUnreadable | FileText string

definition read_env_file :: "file_text \<Rightarrow> (configuration_error, (string \<times> string) list) result" where
  "read_env_file f =
     (case f of
        FileAbsent \<Rightarrow> Inr []
      | FileUnreadable \<Rightarrow> Inl UnreadableFile
      | FileText contents \<Rightarrow>
          Inr (foldl (\<lambda>d l. case env_line l of None \<Rightarrow> d | Some (k, v) \<Rightarrow> dict_set d k v) [] (split_lines [] contents)))"

subsection \<open>The configuration\<close>

record split_url =
  su_scheme :: string
  su_netloc :: string
  su_hostname :: "string option"
  su_port :: "int option"
  su_username :: "string option"
  su_password :: "string option"
  su_path :: string
  su_query :: string
  su_fragment :: string

definition merged_values :: "(string \<times> string) list \<Rightarrow> (string \<times> string) list \<Rightarrow> string \<Rightarrow> string option" where
  "merged_values file_items process_items key =
     (if key \<in> set NTFY_KEYS
      then (case map_of process_items key of Some v \<Rightarrow> Some v | None \<Rightarrow> map_of file_items key)
      else map_of file_items key)"

text \<open>\<open>values.get(key, "").strip() or None\<close>.\<close>

definition setting :: "string option \<Rightarrow> string option" where
  "setting v = (case v of None \<Rightarrow> None | Some s \<Rightarrow> if strip s = [] then None else Some (strip s))"

definition rstrip_slash :: "string \<Rightarrow> string" where
  "rstrip_slash s = rev (dropWhile (\<lambda>c. c = CHR ''/'') (rev s))"

text \<open>An empty hostname, query or fragment is falsy; a missing hostname is too.\<close>

definition acceptable_server :: "split_url \<Rightarrow> bool" where
  "acceptable_server u \<longleftrightarrow>
     (case su_hostname u of None \<Rightarrow> False | Some h \<Rightarrow> h \<noteq> []
        \<and> \<not> list_ex is_space (su_netloc u)
        \<and> (case su_port u of None \<Rightarrow> True | Some p \<Rightarrow> 1 \<le> p \<and> p \<le> 65535)
        \<and> su_username u = None \<and> su_password u = None \<and> su_query u = [] \<and> su_fragment u = []
        \<and> (su_path u = [] \<or> su_path u = ''/'')
        \<and> (su_scheme u = ''https'' \<or> (su_scheme u = ''http'' \<and> h \<in> {''localhost'', ''127.0.0.1'', ''::1''})))"

definition check_credentials :: "bool \<Rightarrow> string option \<Rightarrow> string option \<Rightarrow> (configuration_error, unit) result" where
  "check_credentials require topic tok =
     (let missing = (if topic = None then [''NTFY_TOPIC''] else []) @ (if tok = None then [''NTFY_TOKEN''] else []) in
      if require \<and> missing \<noteq> [] then Inl (MissingSettings missing)
      else if \<not> require \<and> (topic = None) \<noteq> (tok = None) then Inl IncompletePair
      else Inr ())"

definition check_server :: "(string \<Rightarrow> split_url option) \<Rightarrow> string \<Rightarrow> (configuration_error, unit) result" where
  "check_server urlsplit server =
     (case urlsplit server of
        None \<Rightarrow> Inl BadServer
      | Some u \<Rightarrow> if acceptable_server u then Inr () else Inl BadServer)"

definition choose_provider ::
  "string option \<Rightarrow> string option \<Rightarrow> string option \<Rightarrow> (configuration_error, string option) result" where
  "choose_provider requested topic tok =
     (let provider = map_option strip requested in
      if provider = Some [] then Inl BadProvider
      else let provider = (if provider = None \<and> topic \<noteq> None \<and> tok \<noteq> None then Some ''ntfy'' else provider) in
      if provider \<noteq> None \<and> provider \<noteq> Some ''ntfy'' then Inl BadProvider else Inr provider)"

definition heartbeat_setting :: "string \<Rightarrow> (configuration_error, int) result" where
  "heartbeat_setting s =
     (case py_int s of None \<Rightarrow> Inl BadHeartbeat | Some n \<Rightarrow> if n < 1 then Inl BadHeartbeat else Inr n)"

definition parse_monitoring_config ::
  "(string \<Rightarrow> split_url option) \<Rightarrow> file_text \<Rightarrow> (string \<times> string) list \<Rightarrow> bool \<Rightarrow> (configuration_error, monitoring_config) result" where
  "parse_monitoring_config urlsplit file environ require =
     bindE (read_env_file file) (\<lambda>file_items.
     let get = merged_values file_items environ;
         topic = setting (get ''NTFY_TOPIC''); tok = setting (get ''NTFY_TOKEN'')
     in bindE (check_credentials require topic tok) (\<lambda>_.
     let server = rstrip_slash (case get ''NTFY_SERVER'' of None \<Rightarrow> DEFAULT_SERVER | Some s \<Rightarrow> s) in
     bindE (check_server urlsplit server) (\<lambda>_.
     bindE (choose_provider (map_of environ ''STOQUANT_MONITORING_PROVIDER'') topic tok) (\<lambda>provider.
     bindE (heartbeat_setting
         (case map_of environ ''STOQUANT_MONITORING_HEARTBEAT_SECONDS'' of
            Some s \<Rightarrow> s
          | None \<Rightarrow> (case get ''NTFY_HEARTBEAT_SECONDS'' of None \<Rightarrow> str_int DEFAULT_HEARTBEAT_SECONDS | Some s \<Rightarrow> s)))
       (\<lambda>heartbeat.
       Inr \<lparr>mc_server = server, mc_topic = topic, mc_token = tok, mc_heartbeat = heartbeat, mc_provider = provider\<rparr>)))))"

definition with_heartbeat :: "monitoring_config \<Rightarrow> int \<Rightarrow> (configuration_error, monitoring_config) result" where
  "with_heartbeat c n = (if n < 1 then Inl BadHeartbeat else Inr (c\<lparr>mc_heartbeat := n\<rparr>))"

subsection \<open>Properties\<close>

definition valid_config :: "(string \<Rightarrow> split_url option) \<Rightarrow> monitoring_config \<Rightarrow> bool" where
  "valid_config urlsplit c \<longleftrightarrow>
     (mc_topic c = None \<longleftrightarrow> mc_token c = None) \<and> 1 \<le> mc_heartbeat c
     \<and> (mc_provider c = None \<or> mc_provider c = Some ''ntfy'') \<and> (mc_topic c \<noteq> None \<longrightarrow> mc_provider c = Some ''ntfy'')
     \<and> (\<exists>u. urlsplit (mc_server c) = Some u \<and> acceptable_server u)"

lemma check_credentials_Inr: "check_credentials require topic tok = Inr u \<Longrightarrow> topic = None \<longleftrightarrow> tok = None"
  by (cases topic; cases tok; cases require) (auto simp: check_credentials_def)

lemma check_server_Inr: "check_server urlsplit server = Inr u \<Longrightarrow> \<exists>v. urlsplit server = Some v \<and> acceptable_server v"
  by (auto simp: check_server_def split: option.splits if_splits)

lemma choose_provider_Inr:
  assumes "choose_provider requested topic tok = Inr p" "topic = None \<longleftrightarrow> tok = None"
  shows "p = None \<or> p = Some ''ntfy''" "topic \<noteq> None \<Longrightarrow> p = Some ''ntfy''"
  using assms by (auto simp: choose_provider_def Let_def split: if_splits)

lemma heartbeat_setting_Inr: "heartbeat_setting s = Inr n \<longleftrightarrow> py_int s = Some n \<and> 1 \<le> n"
  by (auto simp: heartbeat_setting_def split: option.splits)

lemma parse_parts:
  assumes "parse_monitoring_config urlsplit file environ require = Inr c"
  obtains file_items where "read_env_file file = Inr file_items"
    "check_credentials require (mc_topic c) (mc_token c) = Inr ()" "check_server urlsplit (mc_server c) = Inr ()"
    "choose_provider (map_of environ ''STOQUANT_MONITORING_PROVIDER'') (mc_topic c) (mc_token c) = Inr (mc_provider c)"
    "mc_topic c = setting (merged_values file_items environ ''NTFY_TOPIC'')"
    "mc_token c = setting (merged_values file_items environ ''NTFY_TOKEN'')" "1 \<le> mc_heartbeat c"
  using assms unfolding parse_monitoring_config_def Let_def
  by (auto simp: bindE_eq_Inr heartbeat_setting_Inr)


definition example_split :: "string \<Rightarrow> split_url option" where
  "example_split s = Some \<lparr>su_scheme = ''https'', su_netloc = ''ntfy.sh'', su_hostname = Some ''ntfy.sh'', su_port = None,
     su_username = None, su_password = None, su_path = [], su_query = [], su_fragment = []\<rparr>"


end
