(* ===== verification/Notify.thy ===== *)
theory Notify
  imports Monitoring Snapshot_Store
begin

text \<open>
  The supervising notifier of \<open>src/stoquant/notify.py\<close>: its messages, the environment it gives the
  benchmark, and the run of a command with a start notice, heartbeats and a terminal notice. The
  server's answers, the clock, the snapshot states it sees and the outcomes of starting and
  waiting for the child are arguments; the notices sent and the signals given are the state.
\<close>

subsection \<open>Publishing\<close>

datatype http_answer = Answered int | Refused int | Unreachable

datatype notification_error = BadStatus int | NotReached

text \<open>A redirect is refused like any other error status.\<close>

definition publish_result :: "http_answer \<Rightarrow> (notification_error, unit) result" where
  "publish_result answer =
     (case answer of
        Answered status \<Rightarrow> if 200 \<le> status \<and> status < 300 then Inr () else Inl (BadStatus status)
      | Refused code \<Rightarrow> Inl (BadStatus code)
      | Unreachable \<Rightarrow> Inl NotReached)"

record notify_log =
  nl_sent :: "(string \<times> string) list"
  nl_signals :: "string list"

text \<open>\<open>answers i\<close> is the server's answer to the \<open>i\<close>-th request.\<close>

definition publish ::
  "(nat \<Rightarrow> http_answer) \<Rightarrow> monitoring_config \<Rightarrow> string \<Rightarrow> string
     \<Rightarrow> (notify_log, configuration_error + notification_error, unit) st" where
  "publish answers config title message = (\<lambda>l.
     if mc_topic config = None \<or> mc_token config = None
     then (Inl (Inl (MissingSettings [''NTFY_TOPIC'', ''NTFY_TOKEN''])), l)
     else (case publish_result (answers (length (nl_sent l))) of Inl e \<Rightarrow> Inl (Inr e) | Inr u \<Rightarrow> Inr u,
           l\<lparr>nl_sent := nl_sent l @ [(title, message)]\<rparr>))"

definition notify_best_effort ::
  "(nat \<Rightarrow> http_answer) \<Rightarrow> monitoring_config \<Rightarrow> string \<Rightarrow> string \<Rightarrow> (notify_log, configuration_error, unit) st" where
  "notify_best_effort answers config title message = (\<lambda>l.
     case publish answers config title message l of
       (Inl (Inl e), l') \<Rightarrow> (Inl e, l')
     | (_, l') \<Rightarrow> (Inr (), l'))"

subsection \<open>Messages\<close>

definition family_of :: "snapshot_progress option \<Rightarrow> string" where
  "family_of state = (case state of None \<Rightarrow> ''benchmark''
     | Some s \<Rightarrow> (case pg_family s of None \<Rightarrow> ''benchmark'' | Some f \<Rightarrow> if f = [] then ''benchmark'' else f))"

definition two_digits :: "nat \<Rightarrow> string" where
  "two_digits n = (if n < 10 then ''0'' @ str_nat n else str_nat n)"

definition clock_text :: "nat \<Rightarrow> string" where
  "clock_text secs = two_digits (secs div 60 div 60) @ '':'' @ two_digits (secs div 60 mod 60) @ '':'' @ two_digits (secs mod 60)"

definition snapshot_line :: "snapshot_progress option \<Rightarrow> string list" where
  "snapshot_line state = (case state of None \<Rightarrow> [] | Some s \<Rightarrow> (case pg_snapshot s of None \<Rightarrow> []
     | Some p \<Rightarrow> if p = [] then [] else [''snapshot: '' @ join ''/'' p]))"

definition count_text :: "snapshot_progress \<Rightarrow> string" where
  "count_text s = str_nat (pg_completed s) @ (case pg_total s of None \<Rightarrow> [] | Some t \<Rightarrow> ''/'' @ str_nat t)"

definition heartbeat_message :: "nat \<Rightarrow> snapshot_progress option \<Rightarrow> string" where
  "heartbeat_message elapsed state =
     join [CHR 0x0A]
       ([''event: heartbeat'', ''family: '' @ family_of state, ''elapsed: '' @ clock_text elapsed]
        @ snapshot_line state
        @ [case state of None \<Rightarrow> ''cases completed: unavailable'' | Some s \<Rightarrow> ''cases completed: '' @ count_text s])"

definition terminal_message :: "int \<Rightarrow> nat \<Rightarrow> snapshot_progress option \<Rightarrow> string" where
  "terminal_message exit_code elapsed state =
     join [CHR 0x0A]
       ([''event: '' @ (if exit_code = 0 then ''success'' else ''failure''), ''family: '' @ family_of state,
         ''duration: '' @ clock_text elapsed, ''exit code: '' @ str_int exit_code]
        @ snapshot_line state @ (case state of None \<Rightarrow> [] | Some s \<Rightarrow> [''cases: '' @ count_text s]))"

definition start_message :: "string \<Rightarrow> int \<Rightarrow> string" where
  "start_message started heartbeat =
     join [CHR 0x0A] [''event: start'', ''family: benchmark'', ''started: '' @ started,
       ''heartbeat interval: '' @ str_int heartbeat @ '' seconds'']"

text \<open>The snapshot a notice describes: the registered one, else the newest since the start.\<close>

definition observed_progress ::
  "(string \<Rightarrow> path) \<Rightarrow> (path \<Rightarrow> nat) \<Rightarrow> path \<Rightarrow> path list \<Rightarrow> path set \<Rightarrow> path \<Rightarrow> fs \<Rightarrow> snapshot_progress option" where
  "observed_progress to_path mtime dir found previous registration_file fs =
     (let selected = registered_snapshot to_path (Some registration_file) fs;
          selected = (if selected = None then new_since mtime found previous else selected)
      in progress selected dir fs)"

subsection \<open>The environment of the child\<close>

definition REGISTRATION_ENV :: string where "REGISTRATION_ENV = ''STOQUANT_MONITORING_SNAPSHOT_REGISTRATION''"

definition removed_keys :: "string list" where
  "removed_keys = [''NTFY_SERVER'', ''NTFY_TOPIC'', ''NTFY_TOKEN'', ''NTFY_HEARTBEAT_SECONDS'', REGISTRATION_ENV]"

definition child_environment :: "(string \<times> string) list \<Rightarrow> int \<Rightarrow> string \<Rightarrow> (string \<times> string) list" where
  "child_environment environ heartbeat registration_file =
     (let e = filter (\<lambda>(k, v). k \<notin> set removed_keys) environ;
          e = dict_set e ''STOQUANT_MONITORING_PROVIDER'' ''ntfy'';
          e = dict_set e ''STOQUANT_MONITORING_HEARTBEAT_SECONDS'' (str_int heartbeat)
      in dict_set e REGISTRATION_ENV registration_file)"

subsection \<open>Running a command\<close>

text \<open>
  One return of \<open>child.wait\<close>. An interrupt carries what \<open>poll\<close> says, what the wait of five seconds
  after \<open>terminate\<close> gives, and the return code after \<open>kill\<close>.
\<close>

datatype wait_event = Exited int | WaitTimedOut | Interrupted "int option" "int option" int

datatype child_start = Started | StartError | StartInterrupted

definition interrupt_code :: "int option \<Rightarrow> int option \<Rightarrow> int \<Rightarrow> int \<times> string list" where
  "interrupt_code polled stopped killed =
     (let (code, signals) = (case polled of
            Some c \<Rightarrow> (c, [])
          | None \<Rightarrow> (case stopped of Some c \<Rightarrow> (c, [''terminate'']) | None \<Rightarrow> (killed, [''terminate'', ''kill''])))
      in (if code \<noteq> 0 then code else 130, signals))"

definition signal_child :: "string list \<Rightarrow> notify_log \<Rightarrow> notify_log" where
  "signal_child signals l = l\<lparr>nl_signals := nl_signals l @ signals\<rparr>"

text \<open>
  The wait loop over the events still to come; \<open>None\<close> means that the child has not ended within
  them. \<open>look i\<close> is the snapshot state and \<open>elapsed i\<close> the whole seconds at the \<open>i\<close>-th notice.
\<close>

fun wait_loop ::
  "(nat \<Rightarrow> http_answer) \<Rightarrow> monitoring_config \<Rightarrow> (nat \<Rightarrow> snapshot_progress option) \<Rightarrow> (nat \<Rightarrow> nat)
     \<Rightarrow> wait_event list \<Rightarrow> notify_log \<Rightarrow> ((configuration_error, int) result \<times> notify_log) option" where
  "wait_loop answers config look elapsed [] l = None"
| "wait_loop answers config look elapsed (Exited code # ws) l = Some (Inr code, l)"
| "wait_loop answers config look elapsed (Interrupted polled stopped killed # ws) l =
     (case interrupt_code polled stopped killed of (code, signals) \<Rightarrow> Some (Inr code, signal_child signals l))"
| "wait_loop answers config look elapsed (WaitTimedOut # ws) l =
     (let i = length (nl_sent l); state = look i in
      case notify_best_effort answers config (''stoquant '' @ family_of state @ '' heartbeat'')
             (heartbeat_message (elapsed i) state) l of
        (Inl e, l') \<Rightarrow> Some (Inl e, l')
      | (Inr u, l') \<Rightarrow> wait_loop answers config look elapsed ws l')"

definition child_outcome ::
  "(nat \<Rightarrow> http_answer) \<Rightarrow> monitoring_config \<Rightarrow> (nat \<Rightarrow> snapshot_progress option) \<Rightarrow> (nat \<Rightarrow> nat)
     \<Rightarrow> child_start \<Rightarrow> wait_event list \<Rightarrow> notify_log \<Rightarrow> ((configuration_error, int) result \<times> notify_log) option" where
  "child_outcome answers config look elapsed begun ws l =
     (case begun of
        StartError \<Rightarrow> Some (Inr 127, l)
      | StartInterrupted \<Rightarrow> Some (Inr 130, l)
      | Started \<Rightarrow> wait_loop answers config look elapsed ws l)"

definition finish_run ::
  "(nat \<Rightarrow> http_answer) \<Rightarrow> monitoring_config \<Rightarrow> (nat \<Rightarrow> snapshot_progress option) \<Rightarrow> (nat \<Rightarrow> nat)
     \<Rightarrow> int \<Rightarrow> (notify_log, configuration_error, int) st" where
  "finish_run answers config look elapsed code = (\<lambda>l.
     let i = length (nl_sent l); state = look i in
     st_bind (notify_best_effort answers config
         (''stoquant '' @ family_of state @ '' '' @ (if code = 0 then ''succeeded'' else ''failed''))
         (terminal_message code (elapsed i) state)) (\<lambda>_. st_return code) l)"

definition run_command ::
  "(nat \<Rightarrow> http_answer) \<Rightarrow> monitoring_config \<Rightarrow> (nat \<Rightarrow> snapshot_progress option) \<Rightarrow> (nat \<Rightarrow> nat)
     \<Rightarrow> string \<Rightarrow> child_start \<Rightarrow> wait_event list \<Rightarrow> notify_log \<Rightarrow> ((configuration_error, int) result \<times> notify_log) option" where
  "run_command answers config look elapsed started begun ws l =
     (case publish answers config ''stoquant benchmark started'' (start_message started (mc_heartbeat config)) l of
        (Inl (Inl e), l') \<Rightarrow> Some (Inl e, l')
      | (Inl (Inr e), l') \<Rightarrow> Some (Inr 2, l')
      | (Inr u, l') \<Rightarrow>
          (case child_outcome answers config look elapsed begun ws l' of
             None \<Rightarrow> None
           | Some (Inl e, l2) \<Rightarrow> Some (Inl e, l2)
           | Some (Inr code, l2) \<Rightarrow> Some (finish_run answers config look elapsed code l2)))"

subsection \<open>The entry point\<close>

datatype notify_end = UsageError | ExitCode int | ChildRuns | RaisedConfig configuration_error

definition notify_main ::
  "(nat \<Rightarrow> http_answer) \<Rightarrow> (configuration_error, monitoring_config) result \<Rightarrow> (nat \<Rightarrow> snapshot_progress option) \<Rightarrow> (nat \<Rightarrow> nat)
     \<Rightarrow> string \<Rightarrow> child_start \<Rightarrow> wait_event list \<Rightarrow> bool \<Rightarrow> int option \<Rightarrow> string list \<Rightarrow> notify_end \<times> notify_log" where
  "notify_main answers parsed look elapsed started begun ws check_only heartbeat argv =
     (let l = \<lparr>nl_sent = [], nl_signals = []\<rparr>;
          command = (case argv of [] \<Rightarrow> [] | a # rest \<Rightarrow> if a = ''--'' then rest else argv) in
      if check_only \<and> command \<noteq> [] then (UsageError, l)
      else if command = [] \<and> \<not> check_only then (UsageError, l)
      else case parsed of
        Inl e \<Rightarrow> (ExitCode 2, l)
      | Inr config \<Rightarrow>
          (case (case heartbeat of None \<Rightarrow> Inr config | Some n \<Rightarrow> with_heartbeat config n) of
             Inl e \<Rightarrow> (UsageError, l)
           | Inr config \<Rightarrow>
               (case publish answers config ''stoquant ntfy preflight'' ''stoquant ntfy preflight succeeded.'' l of
                  (Inl (Inl e), l) \<Rightarrow> (RaisedConfig e, l)
                | (Inl (Inr e), l) \<Rightarrow> (ExitCode 2, l)
                | (Inr u, l) \<Rightarrow>
                    if check_only then (ExitCode 0, l)
                    else (case run_command answers config look elapsed started begun ws l of
                        None \<Rightarrow> (ChildRuns, l)
                      | Some (Inl e, l) \<Rightarrow> (RaisedConfig e, l)
                      | Some (Inr code, l) \<Rightarrow> (ExitCode code, l)))))"

subsection \<open>Properties\<close>

lemma map_of_filter_keys: "map_of (filter (\<lambda>(k, v). P k) xs) k = (if P k then map_of xs k else None)"
  by (induction xs) auto

text \<open>
  The benchmark never sees the notifier's settings: topic, token, server and interval are removed
  from its environment, its provider, interval and registration file are the notifier's, and every
  other variable passes unchanged.
\<close>

theorem child_environment_clean:
  "map_of (child_environment environ heartbeat reg) k =
     (if k = REGISTRATION_ENV then Some reg
      else if k = ''STOQUANT_MONITORING_HEARTBEAT_SECONDS'' then Some (str_int heartbeat)
      else if k = ''STOQUANT_MONITORING_PROVIDER'' then Some ''ntfy''
      else if k \<in> set NTFY_KEYS then None else map_of environ k)"
  by (auto simp: child_environment_def Let_def map_of_filter_keys removed_keys_def NTFY_KEYS_def)

definition credentials :: "monitoring_config \<Rightarrow> bool" where
  "credentials config \<longleftrightarrow> mc_topic config \<noteq> None \<and> mc_token config \<noteq> None"

lemma best_effort_sends:
  assumes "credentials config"
  shows "notify_best_effort answers config title message l = (Inr (), l\<lparr>nl_sent := nl_sent l @ [(title, message)]\<rparr>)"
  using assms by (auto simp: notify_best_effort_def publish_def credentials_def split: sum.split)

definition heartbeat_notice :: "(nat \<Rightarrow> snapshot_progress option) \<Rightarrow> (nat \<Rightarrow> nat) \<Rightarrow> nat \<Rightarrow> string \<times> string" where
  "heartbeat_notice look elapsed i =
     (''stoquant '' @ family_of (look i) @ '' heartbeat'', heartbeat_message (elapsed i) (look i))"

lemma wait_loop_heartbeats:
  assumes "credentials config"
  shows "wait_loop answers config look elapsed (replicate k WaitTimedOut @ ws) l =
     wait_loop answers config look elapsed ws
       (l\<lparr>nl_sent := nl_sent l @ map (heartbeat_notice look elapsed) [length (nl_sent l)..<length (nl_sent l) + k]\<rparr>)"
proof (induction k arbitrary: l)
  case (Suc k)
  let ?n = "length (nl_sent l)"
  have "[?n..<?n + Suc k] = ?n # [Suc ?n..<Suc ?n + k]" by (simp add: upt_conv_Cons)
  then show ?case
    using Suc by (simp add: best_effort_sends [OF assms] Let_def heartbeat_notice_def)
qed simp

definition end_code :: "wait_event \<Rightarrow> int option" where
  "end_code w = (case w of Exited c \<Rightarrow> Some c | WaitTimedOut \<Rightarrow> None
     | Interrupted polled stopped killed \<Rightarrow> Some (fst (interrupt_code polled stopped killed)))"

definition terminal_notice :: "(nat \<Rightarrow> snapshot_progress option) \<Rightarrow> (nat \<Rightarrow> nat) \<Rightarrow> int \<Rightarrow> nat \<Rightarrow> string \<times> string" where
  "terminal_notice look elapsed code i =
     (''stoquant '' @ family_of (look i) @ '' '' @ (if code = 0 then ''succeeded'' else ''failed''),
      terminal_message code (elapsed i) (look i))"


definition example_config :: monitoring_config where
  "example_config = \<lparr>mc_server = DEFAULT_SERVER, mc_topic = Some ''t'', mc_token = Some ''k'', mc_heartbeat = 60, mc_provider = Some ''ntfy''\<rparr>"


end
