(* ===== verification/Inputs.thy ===== *)
theory Inputs
  imports Files Fp_Order "HOL-Library.Sublist"
begin

text \<open>
  The input families of \<open>src/stoquant/inputs.py\<close>: the parameter tensors of the model family and
  their selection, the sparse mask, the course vector and the files a family writes with
  their keys. NumPy's generators and \<open>linspace\<close>, SHA-256 and the byte form of an FP32 array are
  arguments. The lemmas show what a selection contains and that the inputs of a family have
  distinct keys and files.
\<close>

definition DEFAULT_INPUT_SEED :: int where "DEFAULT_INPUT_SEED = 2026"
definition SPARSE_MASK_SEED :: int where "SPARSE_MASK_SEED = 1021"
definition SPARSE_ZERO_FRACTION :: fp where "SPARSE_ZERO_FRACTION = fp_round binary64 False (9 / 10)"
definition BIAS_STD :: fp where "BIAS_STD = fp_round binary64 False (1 / 100)"
definition INPUT_FAMILIES :: "string list" where "INPUT_FAMILIES = [''dense'', ''sparse'', ''model'']"
definition MODEL_TENSOR_SETS :: "string list" where "MODEL_TENSOR_SETS = [''distinct'', ''all'']"

definition MODEL_NAME :: string where "MODEL_NAME = ''resnet18-cifar10''"

subsection \<open>The model's tensors\<close>

record model_tensor =
  mt_name :: string
  mt_shape :: "nat list"
  mt_kind :: string

definition tensor_count :: "model_tensor \<Rightarrow> nat" where
  "tensor_count t = prod_list (mt_shape t)"

definition fan_in :: "model_tensor \<Rightarrow> nat" where
  "fan_in t = prod_list (tl (mt_shape t))"

definition conv_bn :: "string \<Rightarrow> string \<Rightarrow> nat \<Rightarrow> nat \<Rightarrow> nat \<Rightarrow> model_tensor list" where
  "conv_bn stem bn out_ch in_ch k =
     [\<lparr>mt_name = stem @ ''.weight'', mt_shape = [out_ch, in_ch, k, k], mt_kind = ''conv''\<rparr>,
      \<lparr>mt_name = bn @ ''.weight'', mt_shape = [out_ch], mt_kind = ''bn''\<rparr>,
      \<lparr>mt_name = bn @ ''.bias'', mt_shape = [out_ch], mt_kind = ''bn''\<rparr>]"

definition basic_block :: "nat \<Rightarrow> nat \<Rightarrow> nat \<Rightarrow> nat \<Rightarrow> model_tensor list" where
  "basic_block stage block out_ch in_ch =
     (let name = ''layer'' @ str_nat stage @ ''.'' @ str_nat block in
      conv_bn (name @ ''.conv1'') (name @ ''.bn1'') out_ch in_ch 3
      @ conv_bn (name @ ''.conv2'') (name @ ''.bn2'') out_ch out_ch 3
      @ (if block = 0 \<and> in_ch \<noteq> out_ch then conv_bn (name @ ''.shortcut.0'') (name @ ''.shortcut.1'') out_ch in_ch 1 else []))"

text \<open>The stages in order; \<open>in_ch\<close> is the width the previous block left.\<close>

fun stage_tensors :: "nat \<Rightarrow> nat \<Rightarrow> nat list \<Rightarrow> model_tensor list" where
  "stage_tensors stage in_ch [] = []"
| "stage_tensors stage in_ch (out_ch # widths) =
     basic_block stage 0 out_ch in_ch @ basic_block stage 1 out_ch out_ch @ stage_tensors (Suc stage) out_ch widths"

definition RESNET18_CIFAR_TENSORS :: "model_tensor list" where
  "RESNET18_CIFAR_TENSORS =
     conv_bn ''conv1'' ''bn1'' 64 3 3 @ stage_tensors 1 64 [64, 128, 256, 512]
     @ [\<lparr>mt_name = ''linear.weight'', mt_shape = [10, 512], mt_kind = ''linear''\<rparr>,
        \<lparr>mt_name = ''linear.bias'', mt_shape = [10], mt_kind = ''bias''\<rparr>]"

datatype input_error = UnknownTensorSet string | LimitTooSmall | UnknownFamily string | InputStore py_exn

fun first_of_each :: "(nat list \<times> string) set \<Rightarrow> model_tensor list \<Rightarrow> model_tensor list" where
  "first_of_each seen [] = []"
| "first_of_each seen (t # ts) =
     (if (mt_shape t, mt_kind t) \<notin> seen then t # first_of_each (insert (mt_shape t, mt_kind t) seen) ts
      else first_of_each seen ts)"

definition select_model_tensors :: "string \<Rightarrow> int option \<Rightarrow> (input_error, model_tensor list) result" where
  "select_model_tensors mode limit =
     (if mode \<notin> set MODEL_TENSOR_SETS then Inl (UnknownTensorSet mode)
      else if (case limit of None \<Rightarrow> False | Some n \<Rightarrow> n < 1) then Inl LimitTooSmall
      else let selected = (if mode = ''all'' then RESNET18_CIFAR_TENSORS else first_of_each {} RESNET18_CIFAR_TENSORS)
           in Inr (case limit of None \<Rightarrow> selected | Some n \<Rightarrow> take (nat n) selected))"

definition model_tensor_by_name :: "string \<Rightarrow> (py_exn, model_tensor) result" where
  "model_tensor_by_name name =
     (case filter (\<lambda>t. mt_name t = name) RESNET18_CIFAR_TENSORS of [] \<Rightarrow> Inl (KeyError name) | t # ts \<Rightarrow> Inr t)"

definition model_tensor_seed :: "model_tensor \<Rightarrow> int \<Rightarrow> (py_exn, int list) result" where
  "model_tensor_seed t seed =
     (if t \<in> set RESNET18_CIFAR_TENSORS
      then Inr [seed, int (length (takeWhile (\<lambda>u. u \<noteq> t) RESNET18_CIFAR_TENSORS))]
      else Inl (ValueError ''tuple.index(x): x not in tuple''))"

definition model_tensor_std :: "model_tensor \<Rightarrow> fp" where
  "model_tensor_std t =
     (if mt_kind t = ''conv'' \<or> mt_kind t = ''linear''
      then fp_sqrt binary64 (fp_div binary64 (fp_of_nat 2) (fp_of_rat binary64 False (of_nat (fan_in t))))
      else BIAS_STD)"

text \<open>\<open>normal seeds n\<close>: the \<open>n\<close> standard normal draws of the generator seeded by the list.\<close>

definition model_tensor_values :: "(int list \<Rightarrow> nat \<Rightarrow> fp list) \<Rightarrow> model_tensor \<Rightarrow> int \<Rightarrow> (py_exn, fp list) result" where
  "model_tensor_values normal t seed =
     bindE (model_tensor_seed t seed) (\<lambda>seeds.
       Inr (map (\<lambda>x. fp_cast binary32 (fp_mul binary64 x (model_tensor_std t))) (normal seeds (tensor_count t))))"

subsection \<open>Dense, sparse and course vectors\<close>

definition dense_vectors :: "(int list \<Rightarrow> nat \<Rightarrow> fp list) \<Rightarrow> nat list \<Rightarrow> int \<Rightarrow> fp list list" where
  "dense_vectors normal counts seed = map (\<lambda>n. map (fp_cast binary32) (normal [int n, seed] n)) counts"

definition sparsify :: "(int \<Rightarrow> nat \<Rightarrow> fp list) \<Rightarrow> fp list \<Rightarrow> int \<Rightarrow> fp \<Rightarrow> fp list \<times> fp" where
  "sparsify uniform dense mask_seed zero_fraction =
     (let zeroed = map (\<lambda>u. u < zero_fraction) (uniform mask_seed (length dense));
          sparse = map2 (\<lambda>z x. if z then FFin False 0 else x) zeroed dense;
          realised = (if dense = [] then fp_zero
            else fp_div binary64 (fp_of_rat binary64 False (of_nat (length (filter id zeroed))))
                   (fp_of_rat binary64 False (of_nat (length dense))))
      in (sparse, realised))"

definition scaled_pair :: "nat \<Rightarrow> nat \<Rightarrow> fp list" where
  "scaled_pair d k =
     (let q = fp_div binary64 (fp_of_nat k) (fp_of_nat d) in
      [fp_cast binary32 (fp_mul binary64 (FFin False 2) q), fp_cast binary32 (fp_mul binary64 (FFin True 2) q)])"

definition course_vector :: "(fp \<Rightarrow> fp \<Rightarrow> nat \<Rightarrow> fp list) \<Rightarrow> fp list \<times> fp" where
  "course_vector linspace =
     (let front = [FFin False 0, FFin True 0, FFin False 2, FFin True 2]
            @ concat (map (scaled_pair 7) [1..<7]) @ concat (map (scaled_pair 127) [1..<127]);
          limit = fp_round binary64 False (195 / 100)
      in (front @ linspace (fp_neg limit) limit (1024 - length front), FFin False 2))"

subsection \<open>Files of a family\<close>

text \<open>
  An input file and its public provenance, a dictionary. \<open>input_ops\<close> are the NumPy generators (by
  seed), the little-endian FP32 bytes of an array, and \<open>hashlib.sha256\<close>.
\<close>

record generated_input =
  gi_path :: path
  gi_provenance :: "(string \<times> json) list"

record input_ops =
  io_normal :: "int list \<Rightarrow> nat \<Rightarrow> fp list"
  io_uniform :: "int \<Rightarrow> nat \<Rightarrow> fp list"
  io_bit_generator :: string
  io_bytes :: "fp list \<Rightarrow> byte list"
  io_sha256 :: "byte list \<Rightarrow> string"

definition input_file :: "string \<Rightarrow> string" where
  "input_file key = ''input_'' @ key @ ''.f32''"

definition write_input :: "input_ops \<Rightarrow> path \<Rightarrow> string \<Rightarrow> fp list \<Rightarrow> fs \<Rightarrow> (py_exn, (string \<times> path) \<times> fs) result" where
  "write_input ops dir name vs fs =
     (let bytes = io_bytes ops vs; p = dir @ [name] in
      bindE (write_file p (Bytes bytes) fs) (\<lambda>fs. Inr ((io_sha256 ops bytes, p), fs)))"

definition dense_provenance :: "input_ops \<Rightarrow> int \<Rightarrow> nat \<Rightarrow> string \<Rightarrow> string \<Rightarrow> (string \<times> json) list" where
  "dense_provenance ops seed n filename sha =
     [(''count'', JInt (int n)), (''filename'', JStr filename),
      (''generator'', JStr ''numpy.random.default_rng([count, seed])''),
      (''bit_generator'', JStr (io_bit_generator ops)),
      (''seed'', JList [JInt (int n), JInt seed]), (''sha256'', JStr sha)]"

fun generate_loop ::
  "input_ops \<Rightarrow> path \<Rightarrow> int \<Rightarrow> nat list \<Rightarrow> (nat \<times> generated_input) list \<Rightarrow> fs
     \<Rightarrow> (py_exn, (nat \<times> generated_input) list \<times> fs) result" where
  "generate_loop ops dir seed [] acc fs = Inr (acc, fs)"
| "generate_loop ops dir seed (n # ns) acc fs =
     bindE (write_input ops dir (input_file (''n'' @ str_nat n)) (map (fp_cast binary32) (io_normal ops [int n, seed] n)) fs)
       (\<lambda>((sha, p), fs).
         generate_loop ops dir seed ns (dict_set acc n \<lparr>gi_path = p, gi_provenance = dense_provenance ops seed n (last p) sha\<rparr>) fs)"

definition generate_inputs ::
  "input_ops \<Rightarrow> nat list \<Rightarrow> path \<Rightarrow> int \<Rightarrow> fs \<Rightarrow> (py_exn, (nat \<times> generated_input) list \<times> fs) result" where
  "generate_inputs ops counts dir seed fs =
     bindE (mkdir_parents dir fs) (\<lambda>fs. generate_loop ops dir seed counts [] fs)"

definition family_entry :: "nat \<times> generated_input \<Rightarrow> string \<times> generated_input" where
  "family_entry e =
     (let key = ''n'' @ str_nat (fst e) in
      (key, (snd e)\<lparr>gi_provenance :=
         dict_update [(''input_family'', JStr ''dense''), (''input_key'', JStr key)] (gi_provenance (snd e))\<rparr>))"

definition sparse_provenance :: "int \<Rightarrow> nat \<Rightarrow> string \<Rightarrow> string \<Rightarrow> fp \<Rightarrow> string \<Rightarrow> (string \<times> json) list" where
  "sparse_provenance seed n key filename realised sha =
     [(''input_family'', JStr ''sparse''), (''input_key'', JStr key), (''count'', JInt (int n)),
      (''filename'', JStr filename), (''generator'', JStr ''numpy.random.default_rng([count, seed])''),
      (''bit_generator'', JStr ''PCG64''), (''seed'', JList [JInt (int n), JInt seed]),
      (''dense_source'', JStr ''the dense input of the same seed and count''),
      (''mask_seed'', JInt SPARSE_MASK_SEED), (''zero_fraction_target'', JFloat SPARSE_ZERO_FRACTION),
      (''zero_fraction_realised'', JFloat realised), (''zero_value'', JStr ''+0.0''), (''sha256'', JStr sha)]"

fun sparse_loop ::
  "input_ops \<Rightarrow> path \<Rightarrow> int \<Rightarrow> (nat \<times> fp list) list \<Rightarrow> (string \<times> generated_input) list \<Rightarrow> fs
     \<Rightarrow> (py_exn, (string \<times> generated_input) list \<times> fs) result" where
  "sparse_loop ops dir seed [] acc fs = Inr (acc, fs)"
| "sparse_loop ops dir seed ((n, dense) # rest) acc fs =
     (let (vs, realised) = sparsify (io_uniform ops) dense SPARSE_MASK_SEED SPARSE_ZERO_FRACTION;
          key = ''sparse_n'' @ str_nat n
      in bindE (write_input ops dir (input_file key) vs fs) (\<lambda>((sha, p), fs).
           sparse_loop ops dir seed rest
             (dict_set acc key \<lparr>gi_path = p, gi_provenance = sparse_provenance seed n key (last p) realised sha\<rparr>) fs))"

definition model_provenance :: "model_tensor \<Rightarrow> int list \<Rightarrow> string \<Rightarrow> string \<Rightarrow> string \<Rightarrow> (string \<times> json) list" where
  "model_provenance t seeds key filename sha =
     [(''input_family'', JStr ''model''), (''input_key'', JStr key), (''count'', JInt (int (tensor_count t))),
      (''filename'', JStr filename), (''generator'', JStr ''numpy.random.default_rng''),
      (''bit_generator'', JStr ''PCG64''), (''seed'', JList (map JInt seeds)), (''model'', JStr MODEL_NAME),
      (''tensor_name'', JStr (mt_name t)), (''tensor_shape'', JList (map (\<lambda>d. JInt (int d)) (mt_shape t))),
      (''tensor_kind'', JStr (mt_kind t)), (''std'', JFloat (model_tensor_std t)), (''sha256'', JStr sha)]"

fun model_loop ::
  "input_ops \<Rightarrow> path \<Rightarrow> int \<Rightarrow> model_tensor list \<Rightarrow> (string \<times> generated_input) list \<Rightarrow> fs
     \<Rightarrow> (py_exn, (string \<times> generated_input) list \<times> fs) result" where
  "model_loop ops dir seed [] acc fs = Inr (acc, fs)"
| "model_loop ops dir seed (t # ts) acc fs =
     (let key = ''model_'' @ mt_name t in
      bindE (model_tensor_values (io_normal ops) t seed) (\<lambda>vs.
      bindE (write_input ops dir (input_file key) vs fs) (\<lambda>((sha, p), fs).
      bindE (model_tensor_seed t seed) (\<lambda>seeds.
        model_loop ops dir seed ts
          (dict_set acc key \<lparr>gi_path = p, gi_provenance = model_provenance t seeds key (last p) sha\<rparr>) fs))))"

definition input_error_of :: "(py_exn, 'a) result \<Rightarrow> (input_error, 'a) result" where
  "input_error_of m = (case m of Inl e \<Rightarrow> Inl (InputStore e) | Inr x \<Rightarrow> Inr x)"

definition generate_family_inputs ::
  "input_ops \<Rightarrow> string \<Rightarrow> nat list \<Rightarrow> path \<Rightarrow> int \<Rightarrow> string \<Rightarrow> int option \<Rightarrow> fs
     \<Rightarrow> (input_error, (string \<times> generated_input) list \<times> fs) result" where
  "generate_family_inputs ops family counts dir seed mode limit fs =
     (if family = ''dense'' then
        bindE (input_error_of (generate_inputs ops counts dir seed fs)) (\<lambda>(items, fs). Inr (map family_entry items, fs))
      else bindE (input_error_of (mkdir_parents dir fs)) (\<lambda>fs.
        if family = ''sparse'' then
          input_error_of (sparse_loop ops dir seed (zip counts (dense_vectors (io_normal ops) counts seed)) [] fs)
        else if family = ''model'' then
          bindE (select_model_tensors mode limit) (\<lambda>ts. input_error_of (model_loop ops dir seed ts [] fs))
        else Inl (UnknownFamily family)))"

subsection \<open>The tensors of a selection\<close>

lemma first_of_each_subseq: "subseq (first_of_each seen ts) ts"
  by (induction seen ts rule: first_of_each.induct) auto

lemma first_of_each_fresh:
  "distinct (map (\<lambda>t. (mt_shape t, mt_kind t)) (first_of_each seen ts))
     \<and> (\<lambda>t. (mt_shape t, mt_kind t)) ` set (first_of_each seen ts) = (\<lambda>t. (mt_shape t, mt_kind t)) ` set ts - seen"
  by (induction seen ts rule: first_of_each.induct) auto

lemma subseq_distinct: "subseq xs ys \<Longrightarrow> distinct ys \<Longrightarrow> distinct xs"
  by (induction rule: list_emb.induct) (auto dest: list_emb_set)

lemma resnet_names: "distinct (map mt_name RESNET18_CIFAR_TENSORS)"
  by code_simp

lemma resnet_size: "length RESNET18_CIFAR_TENSORS = 62 \<and> sum_list (map tensor_count RESNET18_CIFAR_TENSORS) = 11173962"
  by code_simp

text \<open>
  A selection keeps the module order and never holds a tensor twice. The distinct set holds
  exactly one tensor of each shape and kind the model has, as many as the limit lets through. The
  whole model has 62 tensors and 11,173,962 parameters.
\<close>

theorem select_model_tensors_exact:
  assumes "select_model_tensors mode limit = Inr ts"
  shows "\<exists>selected. ts = (case limit of None \<Rightarrow> selected | Some n \<Rightarrow> take (nat n) selected)
    \<and> subseq selected RESNET18_CIFAR_TENSORS \<and> distinct (map mt_name ts)
    \<and> (mode = ''all'' \<longrightarrow> length selected = 62 \<and> sum_list (map tensor_count selected) = 11173962)
    \<and> (mode = ''distinct'' \<longrightarrow> distinct (map (\<lambda>t. (mt_shape t, mt_kind t)) selected)
         \<and> (\<lambda>t. (mt_shape t, mt_kind t)) ` set selected = (\<lambda>t. (mt_shape t, mt_kind t)) ` set RESNET18_CIFAR_TENSORS)"
proof -
  define s where "s = (if mode = ''all'' then RESNET18_CIFAR_TENSORS else first_of_each {} RESNET18_CIFAR_TENSORS)"
  have ts: "ts = (case limit of None \<Rightarrow> s | Some n \<Rightarrow> take (nat n) s)"
    using assms by (auto simp: select_model_tensors_def s_def Let_def split: if_splits option.splits)
  have sub: "subseq s RESNET18_CIFAR_TENSORS" by (auto simp: s_def first_of_each_subseq)
  have "subseq ts s" by (auto simp: ts take_is_prefix prefix_imp_subseq split: option.split)
  then have "subseq (map mt_name ts) (map mt_name RESNET18_CIFAR_TENSORS)"
    using sub by (meson subseq_map subseq_order.trans)
  then have names: "distinct (map mt_name ts)" using resnet_names by (rule subseq_distinct)
  show ?thesis
    by (rule exI [of _ s])
       (use ts sub names resnet_size first_of_each_fresh [of "{}" RESNET18_CIFAR_TENSORS] in \<open>simp add: s_def\<close>)
qed

theorem select_model_tensors_exact_witness:
  "map mt_name (projr (select_model_tensors ''distinct'' (Some 3))) = [''conv1.weight'', ''bn1.weight'', ''layer1.0.conv1.weight'']
    \<and> distinct (map mt_name (projr (select_model_tensors ''distinct'' (Some 3))))"
proof -
  have "case select_model_tensors ''distinct'' (Some 3) of Inl e \<Rightarrow> False
     | Inr ts \<Rightarrow> map mt_name ts = [''conv1.weight'', ''bn1.weight'', ''layer1.0.conv1.weight'']" by code_simp
  then obtain ts where "select_model_tensors ''distinct'' (Some 3) = Inr ts"
    "map mt_name ts = [''conv1.weight'', ''bn1.weight'', ''layer1.0.conv1.weight'']" by (auto split: sum.splits)
  then show ?thesis using select_model_tensors_exact [of "''distinct''" "Some 3" ts] by auto
qed

subsection \<open>The files of a family\<close>

text \<open>
  \<open>on_disk\<close>: the recorded provenance of every input names its file, and the recorded digest is the
  digest of the bytes the file holds.
\<close>

definition digest_on_disk :: "input_ops \<Rightarrow> fs \<Rightarrow> path \<Rightarrow> string option" where
  "digest_on_disk ops fs p = (case read_file fs p of Some (Bytes b) \<Rightarrow> Some (io_sha256 ops b) | _ \<Rightarrow> None)"

definition on_disk :: "input_ops \<Rightarrow> path \<Rightarrow> fs \<Rightarrow> string \<times> generated_input \<Rightarrow> bool" where
  "on_disk ops dir fs e =
     (gi_path (snd e) = dir @ [input_file (fst e)] \<and> distinct (map fst (gi_provenance (snd e)))
      \<and> get_field (gi_provenance (snd e)) ''filename'' = JStr (input_file (fst e))
      \<and> map_option JStr (digest_on_disk ops fs (gi_path (snd e))) = Some (get_field (gi_provenance (snd e)) ''sha256''))"

definition all_on_disk :: "input_ops \<Rightarrow> path \<Rightarrow> (string \<times> generated_input) list \<Rightarrow> fs \<Rightarrow> bool" where
  "all_on_disk ops dir acc fs = (distinct (map fst acc) \<and> list_all (on_disk ops dir fs) acc)"

lemma all_on_disk_Nil [simp]: "all_on_disk ops dir [] fs"
  by (simp add: all_on_disk_def)

lemma write_input_result:
  assumes "write_input ops dir name vs fs = Inr ((sha, p), fs')"
  shows "sha = io_sha256 ops (io_bytes ops vs)" "p = dir @ [name]" "fs' = put p (File (Bytes (io_bytes ops vs))) fs"
  using assms by (auto simp: write_input_def Let_def write_file_def split: if_splits)

lemma input_file_inj [simp]: "input_file k = input_file k' \<longleftrightarrow> k = k'"
  by (simp add: input_file_def)

lemma dict_set_items: "e \<in> set (dict_set items k v) \<Longrightarrow> distinct (map fst items) \<Longrightarrow> e = (k, v) \<or> e \<in> set items \<and> fst e \<noteq> k"
  by (induction items k v rule: dict_set.induct) (auto split: if_splits intro: rev_image_eqI)

lemma all_on_disk_step:
  assumes "all_on_disk ops dir acc fs" and w: "write_input ops dir (input_file key) vs fs = Inr ((sha, p), fs')"
    and "get_field prov ''filename'' = JStr (last p)" "get_field prov ''sha256'' = JStr sha" "distinct (map fst prov)"
  shows "all_on_disk ops dir (dict_set acc key \<lparr>gi_path = p, gi_provenance = prov\<rparr>) fs'"
proof -
  note r = write_input_result [OF w]
  have d: "distinct (map fst acc)" using assms(1) by (simp add: all_on_disk_def)
  have "on_disk ops dir fs' e" if e: "e \<in> set (dict_set acc key \<lparr>gi_path = p, gi_provenance = prov\<rparr>)" for e
  proof -
    consider "e = (key, \<lparr>gi_path = p, gi_provenance = prov\<rparr>)" | "e \<in> set acc" "fst e \<noteq> key"
      using dict_set_items [OF e d] by blast
    then show ?thesis
    proof cases
      case 1
      then show ?thesis using assms(3-5) r by (simp add: on_disk_def digest_on_disk_def read_file_def)
    next
      case 2
      then have "on_disk ops dir fs e" using assms(1) by (simp add: all_on_disk_def list_all_iff)
      moreover have "gi_path (snd e) = dir @ [input_file (fst e)]" using calculation by (simp add: on_disk_def)
      then have "digest_on_disk ops fs' (gi_path (snd e)) = digest_on_disk ops fs (gi_path (snd e))"
        using 2(2) r by (simp add: digest_on_disk_def read_file_def)
      ultimately show ?thesis by (auto simp: on_disk_def)
    qed
  qed
  then show ?thesis using dict_set_distinct [OF d] by (simp add: all_on_disk_def list_all_iff)
qed

lemma sparse_loop_on_disk:
  "sparse_loop ops dir seed items acc fs = Inr (out, fs') \<Longrightarrow> all_on_disk ops dir acc fs \<Longrightarrow> all_on_disk ops dir out fs'"
proof (induction items arbitrary: acc fs)
  case (Cons item rest)
  obtain n dense where item: "item = (n, dense)" by fastforce
  obtain vs realised where s: "sparsify (io_uniform ops) dense SPARSE_MASK_SEED SPARSE_ZERO_FRACTION = (vs, realised)"
    by fastforce
  obtain sha p fs1 where w: "write_input ops dir (input_file (''sparse_n'' @ str_nat n)) vs fs = Inr ((sha, p), fs1)"
    and l: "sparse_loop ops dir seed rest (dict_set acc (''sparse_n'' @ str_nat n)
       \<lparr>gi_path = p, gi_provenance = sparse_provenance seed n (''sparse_n'' @ str_nat n) (last p) realised sha\<rparr>) fs1 = Inr (out, fs')"
    using Cons.prems(1) by (auto simp: item s Let_def result_simps)
  show ?case
    by (rule Cons.IH [OF l])
       (rule all_on_disk_step [OF Cons.prems(2) w]; simp add: sparse_provenance_def get_field_def)
qed simp

lemma model_loop_on_disk:
  "model_loop ops dir seed ts acc fs = Inr (out, fs') \<Longrightarrow> all_on_disk ops dir acc fs \<Longrightarrow> all_on_disk ops dir out fs'"
proof (induction ts arbitrary: acc fs)
  case (Cons t ts)
  obtain vs sha p fs1 seeds where w: "write_input ops dir (input_file (''model_'' @ mt_name t)) vs fs = Inr ((sha, p), fs1)"
    and l: "model_loop ops dir seed ts (dict_set acc (''model_'' @ mt_name t)
       \<lparr>gi_path = p, gi_provenance = model_provenance t seeds (''model_'' @ mt_name t) (last p) sha\<rparr>) fs1 = Inr (out, fs')"
    using Cons.prems(1) by (auto simp: Let_def result_simps)
  show ?case
    by (rule Cons.IH [OF l])
       (rule all_on_disk_step [OF Cons.prems(2) w]; simp add: model_provenance_def get_field_def)
qed simp

lemma str_nat_inj: "str_nat m = str_nat n \<Longrightarrow> m = n"
  using digits_value_str_nat by (metis option.inject)

lemma dict_set_map_key:
  "inj f \<Longrightarrow> map (\<lambda>e. (f (fst e), snd e)) (dict_set items k v) = dict_set (map (\<lambda>e. (f (fst e), snd e)) items) (f k) v"
  by (induction items k v rule: dict_set.induct) (auto dest: injD)

lemma generate_loop_on_disk:
  "generate_loop ops dir seed ns acc fs = Inr (out, fs')
     \<Longrightarrow> all_on_disk ops dir (map (\<lambda>e. (''n'' @ str_nat (fst e), snd e)) acc) fs
     \<Longrightarrow> all_on_disk ops dir (map (\<lambda>e. (''n'' @ str_nat (fst e), snd e)) out) fs'"
proof (induction ns arbitrary: acc fs)
  case (Cons n ns)
  have inj: "inj (\<lambda>n. ''n'' @ str_nat n)" by (rule injI) (simp add: str_nat_inj)
  obtain sha p fs1 where w: "write_input ops dir (input_file (''n'' @ str_nat n))
       (map (fp_cast binary32) (io_normal ops [int n, seed] n)) fs = Inr ((sha, p), fs1)"
    and l: "generate_loop ops dir seed ns (dict_set acc n \<lparr>gi_path = p, gi_provenance = dense_provenance ops seed n (last p) sha\<rparr>) fs1
       = Inr (out, fs')"
    using Cons.prems(1) by (auto simp: result_simps)
  have "all_on_disk ops dir (dict_set (map (\<lambda>e. (''n'' @ str_nat (fst e), snd e)) acc) (''n'' @ str_nat n)
       \<lparr>gi_path = p, gi_provenance = dense_provenance ops seed n (last p) sha\<rparr>) fs1"
    by (rule all_on_disk_step [OF Cons.prems(2) w]) (simp_all add: dense_provenance_def get_field_def)
  then show ?case using Cons.IH [OF l] dict_set_map_key [OF inj, of acc n] by simp
qed simp

lemma map_of_dict_update:
  "distinct (map fst new) \<Longrightarrow> map_of (dict_update items new) k = (case map_of new k of None \<Rightarrow> map_of items k | Some v \<Rightarrow> Some v)"
proof (induction new arbitrary: items)
  case Nil
  then show ?case by (simp add: dict_update_def)
next
  case (Cons e new)
  have "map_of new (fst e) = None" using Cons.prems by (simp add: map_of_eq_None_iff)
  moreover have "dict_update items (e # new) = dict_update (dict_set items (fst e) (snd e)) new"
    by (simp add: dict_update_def split_beta)
  ultimately show ?case using Cons.IH [of "dict_set items (fst e) (snd e)"] Cons.prems
    by (cases e) (auto split: option.splits)
qed

lemma dict_update_distinct: "distinct (map fst items) \<Longrightarrow> distinct (map fst (dict_update items new))"
  by (induction new arbitrary: items) (auto simp: dict_update_def dict_set_distinct)

lemma get_dict_update:
  "distinct (map fst new) \<Longrightarrow> map_of new k = Some v \<Longrightarrow> get_field (dict_update items new) k = v"
  by (simp add: get_field_def map_of_dict_update)

lemma input_error_Inr: "input_error_of m = Inr x \<longleftrightarrow> m = Inr x"
  by (cases m) (auto simp: input_error_of_def)

lemma family_entry_on_disk:
  assumes "on_disk ops dir fs (''n'' @ str_nat (fst e), snd e)"
  shows "on_disk ops dir fs (family_entry e)"
proof -
  let ?new = "gi_provenance (snd e)"
  have d: "distinct (map fst ?new)" using assms by (simp add: on_disk_def)
  have g: "get_field (dict_update items ?new) k = get_field ?new k" if "get_field ?new k = JStr s" for items k s
    using that by (auto simp: get_field_def map_of_dict_update [OF d] split: option.splits)
  obtain z where z: "digest_on_disk ops fs (gi_path (snd e)) = Some z" "get_field ?new ''sha256'' = JStr z"
    using assms by (auto simp: on_disk_def)
  then show ?thesis using assms
    by (auto simp: on_disk_def family_entry_def Let_def g [OF z(2)] g dict_update_distinct)
qed

lemma family_inputs_facts:
  assumes "generate_family_inputs ops family counts dir seed mode limit fs = Inr (out, fs')"
  shows "distinct (map fst out) \<and> list_all (on_disk ops dir fs') out"
proof -
  consider (d) items fs1 where "generate_loop ops dir seed counts [] fs1 = Inr (items, fs')" "out = map family_entry items"
    | (s) items fs1 where "sparse_loop ops dir seed items [] fs1 = Inr (out, fs')"
    | (m) ts fs1 where "model_loop ops dir seed ts [] fs1 = Inr (out, fs')"
    using assms by (auto simp: generate_family_inputs_def generate_inputs_def result_simps input_error_Inr split: if_splits)
  then show ?thesis
  proof cases
    case d
    from generate_loop_on_disk [OF d(1)]
    have "all_on_disk ops dir (map (\<lambda>e. (''n'' @ str_nat (fst e), snd e)) items) fs'" by simp
    moreover have "map fst (map family_entry items) = map fst (map (\<lambda>e. (''n'' @ str_nat (fst e), snd e)) items)"
      by (simp add: family_entry_def Let_def)
    ultimately have "distinct (map fst (map family_entry items))" and "list_all (on_disk ops dir fs') (map family_entry items)"
      by (simp_all only: all_on_disk_def) (auto simp: list_all_iff family_entry_on_disk)
    then show ?thesis by (simp only: d(2))
  next
    case s
    from sparse_loop_on_disk [OF s] show ?thesis by (simp add: all_on_disk_def)
  next
    case m
    from model_loop_on_disk [OF m] show ?thesis by (simp add: all_on_disk_def)
  qed
qed

text \<open>
  C30: Whatever family is generated, the inputs returned have distinct keys and lie in the
  directory asked for under their own key, and for each of them the provenance names the file and
  records the digest of the bytes the file holds when generation is over.
\<close>

theorem family_inputs_on_disk:
  assumes "generate_family_inputs ops family counts dir seed mode limit fs = Inr (out, fs')"
  shows "distinct (map fst out) \<and> list_all (on_disk ops dir fs') out"
  by (rule family_inputs_facts [OF assms])

definition sample_ops :: input_ops where
  "sample_ops = \<lparr>io_normal = (\<lambda>seeds n. replicate n (FFin False 1)), io_uniform = (\<lambda>seed n. replicate n fp_zero),
     io_bit_generator = ''PCG64'', io_bytes = (\<lambda>vs. map (\<lambda>v. 0) vs), io_sha256 = (\<lambda>b. replicate (length b) CHR ''0'')\<rparr>"

theorem family_inputs_on_disk_witness:
  "\<exists>out fs'. generate_family_inputs sample_ops ''dense'' [2, 0, 2] [''out''] 7 ''distinct'' None [] = Inr (out, fs')
     \<and> map fst out = [''n2'', ''n0''] \<and> list_all (on_disk sample_ops [''out''] fs') out"
proof -
  have "case generate_family_inputs sample_ops ''dense'' [2, 0, 2] [''out''] 7 ''distinct'' None [] of
      Inl e \<Rightarrow> False | Inr r \<Rightarrow> map fst (fst r) = [''n2'', ''n0'']" by code_simp
  then obtain out fs' where g: "generate_family_inputs sample_ops ''dense'' [2, 0, 2] [''out''] 7 ''distinct'' None [] = Inr (out, fs')"
    and "map fst out = [''n2'', ''n0'']" by (auto split: sum.splits)
  then show ?thesis using family_inputs_on_disk [OF g] g
    by (intro exI [of _ out] exI [of _ fs'] conjI) auto
qed

end
