(* ===== verification/Documents.thy ===== *)
theory Documents
  imports Sweep Inputs
begin

text \<open>
  The JSON documents a sweep writes: the case record with its trial runs and statistics
  (\<open>build_case_stubs\<close>, \<open>warm_up_case\<close>, \<open>run_trials\<close>, \<open>compute_case_group_statistics\<close> in
  \<open>src/stoquant/sweep.py\<close>, the dictionaries of \<open>src/stoquant/stats.py\<close>) and the manifest of
  \<open>write_manifest\<close>. Dictionaries list their items in the order the code inserts them. The lemmas
  say what a reader finds under the keys it looks up, and that the file names of a sweep differ.
\<close>

subsection \<open>Statistics\<close>

definition float_or_null :: "fp option \<Rightarrow> json" where
  "float_or_null v = (case v of None \<Rightarrow> JNull | Some x \<Rightarrow> JFloat x)"

definition speedup_items :: "string \<Rightarrow> speedup \<Rightarrow> (string \<times> json) list" where
  "speedup_items point_key sp =
     [(point_key, float_or_null (point sp)), (''speedup_low'', float_or_null (speedup_low sp)),
      (''speedup_high'', float_or_null (speedup_high sp)), (''speedup_ci_low'', float_or_null (speedup_ci_low sp)),
      (''speedup_ci_high'', float_or_null (speedup_ci_high sp)), (''verdict'', JStr (verdict_text (verdict sp)))]"

definition claim_items :: "claims \<Rightarrow> (string \<times> json) list" where
  "claim_items k =
     [(''direction_supported'', JBool (direction_supported k)), (''magnitude_supported'', JBool (magnitude_supported k)),
      (''claim_supported_rev2'', JBool (claim_supported_rev2 k))]"

definition no_claim_items :: "(string \<times> json) list" where
  "no_claim_items = [(''direction_supported'', JNull), (''magnitude_supported'', JNull), (''claim_supported_rev2'', JNull)]"

definition sample_items :: "sample_stats \<Rightarrow> (string \<times> json) list" where
  "sample_items st =
     [(''median_ms'', JFloat (median_ms st)), (''iqr_ms'', JFloat (iqr_ms st)), (''q25_ms'', JFloat (q25_ms st)),
      (''q75_ms'', JFloat (q75_ms st)), (''min_ms'', JFloat (min_ms st)), (''max_ms'', JFloat (max_ms st)),
      (''mean_ms'', JFloat (mean_ms st)), (''std_ms'', JFloat (std_ms st))]"

definition case_stats_items :: "case_stats \<Rightarrow> (string \<times> json) list" where
  "case_stats_items st =
     (case pooled st of None \<Rightarrow> [] | Some p \<Rightarrow> sample_items p)
     @ [(''trial_medians_ms'', JList (map JFloat (trial_medians_ms st))),
        (''trial_median_min_ms'', JFloat (trial_median_min_ms st)), (''trial_median_max_ms'', JFloat (trial_median_max_ms st)),
        (''spread_ratio'', JFloat (spread_ratio st)), (''unstable_rev2'', JBool (unstable_rev2 st)),
        (''spread_p90_p10'', JFloat (spread_p90_p10 st)), (''stable'', JBool (stable st))]"

definition descriptive_items :: "string \<Rightarrow> string \<Rightarrow> speedup option \<Rightarrow> (string \<times> json) list" where
  "descriptive_items key point_key sp =
     (case sp of None \<Rightarrow> [] | Some sp \<Rightarrow> [(key, JObj (speedup_items point_key sp @ [(''descriptive'', JBool True)]))])"

definition pair_items :: "string \<Rightarrow> string \<Rightarrow> (speedup \<times> bool \<times> claims) option \<Rightarrow> (string \<times> json) list" where
  "pair_items key point_key pair =
     (case pair of
        None \<Rightarrow> []
      | Some (sp, inverted, k) \<Rightarrow>
          [(key, JObj (speedup_items point_key sp @ [(''boundary_inversion'', JBool inverted)] @ claim_items k))])"

definition annotation_items :: "annotation \<Rightarrow> (string \<times> json) list" where
  "annotation_items a =
     [(''baseline'', JStr (base a))] @ speedup_items ''speedup_vs_cpu'' (vs_cpu a)
     @ [(''boundary_inversion'', JBool (inversion a))]
     @ (if descriptive a then [(''descriptive'', JBool True)] else [])
     @ (case support a of NoClaims \<Rightarrow> no_claim_items | Claims k \<Rightarrow> claim_items k)
     @ descriptive_items ''vs_cpu_avx2'' ''speedup_vs_cpu_avx2'' (vs_cpu_avx2 a)
     @ pair_items ''vs_pageable'' ''speedup_vs_pageable'' (vs_pageable a)
     @ descriptive_items ''vs_comparator'' ''speedup_vs_comparator'' (vs_comparator a)"

definition statistics_document :: "bench_case \<Rightarrow> json" where
  "statistics_document c =
     (case bc_statistics c of
        None \<Rightarrow> JNull
      | Some st \<Rightarrow> JObj (case_stats_items st
          @ (case bc_annotation c of None \<Rightarrow> [] | Some a \<Rightarrow> annotation_items a)
          @ pair_items ''vs_resident'' ''speedup_vs_resident'' (bc_resident c)))"

subsection \<open>Trial runs and warm-up\<close>

definition compact_document :: "compact_ids \<Rightarrow> json" where
  "compact_document ids =
     (case ids of
        NoIds \<Rightarrow> JNull
      | IdList xs \<Rightarrow> JList (map JInt xs)
      | Repeated x n \<Rightarrow> JObj [(''repeated'', JInt x), (''count'', JInt (int n))]
      | Contiguous x y n \<Rightarrow> JObj [(''first'', JInt x), (''last'', JInt y), (''count'', JInt (int n))])"

definition run_document :: "trial_run \<Rightarrow> json" where
  "run_document r =
     JObj ([(''trial'', JInt (int (tr_trial r))), (''position'', JInt (int (tr_position r))),
            (''order'', JList (map JStr (tr_order r))), (''repetition_invocation_ids'', tr_rep_ids r),
            (''warmup_invocation_ids'', compact_document (tr_warm_ids r)), (''samples_ms'', JList (tr_samples r))]
       @ (case tr_threads r of None \<Rightarrow> [] | Some t \<Rightarrow> [(''threads'', t)])
       @ (if tr_capture r = JNull then [] else [(''capture_and_instantiate_ms'', tr_capture r)])
       @ tr_stages r)"

definition in_process_document :: "in_process_warmup \<Rightarrow> json" where
  "in_process_document w =
     JObj [(''target_seconds'', JFloat (ip_target w)), (''probe_warmup'', JInt (int (ip_probe_warmup w))),
           (''probe_reps'', JInt (int (ip_probe_reps w))), (''probe_median_ms'', JFloat (ip_probe_median w)),
           (''warmup'', JInt (ip_warmup w))]"

definition stage_document :: "((string \<times> fp) list \<times> fp) option \<Rightarrow> json" where
  "stage_document m =
     (case m of None \<Rightarrow> JNull
      | Some (medians, other) \<Rightarrow> JObj (map (\<lambda>(k, x). (k, JFloat x)) medians @ [(''other_ms'', JFloat other)]))"

subsection \<open>The case record\<close>

text \<open>
  \<open>run_setup\<close> holds the blocks that the set-up collects; the warm-up block of a case carries the
  elapsed time and the GPU state after it, which \<open>gpu_block\<close> gives for the processes it counted.
\<close>

record run_setup =
  rs_binary :: string
  rs_build_stamp :: json
  rs_probe_stamp :: "json option"
  rs_hardware :: json
  rs_toolkit :: json
  rs_build_flags :: "(string \<times> json) list"
  rs_device :: "json option"
  rs_gpu_start :: json
  rs_temp :: path

definition case_flags :: "sweep_settings \<Rightarrow> run_setup \<Rightarrow> json" where
  "case_flags s setup =
     JObj ([(''comparator_c'', get_field (rs_build_flags setup) ''comparator_c''),
            (''cuda_nvcc'', get_field (rs_build_flags setup) ''cuda_nvcc'')]
       @ (if has_avx2 s then [(''avx2_c'', get_field (rs_build_flags setup) ''avx2_c'')] else []))"

definition provenance_document :: "(string \<times> generated_input) list \<Rightarrow> string \<Rightarrow> json" where
  "provenance_document generated key = (case map_of generated key of None \<Rightarrow> JNull | Some g \<Rightarrow> JObj (gi_provenance g))"

definition case_document ::
  "sweep_settings \<Rightarrow> run_setup \<Rightarrow> (string \<times> json) list \<Rightarrow> (string \<times> generated_input) list \<Rightarrow> (nat \<Rightarrow> json) \<Rightarrow> bench_case \<Rightarrow> (string \<times> json) list" where
  "case_document s setup git generated gpu_block c =
     [(''case_id'', JStr (bc_id c)), (''count'', JInt (int (bc_count c))), (''input_family'', JStr (sw_family s)),
      (''input_key'', JStr (bc_key c)), (''bits'', JInt (int (bc_bits c))), (''backend'', JStr (backend (bc_path c))),
      (''timing_boundary'', JStr (boundary (bc_path c))), (''transfer_policy'', JStr (policy (bc_path c))),
      (''path_label'', JStr (path_label (bc_path c))),
      (''configuration'', JObj [(''k1'', case bc_k1 c of None \<Rightarrow> JNull | Some k \<Rightarrow> JStr k)]),
      (''seed'', JInt (bc_seed c)), (''tensor_id'', JInt 0), (''invocation_id'', JInt 0), (''warmup'', JInt (bc_warmup c)),
      (''in_process_warmup'', case bc_in_process c of None \<Rightarrow> JNull | Some w \<Rightarrow> in_process_document w),
      (''reps'', JInt (int (bc_reps c))), (''trials'', JInt (int (bc_trials c))),
      (''header_bytes'', JInt (int header_size)), (''payload_bytes'', JInt (int (bc_payload_bytes c))),
      (''code_revision'', get_field git ''code_revision''), (''code_revision_short'', get_field git ''code_revision_short''),
      (''git_dirty'', get_field git ''git_dirty''), (''build_flags'', case_flags s setup),
      (''hardware'', rs_hardware setup), (''toolkit_and_driver'', rs_toolkit setup),
      (''input_provenance'', provenance_document generated (bc_key c)), (''correctness'', JObj (bc_correctness c)),
      (''execution_index'', JInt (int (bc_execution_index c))),
      (''case_warmup'', case bc_case_warmup c of None \<Rightarrow> JNull | Some n \<Rightarrow> gpu_block n),
      (''trial_runs'', JList (map run_document (bc_runs c))), (''samples_ms'', JList (bc_samples c)),
      (''statistics'', statistics_document c), (''stage_medians_ms'', stage_document (bc_stage_medians c))]
     @ (case bc_threads c of None \<Rightarrow> [] | Some t \<Rightarrow> [(''threads'', t)])
     @ (case bc_runs c of [] \<Rightarrow> []
        | r # rs \<Rightarrow> [(''repetition_invocation_ids'', tr_rep_ids r), (''warmup_invocation_ids'', compact_document (tr_warm_ids r))])"

text \<open>
  \<open>warm_up_gpu\<close> returns the seconds asked for and elapsed, the workload and the number of processes;
  \<open>stem\<close> is the input's file name without its suffix.
\<close>

definition warmup_items :: "fp \<Rightarrow> (nat \<Rightarrow> fp) \<Rightarrow> string \<Rightarrow> nat \<Rightarrow> (string \<times> json) list" where
  "warmup_items requested elapsed stem n =
     [(''seconds_requested'', JFloat requested), (''seconds_elapsed'', JFloat (elapsed n)),
      (''workload'', JStr (''cuda resident, 8-bit, '' @ stem @ '', '' @ str_nat GPU_WARMUP_REPS @ '' reps per process'')),
      (''processes'', JInt (int n))]"

subsection \<open>The manifest\<close>

definition QUANTILE_METHOD :: string where "QUANTILE_METHOD = ''linear''"

definition BASELINE_RULE :: string where
  "BASELINE_RULE =
     ''every path is measured against a policy-matched CPU baseline: resident, resident-graph, ''
     @ ''host-origin, and CPU gpu-origin paths against the CPU comparator (host-host); CUDA ''
     @ ''gpu-origin against CPU gpu-origin of the same transfer policy. Pinned paths add ''
     @ ''vs_pageable against their pageable twin; CUDA gpu-origin adds a descriptive ''
     @ ''vs_comparator with no claim flags''"

definition VERDICT_RULE :: string where
  "VERDICT_RULE =
     ''verdict is 'faster' when baseline trial-median minimum / candidate trial-median maximum ''
     @ ''> 1, 'slower' when baseline trial-median maximum / candidate trial-median minimum < 1, ''
     @ ''and 'inconclusive' otherwise''"

definition DIRECTION_RULE :: string where
  "DIRECTION_RULE =
     ''direction_supported: verdict is not 'inconclusive' and boundary_inversion is false ''
     @ ''(host-origin pooled median is not below the pooled median of any resident path)''"

text \<open>The two thresholds print as \<open>1.25\<close>, the level as \<open>95%\<close>.\<close>

definition MAGNITUDE_RULE :: string where
  "MAGNITUDE_RULE =
     ''magnitude_supported: direction_supported and both the candidate and the baseline have ''
     @ ''spread_p90_p10 <= 1.25 (90th over 10th percentile of trial medians, ''
     @ ''numpy method '' @ [CHR 0x27] @ QUANTILE_METHOD @ [CHR 0x27] @ '')''"

definition CLAIM_RULE_REV2 :: string where
  "CLAIM_RULE_REV2 =
     ''claim_supported_rev2: verdict is not 'inconclusive', boundary_inversion is false, and ''
     @ ''both the candidate and the baseline have spread_ratio <= 1.25 ''
     @ ''(maximum over minimum trial median)''"

definition BOOTSTRAP_RULE :: string where
  "BOOTSTRAP_RULE =
     ''95% percentile bootstrap: resample each path's trial medians with ''
     @ ''replacement, independently, 10000 times from ''
     @ ''numpy.random.default_rng(31); the statistic is the baseline median of ''
     @ ''resampled trial medians over the candidate median of resampled trial medians''"

definition statistics_method :: "string \<Rightarrow> json" where
  "statistics_method numpy_version =
     JObj [(''pooled'', JStr ''median and IQR over all measured repetitions of all trials''),
       (''quantile_method'', JStr (''numpy.percentile(method='' @ [CHR 0x27] @ QUANTILE_METHOD @ [CHR 0x27] @ '')'')),
       (''numpy_version'', JStr numpy_version),
       (''speedup_point'', JStr ''baseline pooled median / candidate pooled median''),
       (''speedup_range'', JStr (''[baseline min trial median / candidate max trial median, ''
            @ ''baseline max trial median / candidate min trial median]'')),
       (''spread_ratio'', JStr ''max trial median / min trial median''),
       (''spread_threshold'', JFloat SPREAD_THRESHOLD),
       (''spread_p90_p10'', JStr ''p90 / p10 of the trial medians''),
       (''stability_threshold'', JFloat STABILITY_THRESHOLD),
       (''claim_rules'', JObj [(''verdict'', JStr VERDICT_RULE), (''direction_supported'', JStr DIRECTION_RULE),
          (''magnitude_supported'', JStr MAGNITUDE_RULE), (''claim_supported_rev2'', JStr CLAIM_RULE_REV2),
          (''baselines'', JStr BASELINE_RULE)]),
       (''bootstrap'', JObj [(''resamples'', JInt (int BOOTSTRAP_RESAMPLES)), (''seed'', JInt (int BOOTSTRAP_SEED)),
          (''level'', JFloat BOOTSTRAP_LEVEL), (''rule'', JStr BOOTSTRAP_RULE)])]"

text \<open>The settings of a run beyond those its sweep reads.\<close>

record session_settings =
  ss_sweep :: sweep_settings
  ss_target :: path
  ss_date :: string
  ss_git :: "(string \<times> json) list"
  ss_conditions :: run_conditions
  ss_condition_items :: "(string \<times> json) list"
  ss_policies :: "string list"
  ss_input_seed :: int
  ss_model_tensors :: "string option"
  ss_model_limit :: "int option"
  ss_monitoring :: "(string \<times> int) option"

text \<open>\<open>model_tensors or "distinct"\<close>.\<close>

definition tensor_set :: "session_settings \<Rightarrow> string" where
  "tensor_set ss = (case ss_model_tensors ss of Some (c # cs) \<Rightarrow> c # cs | _ \<Rightarrow> ''distinct'')"

text \<open>\<open>sorted({c["threads"] for c in case_results if "threads" in c})\<close>; the counts are integers.\<close>

definition thread_counts :: "bench_case list \<Rightarrow> int list" where
  "thread_counts cases =
     sort (remdups (concat (map (\<lambda>c. case bc_threads c of Some (JInt z) \<Rightarrow> [z] | _ \<Rightarrow> []) cases)))"

definition conditions_document :: "run_conditions \<Rightarrow> (string \<times> json) list \<Rightarrow> json" where
  "conditions_document rc items =
     JObj ([(''evidence'', JBool (rc_evidence rc)), (''non_evidence_reasons'', JList (map JStr (rc_reasons rc)))] @ items)"

definition matrix_parameters ::
  "session_settings \<Rightarrow> sweep_inputs \<Rightarrow> sweep_manifest \<Rightarrow> bench_case list \<Rightarrow> json" where
  "matrix_parameters ss inputs mf cases =
     (let s = ss_sweep ss; dense = (sw_family s = ''dense''); model = (sw_family s = ''model'') in
      JObj ([(''k1'', JStr (sw_k1 s)), (''input_family'', JStr (sw_family s)),
        (''counts'', JList (map (\<lambda>n. JInt (int n)) (if model then map (si_count inputs) (si_keys inputs) else sw_counts s))),
        (''model_tensors'', if model then JStr (tensor_set ss) else JNull),
        (''model_limit'', case ss_model_limit ss of None \<Rightarrow> JNull | Some n \<Rightarrow> JInt n),
        (''bit_widths'', JList (map (\<lambda>b. JInt (int b)) (sw_bits s))), (''backends'', JList (map JStr (sw_backends s))),
        (''warmup'', JInt (int (sw_warmups s))), (''in_process_warmup_seconds'', JFloat (sw_in_process_seconds s)),
        (''in_process_warmup_rule'', JStr (if fp_zero < sw_in_process_seconds s
            then ''per path: max(warmup, ceil(target_seconds * 1000 / probe median ms)), ''
                 @ ''probe = one untimed stoquant bench process with the base warmup and reps''
            else ''disabled; every path uses the base warmup'')),
        (''reps'', JInt (int (sw_reps s))), (''trials'', JInt (int (sw_trials s))),
        (''paths'', JList (map JStr (mf_paths mf)))]
      @ (if has_avx2 s then [(''cpu_avx2_threads'', JList (map JInt (thread_counts cases))),
           (''cpu_avx2_threads_rule'', JStr (''stoquant default: logical processors in the inherited affinity mask ''
              @ ''(Windows; online processors elsewhere)''))] else [])
      @ [(''trial_design'', JStr (mf_trial_design mf)),
         (''trial_orders'', JList (map (\<lambda>row. JList (map JStr row)) (mf_trial_orders mf))),
         (''case_order_seed'', JInt (sw_case_order_seed s)),
         (''case_order'', JList (map (\<lambda>(k, n, b). JObj ((if dense then [] else [(''input'', JStr k)])
              @ [(''count'', JInt (int n)), (''bits'', JInt (int b))])) (mf_case_order mf))),
         (''invocation_scheme'', JStr (''every trial reuses base invocation 0; identifiers per repetition are ''
              @ ''copied from each stoquant bench configuration'')),
         (''input_seed'', JInt (ss_input_seed ss)), (''compression_seed'', JInt (sw_seed s))]))"

text \<open>The readings of the GPU around the run and its warm-up block.\<close>

record gpu_readings =
  gr_warmup :: json
  gr_after :: json
  gr_end :: json

definition gpu_state_document :: "run_setup \<Rightarrow> gpu_readings \<Rightarrow> json" where
  "gpu_state_document setup gr =
     JObj [(''note'', JStr (''Instantaneous nvidia-smi readings before the warm-up, after it, and after ''
              @ ''the last timed process; they describe the GPU around the run, not clock ''
              @ ''stability during it.'')),
           (''start'', rs_gpu_start setup), (''warmup'', gr_warmup gr), (''after_warmup'', gr_after gr), (''end'', gr_end gr)]"

text \<open>JSON object keys are texts: a count that keys the inputs is printed.\<close>

definition inputs_document :: "bool \<Rightarrow> sweep_inputs \<Rightarrow> (string \<times> generated_input) list \<Rightarrow> json" where
  "inputs_document dense inputs generated =
     JObj (map (\<lambda>(k, g). (if dense then str_nat (si_count inputs k) else k, JObj (gi_provenance g))) generated)"

definition manifest_document ::
  "session_settings \<Rightarrow> run_setup \<Rightarrow> sweep_inputs \<Rightarrow> (string \<times> generated_input) list \<Rightarrow> gpu_readings \<Rightarrow> json \<Rightarrow> string
     \<Rightarrow> sweep_result \<Rightarrow> (string \<times> json) list" where
  "manifest_document ss setup inputs generated gr created numpy_version res =
     (let s = ss_sweep ss; mf = sr_manifest res in
      [(''manifest_version'', JStr (if rs_probe_stamp setup = None then ''3.3'' else ''3.4'')), (''date'', JStr (ss_date ss)),
       (''created_at_utc'', created), (''git_provenance'', JObj (ss_git ss))]
      @ (case ss_monitoring ss of None \<Rightarrow> []
         | Some (provider, interval) \<Rightarrow> [(''monitoring'', JObj [(''provider'', JStr provider), (''heartbeat_interval_seconds'', JInt interval)])])
      @ [(''hardware'', rs_hardware setup)]
      @ (case rs_device setup of None \<Rightarrow> [] | Some d \<Rightarrow> [(''device'', d)])
      @ [(''toolkit_and_driver'', rs_toolkit setup), (''build_flags'', JObj (rs_build_flags setup)),
         (''build_stamp'', rs_build_stamp setup)]
      @ (case rs_probe_stamp setup of None \<Rightarrow> [] | Some p \<Rightarrow> [(''probe_build_stamp'', p)])
      @ [(''transfer_policies'', JList (map JStr (ss_policies ss))), (''gpu_state'', gpu_state_document setup gr),
         (''matrix_parameters'', matrix_parameters ss inputs mf (sr_cases res)),
         (''statistics_method'', statistics_method numpy_version),
         (''run_conditions'', conditions_document (mf_conditions mf) (ss_condition_items ss)),
         (''inputs'', inputs_document (sw_family s = ''dense'') inputs generated),
         (''summary_csv'', JStr ''summary.csv''), (''msvc_vectorization_report'', JStr ''msvc_vectorization_report.txt''),
         (''cases'', JList (map JStr (mf_cases mf))), (''all_cases_passed'', JBool (mf_all_passed mf))])"

lemma manifest_lookup:
  "get_field (manifest_document ss setup inputs generated gr created nv res) ''cases'' = JList (map JStr (mf_cases (sr_manifest res)))"
  "get_field (manifest_document ss setup inputs generated gr created nv res) ''run_conditions''
     = conditions_document (mf_conditions (sr_manifest res)) (ss_condition_items ss)"
  "get_field (manifest_document ss setup inputs generated gr created nv res) ''all_cases_passed'' = JBool (mf_all_passed (sr_manifest res))"
  by (auto simp: manifest_document_def get_field_def Let_def split: option.split)

end
