(* ===== verification/Schema.thy ===== *)
theory Schema
  imports Files
begin

text \<open>
  The JSON contract of \<open>src/stoquant/schema.py\<close>: writing and reading a case record, a manifest and a
  whole snapshot. A document that \<open>json.dumps\<close> wrote is the value \<open>json.loads\<close> gives for it. The
  lemmas show what a reader finds in a directory of records.
\<close>

text \<open>
  \<open>Path(s).name\<close>: the last part of a POSIX path, empty parts and single dots being no parts.
\<close>

fun split_slash :: "string \<Rightarrow> string \<Rightarrow> string list" where
  "split_slash acc [] = [acc]"
| "split_slash acc (c # cs) = (if c = CHR ''/'' then acc # split_slash [] cs else split_slash (acc @ [c]) cs)"

definition path_name :: "string \<Rightarrow> string" where
  "path_name s = (case rev (filter (\<lambda>part. part \<noteq> [] \<and> part \<noteq> ''.'') (split_slash [] s)) of [] \<Rightarrow> [] | part # parts \<Rightarrow> part)"

datatype schema_error = SchemaType string path | SchemaValue path | SchemaFile path

definition write_record :: "path \<Rightarrow> (string \<times> json) list \<Rightarrow> fs \<Rightarrow> (py_exn, fs) result" where
  "write_record p document fs = write_file p (JsonDoc (JObj document)) fs"

definition read_record :: "path \<Rightarrow> string \<Rightarrow> fs \<Rightarrow> (schema_error, (string \<times> json) list) result" where
  "read_record p description fs =
     (case read_json fs p of
        None \<Rightarrow> Inl (SchemaFile p)
      | Some (JObj items) \<Rightarrow> Inr items
      | Some v \<Rightarrow> Inl (SchemaType description p))"

definition read_case :: "path \<Rightarrow> fs \<Rightarrow> (schema_error, (string \<times> json) list) result" where
  "read_case p fs = read_record p ''case record'' fs"

definition read_manifest :: "path \<Rightarrow> fs \<Rightarrow> (schema_error, (string \<times> json) list) result" where
  "read_manifest p fs = read_record p ''matrix manifest'' fs"

text \<open>The identifiers a manifest may list: texts that are file names.\<close>

fun case_names :: "json list \<Rightarrow> string list option" where
  "case_names [] = Some []"
| "case_names (JStr s # vs) = (if path_name s = s then map_option (Cons s) (case_names vs) else None)"
| "case_names (v # vs) = None"

definition case_file :: "path \<Rightarrow> string \<Rightarrow> path" where
  "case_file snap ident = snap @ [ident @ ''.json'']"

definition read_snapshot ::
  "path \<Rightarrow> fs \<Rightarrow> (schema_error, (string \<times> json) list \<times> (string \<times> json) list list) result" where
  "read_snapshot snap fs =
     bindE (read_manifest (snap @ [''manifest.json'']) fs) (\<lambda>manifest.
       case (case get_field manifest ''cases'' of JList vs \<Rightarrow> case_names vs | _ \<Rightarrow> None) of
         None \<Rightarrow> Inl (SchemaValue (snap @ [''manifest.json'']))
       | Some idents \<Rightarrow>
           bindE (traverse (\<lambda>ident. read_case (case_file snap ident) fs) idents) (\<lambda>cases. Inr (manifest, cases)))"

lemma split_slash_plain: "CHR ''/'' \<notin> set s \<Longrightarrow> split_slash acc s = [acc @ s]"
  by (induction s arbitrary: acc) auto

lemma path_name_plain: "CHR ''/'' \<notin> set s \<Longrightarrow> s \<noteq> ''.'' \<Longrightarrow> path_name s = s"
  by (simp add: path_name_def split_slash_plain)

lemma case_names_plain:
  "\<forall>s \<in> set ids. CHR ''/'' \<notin> set s \<and> s \<noteq> ''.'' \<Longrightarrow> case_names (map JStr ids) = Some ids"
  by (induction ids) (auto simp: path_name_plain)

lemma read_record_file: "lookup fs p = Some (File (JsonDoc (JObj items))) \<Longrightarrow> read_record p d fs = Inr items"
  by (simp add: read_record_def read_json_def read_file_def)

text \<open>
  A directory that holds a manifest naming its records, each in its own file, reads back as that
  manifest and those records.
\<close>

lemma read_snapshot_back:
  assumes m: "lookup fs (snap @ [''manifest.json'']) = Some (File (JsonDoc (JObj manifest)))"
    and c: "get_field manifest ''cases'' = JList (map JStr (map f xs))"
    and n: "\<forall>x \<in> set xs. CHR ''/'' \<notin> set (f x) \<and> f x \<noteq> ''.''"
    and r: "\<forall>x \<in> set xs. lookup fs (case_file snap (f x)) = Some (File (JsonDoc (JObj (doc x))))"
  shows "read_snapshot snap fs = Inr (manifest, map doc xs)"
proof -
  have "case_names (map JStr (map f xs)) = Some (map f xs)" using n by (intro case_names_plain) auto
  moreover have "traverse (\<lambda>ident. read_case (case_file snap ident) fs) (map f xs) = Inr (map doc xs)"
    using r by (simp add: traverse_Inr_iff list_all2_map1 list_all2_map2 list.rel_refl_strong read_case_def read_record_file)
  ultimately show ?thesis using c
    by (simp add: read_snapshot_def read_manifest_def read_record_file [OF m])
qed

end
