(* ===== verification/Session.thy ===== *)
theory Session
  imports Documents Schema Snapshot_Store
begin

text \<open>
  A whole sweep (\<open>Sweep.run\<close> of \<open>src/stoquant/sweep.py\<close>) over the file tree and the machine: set-up,
  inputs, run plan, vectorization reports, the timed groups with their case files, the summary
  and the manifest. The state is the file tree beside the state \<open>'p\<close> of the machine. What the set-up
  probes, the compiler reports and the CSV text of rows are arguments. The lemmas show that the
  directory of a finished sweep holds exactly the records \<open>sweep_run\<close> computes.
\<close>

subsection \<open>Files beside the machine\<close>

type_synonym 'p world = "fs \<times> 'p"

definition on_machine :: "('e \<Rightarrow> 'x) \<Rightarrow> ('p, 'e, 'a) st \<Rightarrow> ('p world, 'x, 'a) st" where
  "on_machine raise m = (\<lambda>(fs, p). case m p of (Inl e, p') \<Rightarrow> (Inl (raise e), (fs, p')) | (Inr x, p') \<Rightarrow> (Inr x, (fs, p')))"

definition on_files :: "('e \<Rightarrow> 'x) \<Rightarrow> (fs \<Rightarrow> ('e, 'a \<times> fs) result) \<Rightarrow> ('p world, 'x, 'a) st" where
  "on_files raise m = (\<lambda>(fs, p). case m fs of Inl e \<Rightarrow> (Inl (raise e), (fs, p)) | Inr (x, fs') \<Rightarrow> (Inr x, (fs', p)))"

definition on_file :: "('e \<Rightarrow> 'x) \<Rightarrow> (fs \<Rightarrow> ('e, fs) result) \<Rightarrow> ('p world, 'x, unit) st" where
  "on_file raise m = on_files raise (\<lambda>fs. bindE (m fs) (\<lambda>fs. Inr ((), fs)))"

lemma on_machine_Inr [result_simps]:
  "on_machine raise m w = (Inr x, w') \<longleftrightarrow> fst w' = fst w \<and> m (snd w) = (Inr x, snd w')"
  by (cases w; cases w') (auto simp: on_machine_def split: prod.splits sum.splits)

lemma on_files_Inr [result_simps]:
  "on_files raise m w = (Inr x, w') \<longleftrightarrow> snd w' = snd w \<and> m (fst w) = Inr (x, fst w')"
  by (cases w; cases w') (auto simp: on_files_def split: prod.splits sum.splits)

lemma on_file_Inr [result_simps]:
  "on_file raise m w = (Inr u, w') \<longleftrightarrow> snd w' = snd w \<and> m (fst w) = Inr (fst w')"
  by (auto simp: on_file_def on_files_Inr bindE_eq_Inr)

subsection \<open>Set-up and inputs\<close>

datatype session_exn = SessionSweep sweep_exn | SessionFiles py_exn | SessionInputs input_error | SessionSetup py_exn

text \<open>
  \<open>sn_find_binary\<close> verifies the build and gives the binary with its stamp, \<open>sn_toolchain\<close> the hardware and
  toolkit blocks, \<open>sn_build\<close> the build flags of a stamp, \<open>sn_device\<close> the device attributes with the
  probe's stamp, \<open>sn_gpu_state\<close> a reading of the GPU, \<open>sn_report\<close> a vectorization report (of the AVX2
  sources when set). \<open>sn_elapsed\<close> is the time a warm-up of so many processes took, \<open>sn_csv\<close> the text of
  the summary rows.
\<close>

record 'p session_env =
  sn_sweep :: "'p sweep_env"
  sn_inputs :: input_ops
  sn_find_binary :: "bool \<Rightarrow> ('p, py_exn, string \<times> json) st"
  sn_toolchain :: "('p, py_exn, json \<times> json) st"
  sn_build :: "json \<Rightarrow> ('p, py_exn, (string \<times> json) list) st"
  sn_device :: "('p, py_exn, json \<times> json) st"
  sn_gpu_state :: "'p \<Rightarrow> json"
  sn_report :: "bool \<Rightarrow> ('p, py_exn, string) st"
  sn_elapsed :: "nat \<Rightarrow> fp"
  sn_after_warmup :: "nat \<Rightarrow> json"
  sn_csv :: "(string \<times> json) list list \<Rightarrow> string"
  sn_created :: json
  sn_numpy_version :: string

definition gpu_reading :: "'p session_env \<Rightarrow> bool \<Rightarrow> ('p world, session_exn, json) st" where
  "gpu_reading env wanted = (\<lambda>w. (Inr (if wanted then sn_gpu_state env (snd w) else JNull), w))"

definition set_up_run :: "'p session_env \<Rightarrow> session_settings \<Rightarrow> ('p world, session_exn, run_setup) st" where
  "set_up_run env ss =
     (let s = ss_sweep ss; temp = ss_target ss @ [''_temp''] in
      st_bind (on_machine SessionSetup (sn_find_binary env (has_cuda s))) (\<lambda>(binary, stamp).
      st_bind (on_machine SessionSetup (sn_toolchain env)) (\<lambda>(hardware, toolkit).
      st_bind (on_machine SessionSetup (sn_build env stamp)) (\<lambda>flags.
      st_bind (if requires_publication_device_attributes s
               then st_bind (on_machine SessionSetup (sn_device env)) (\<lambda>d. st_return (Some d)) else st_return None) (\<lambda>device.
      st_bind (gpu_reading env (has_cuda s)) (\<lambda>gpu.
      st_bind (on_file SessionFiles (mkdir temp)) (\<lambda>_.
        st_return \<lparr>rs_binary = binary, rs_build_stamp = stamp, rs_probe_stamp = map_option snd device,
          rs_hardware = hardware, rs_toolkit = toolkit, rs_build_flags = flags,
          rs_device = map_option fst device, rs_gpu_start = gpu, rs_temp = temp\<rparr>)))))))"

definition generated_count :: "generated_input \<Rightarrow> nat" where
  "generated_count g = (case get_field (gi_provenance g) ''count'' of JInt z \<Rightarrow> nat z | _ \<Rightarrow> 0)"

definition path_text :: "path \<Rightarrow> string" where
  "path_text p = join ''/'' p"

definition inputs_of :: "(string \<times> generated_input) list \<Rightarrow> sweep_inputs" where
  "inputs_of generated =
     \<lparr>si_keys = map fst generated,
      si_file = (\<lambda>k. case map_of generated k of None \<Rightarrow> [] | Some g \<Rightarrow> path_text (gi_path g)),
      si_count = (\<lambda>k. case map_of generated k of None \<Rightarrow> 0 | Some g \<Rightarrow> generated_count g)\<rparr>"

definition sweep_generate_inputs ::
  "'p session_env \<Rightarrow> session_settings \<Rightarrow> run_setup \<Rightarrow> ('p world, session_exn, (string \<times> generated_input) list) st" where
  "sweep_generate_inputs env ss setup =
     on_files SessionInputs (generate_family_inputs (sn_inputs env) (sw_family (ss_sweep ss)) (sw_counts (ss_sweep ss))
       (rs_temp setup @ [''inputs'']) (ss_input_seed ss) (tensor_set ss) (ss_model_limit ss))"

definition write_vectorization_reports :: "'p session_env \<Rightarrow> session_settings \<Rightarrow> ('p world, session_exn, unit) st" where
  "write_vectorization_reports env ss =
     st_bind (on_machine SessionSetup (sn_report env False)) (\<lambda>report.
     st_bind (on_file SessionFiles (write_file (ss_target ss @ [''msvc_vectorization_report.txt'']) (Text report))) (\<lambda>_.
       if has_avx2 (ss_sweep ss) then
         st_bind (on_machine SessionSetup (sn_report env True)) (\<lambda>report.
           on_file SessionFiles (write_file (ss_target ss @ [''msvc_vectorization_report_avx2.txt'']) (Text report)))
       else st_return ()))"

subsection \<open>Groups\<close>

definition gpu_block :: "'p session_env \<Rightarrow> fp \<Rightarrow> string \<Rightarrow> nat \<Rightarrow> json" where
  "gpu_block env seconds stem n =
     JObj (warmup_items seconds (sn_elapsed env) stem n @ [(''gpu_state_after'', sn_after_warmup env n)])"

definition input_stem :: "string \<Rightarrow> string" where
  "input_stem key = ''input_'' @ key"

definition record_of ::
  "'p session_env \<Rightarrow> session_settings \<Rightarrow> run_setup \<Rightarrow> (string \<times> generated_input) list \<Rightarrow> bench_case \<Rightarrow> (string \<times> json) list" where
  "record_of env ss setup generated c =
     case_document (ss_sweep ss) setup (ss_git ss) generated
       (gpu_block env (sw_case_warmup_seconds (ss_sweep ss)) (input_stem (bc_key c))) c"

definition write_case ::
  "'p session_env \<Rightarrow> session_settings \<Rightarrow> run_setup \<Rightarrow> (string \<times> generated_input) list \<Rightarrow> bench_case
     \<Rightarrow> ('p world, session_exn, unit) st" where
  "write_case env ss setup generated c =
     on_file SessionFiles (write_record (case_file (ss_target ss) (bc_id c)) (record_of env ss setup generated c))"

definition session_group ::
  "'p session_env \<Rightarrow> session_settings \<Rightarrow> run_setup \<Rightarrow> (string \<times> generated_input) list \<Rightarrow> nat list list
     \<Rightarrow> nat \<times> string \<times> nat \<Rightarrow> ('p world, session_exn, bench_case list) st" where
  "session_group env ss setup generated orders job =
     st_bind (on_machine SessionSweep (sweep_group (sn_sweep env) (ss_sweep ss) (inputs_of generated) (rs_binary setup)
                (path_text (rs_temp setup)) orders job)) (\<lambda>cases.
     st_bind (st_traverse (write_case env ss setup generated) cases) (\<lambda>_. st_return cases))"

subsection \<open>The run\<close>

definition plan_cases :: "session_settings \<Rightarrow> (string \<times> generated_input) list \<Rightarrow> nat" where
  "plan_cases ss generated = total_cases (ss_sweep ss) (inputs_of generated)"

definition order_warmup :: "'p session_env \<Rightarrow> session_settings \<Rightarrow> sweep_inputs \<Rightarrow> sweep_order \<Rightarrow> json" where
  "order_warmup env ss inputs order =
     (case so_gpu_warmup order of
        None \<Rightarrow> JNull
      | Some n \<Rightarrow>
          JObj (warmup_items (sw_gpu_warmup_seconds (ss_sweep ss)) (sn_elapsed env)
            (case largest_input inputs of Inl e \<Rightarrow> [] | Inr k \<Rightarrow> input_stem k) n))"

text \<open>\<open>shutil.rmtree(temp, ignore_errors=True)\<close>, the summary and the manifest.\<close>

definition finish_session ::
  "'p session_env \<Rightarrow> session_settings \<Rightarrow> run_setup \<Rightarrow> (string \<times> generated_input) list \<Rightarrow> gpu_readings \<Rightarrow> sweep_result
     \<Rightarrow> ('p world, session_exn, unit) st" where
  "finish_session env ss setup generated gr res =
     st_bind (on_file SessionFiles (\<lambda>fs. Inr (remove_tree (rs_temp setup) fs))) (\<lambda>_.
     st_bind (on_file SessionFiles (write_file (ss_target ss @ [''summary.csv'']) (Text (sn_csv env (sr_rows res))))) (\<lambda>_.
       on_file SessionFiles (write_record (ss_target ss @ [''manifest.json''])
         (manifest_document ss setup (inputs_of generated) generated gr (sn_created env) (sn_numpy_version env) res))))"

definition session_result ::
  "'p session_env \<Rightarrow> session_settings \<Rightarrow> sweep_inputs \<Rightarrow> sweep_order \<Rightarrow> bench_case list list \<Rightarrow> sweep_result" where
  "session_result env ss inputs order groups =
     (let s = ss_sweep ss; cases = sort_key (case_key s inputs) (concat groups) in
      \<lparr>sr_cases = cases, sr_rows = map (summary_row (sn_sweep env) s) cases,
       sr_manifest = sweep_manifest_of s inputs (ss_conditions ss) order cases\<rparr>)"

definition timed_part ::
  "'p session_env \<Rightarrow> session_settings \<Rightarrow> run_setup \<Rightarrow> (string \<times> generated_input) list
     \<Rightarrow> ('p world, session_exn, sweep_result) st" where
  "timed_part env ss setup generated =
     (let s = ss_sweep ss; inputs = inputs_of generated in
      st_bind (on_machine SessionSweep (order_and_warm_up (sn_sweep env) s inputs (rs_binary setup))) (\<lambda>order.
      st_bind (gpu_reading env (so_gpu_warmup order \<noteq> None)) (\<lambda>after.
      st_bind (st_traverse (session_group env ss setup generated (so_orders order))
                 (zip [0..<length (so_cases order)] (so_cases order))) (\<lambda>groups.
      st_bind (gpu_reading env (has_cuda s)) (\<lambda>at_end.
      let res = session_result env ss inputs order groups in
      st_bind (finish_session env ss setup generated
                 \<lparr>gr_warmup = order_warmup env ss inputs order, gr_after = after, gr_end = at_end\<rparr> res) (\<lambda>_.
        st_return res))))))"

definition session_run :: "'p session_env \<Rightarrow> session_settings \<Rightarrow> ('p world, session_exn, sweep_result) st" where
  "session_run env ss =
     st_bind (set_up_run env ss) (\<lambda>setup.
     st_bind (sweep_generate_inputs env ss setup) (\<lambda>generated.
     st_bind (on_file SessionFiles (write_run_plan (ss_target ss) (plan_cases ss generated) (sw_family (ss_sweep ss)))) (\<lambda>_.
     st_bind (write_vectorization_reports env ss) (\<lambda>_.
       timed_part env ss setup generated))))"

subsection \<open>What a sweep leaves untouched\<close>

text \<open>\<open>keeps I m\<close>: when \<open>m\<close> returns, a file tree that satisfied \<open>I\<close> still does.\<close>

definition keeps :: "(fs \<Rightarrow> bool) \<Rightarrow> ('p world, 'x, 'a) st \<Rightarrow> bool" where
  "keeps I m \<longleftrightarrow> (\<forall>w x w'. m w = (Inr x, w') \<longrightarrow> I (fst w) \<longrightarrow> I (fst w'))"

lemma keepsI: "(\<And>w x w'. m w = (Inr x, w') \<Longrightarrow> I (fst w) \<Longrightarrow> I (fst w')) \<Longrightarrow> keeps I m"
  unfolding keeps_def by blast

lemma keepsD: "keeps I m \<Longrightarrow> m w = (Inr x, w') \<Longrightarrow> I (fst w) \<Longrightarrow> I (fst w')"
  unfolding keeps_def by blast

named_theorems keeps_intros \<open>operations that keep an invariant of the file tree\<close>

lemma keeps_bind [keeps_intros]: "keeps I m \<Longrightarrow> (\<And>x. keeps I (f x)) \<Longrightarrow> keeps I (st_bind m f)"
  by (rule keepsI) (auto simp: st_bind_Inr dest: keepsD)

lemma keeps_return [keeps_intros]: "keeps I (st_return x)"
  by (rule keepsI) (simp add: st_return_Inr)

lemma keeps_machine [keeps_intros]: "keeps I (on_machine raise m)"
  by (rule keepsI) (simp add: on_machine_Inr)

lemma keeps_reading [keeps_intros]: "keeps I (gpu_reading env b)"
  by (rule keepsI) (simp add: gpu_reading_def)

lemma keeps_files: "(\<And>fs x fs'. m fs = Inr (x, fs') \<Longrightarrow> I fs \<Longrightarrow> I fs') \<Longrightarrow> keeps I (on_files raise m)"
  by (rule keepsI) (auto simp: on_files_Inr)

lemma keeps_file: "(\<And>fs fs'. m fs = Inr fs' \<Longrightarrow> I fs \<Longrightarrow> I fs') \<Longrightarrow> keeps I (on_file raise m)"
  by (rule keepsI) (auto simp: on_file_Inr)

lemma keeps_traverse [keeps_intros]: "(\<And>x. keeps I (f x)) \<Longrightarrow> keeps I (st_traverse f xs)"
  by (induction xs) (auto intro: keeps_intros)

lemma keeps_if [keeps_intros]: "keeps I m \<Longrightarrow> keeps I n \<Longrightarrow> keeps I (if b then m else n)"
  by simp

text \<open>
  What a sweep asks of a tree it runs in: an invariant that the file operations below the target
  directory keep, which is all it ever performs.
\<close>

locale sweep_directory =
  fixes I :: "fs \<Rightarrow> bool" and target :: path
  assumes write_below: "write_file (target @ r) c fs = Inr fs' \<Longrightarrow> r \<noteq> [] \<Longrightarrow> I fs \<Longrightarrow> I fs'"
    and mkdir_below: "mkdir (target @ r) fs = Inr fs' \<Longrightarrow> r \<noteq> [] \<Longrightarrow> I fs \<Longrightarrow> I fs'"
    and parents_below: "mkdir_parents (target @ r) fs = Inr fs' \<Longrightarrow> I fs \<Longrightarrow> I fs'"
    and remove_below: "r \<noteq> [] \<Longrightarrow> I fs \<Longrightarrow> I (remove_tree (target @ r) fs)"
begin

lemma write_input_keeps: "write_input ops (target @ r) name vs fs = Inr (x, fs') \<Longrightarrow> I fs \<Longrightarrow> I fs'"
  using write_below [of "r @ [name]"] by (auto simp: write_input_def Let_def bindE_eq_Inr)

lemma generate_loop_keeps:
  "generate_loop ops (target @ r) seed ns acc fs = Inr (out, fs') \<Longrightarrow> I fs \<Longrightarrow> I fs'"
  by (induction ns arbitrary: acc fs) (auto simp: bindE_eq_Inr dest: write_input_keeps)

lemma sparse_loop_keeps:
  "sparse_loop ops (target @ r) seed items acc fs = Inr (out, fs') \<Longrightarrow> I fs \<Longrightarrow> I fs'"
proof (induction items arbitrary: acc fs)
  case (Cons item items)
  obtain sha p fs1 vs name acc' where "write_input ops (target @ r) name vs fs = Inr ((sha, p), fs1)"
    "sparse_loop ops (target @ r) seed items acc' fs1 = Inr (out, fs')"
    using Cons.prems(1) by (cases item) (auto simp: bindE_eq_Inr Let_def split_beta)
  then show ?case using Cons.IH Cons.prems(2) write_input_keeps by blast
qed simp

lemma model_loop_keeps:
  "model_loop ops (target @ r) seed ts acc fs = Inr (out, fs') \<Longrightarrow> I fs \<Longrightarrow> I fs'"
  by (induction ts arbitrary: acc fs) (auto simp: bindE_eq_Inr Let_def dest: write_input_keeps)

lemma family_keeps:
  "generate_family_inputs ops family counts (target @ r) seed mode limit fs = Inr (out, fs') \<Longrightarrow> I fs \<Longrightarrow> I fs'"
  by (auto simp: generate_family_inputs_def generate_inputs_def bindE_eq_Inr input_error_Inr split: if_splits
      dest: parents_below generate_loop_keeps sparse_loop_keeps model_loop_keeps)

lemma write_keeps: "r \<noteq> [] \<Longrightarrow> keeps I (on_file raise (write_file (target @ r) c))"
  by (rule keeps_file) (auto dest: write_below)

lemma session_keeps:
  assumes "ss_target ss = target"
  shows "keeps I (session_run env ss)"
proof -
  have su: "keeps I (set_up_run env ss)"
    unfolding set_up_run_def Let_def split_beta assms
    by (intro keeps_intros keeps_file) (auto dest: mkdir_below [of "[''_temp'']", simplified])
  have temp: "rs_temp su = target @ [''_temp'']" if "set_up_run env ss w = (Inr su, w')" for su w w'
    using that assms by (auto simp: set_up_run_def Let_def split_beta st_bind_Inr st_return_Inr)
  have inputs: "keeps I (sweep_generate_inputs env ss su)" if "rs_temp su = target @ [''_temp'']" for su
    unfolding sweep_generate_inputs_def that append_assoc by (rule keeps_files) (rule family_keeps)
  have reports: "keeps I (write_vectorization_reports env ss)"
    unfolding write_vectorization_reports_def assms by (intro keeps_intros write_keeps) simp_all
  have plan: "keeps I (on_file SessionFiles (write_run_plan (ss_target ss) n f))" for n f
    unfolding write_run_plan_def assms by (intro write_keeps) simp
  have doc: "keeps I (on_file SessionFiles (write_record (target @ [n]) d))" for n d
    unfolding write_record_def by (intro write_keeps) simp
  have group: "keeps I (session_group env ss su generated orders job)" for su generated orders job
    unfolding session_group_def write_case_def case_file_def assms by (intro keeps_intros doc)
  have finish: "keeps I (finish_session env ss su generated gr res)" if "rs_temp su = target @ [''_temp'']" for su generated gr res
    unfolding finish_session_def that assms
    by (intro keeps_intros keeps_file [of "\<lambda>fs. Inr (remove_tree (target @ [''_temp'']) fs)"] write_keeps doc)
       (auto intro: remove_below)
  have timed: "keeps I (timed_part env ss su generated)" if "rs_temp su = target @ [''_temp'']" for su generated
    unfolding timed_part_def Let_def by (intro keeps_intros group finish [OF that])
  show ?thesis
  proof (rule keepsI)
    fix w res w' assume run: "session_run env ss w = (Inr res, w')" and i: "I (fst w)"
    obtain su w1 where s: "set_up_run env ss w = (Inr su, w1)"
      and k: "st_bind (sweep_generate_inputs env ss su) (\<lambda>generated.
        st_bind (on_file SessionFiles (write_run_plan (ss_target ss) (plan_cases ss generated) (sw_family (ss_sweep ss)))) (\<lambda>_.
        st_bind (write_vectorization_reports env ss) (\<lambda>_. timed_part env ss su generated))) w1 = (Inr res, w')"
      using run unfolding session_run_def by (rule st_bindE)
    note t = temp [OF s]
    have "keeps I (st_bind (sweep_generate_inputs env ss su) (\<lambda>generated.
        st_bind (on_file SessionFiles (write_run_plan (ss_target ss) (plan_cases ss generated) (sw_family (ss_sweep ss)))) (\<lambda>_.
        st_bind (write_vectorization_reports env ss) (\<lambda>_. timed_part env ss su generated))))"
      by (intro keeps_bind inputs [OF t] plan reports timed [OF t])
    from keepsD [OF this k keepsD [OF su s i]] show "I (fst w')" .
  qed
qed

end

text \<open>Two invariants: the tree is well formed, and nothing outside the target directory changes.\<close>

definition unchanged_outside :: "fs \<Rightarrow> path \<Rightarrow> fs \<Rightarrow> bool" where
  "unchanged_outside fs0 target fs \<longleftrightarrow> (\<forall>p n. \<not> under target p \<longrightarrow> lookup fs0 p = Some n \<longrightarrow> lookup fs p = Some n)"

lemma write_file_put: "write_file p c fs = Inr fs' \<Longrightarrow> fs' = put p (File c) fs"
  by (auto simp: write_file_def split: if_splits)

interpretation tree: sweep_directory wf_fs target
proof
  fix r fs fs' c
  show "write_file (target @ r) c fs = Inr fs' \<Longrightarrow> r \<noteq> [] \<Longrightarrow> wf_fs fs \<Longrightarrow> wf_fs fs'"
    "mkdir (target @ r) fs = Inr fs' \<Longrightarrow> r \<noteq> [] \<Longrightarrow> wf_fs fs \<Longrightarrow> wf_fs fs'"
    by (auto intro: write_wf mkdir_wf)
qed (auto intro: mkdir_parents_wf wf_remove_tree)

interpretation frame: sweep_directory "unchanged_outside fs0 target" target
proof
  fix r :: path and fs fs' :: fs and c
  have below: "p \<noteq> target @ r" if "\<not> under target p" for p using that by auto
  show "write_file (target @ r) c fs = Inr fs' \<Longrightarrow> r \<noteq> [] \<Longrightarrow> unchanged_outside fs0 target fs \<Longrightarrow> unchanged_outside fs0 target fs'"
    using below by (auto simp: unchanged_outside_def dest!: write_file_put)
  show "mkdir (target @ r) fs = Inr fs' \<Longrightarrow> r \<noteq> [] \<Longrightarrow> unchanged_outside fs0 target fs \<Longrightarrow> unchanged_outside fs0 target fs'"
    by (auto simp: unchanged_outside_def intro: mkdir_keeps)
  show "mkdir_parents (target @ r) fs = Inr fs' \<Longrightarrow> unchanged_outside fs0 target fs \<Longrightarrow> unchanged_outside fs0 target fs'"
    by (auto simp: unchanged_outside_def intro: mkdir_parents_keeps)
  have "under target p" if "under (target @ r) p" for p
    using under_split [OF that] by auto
  then show "r \<noteq> [] \<Longrightarrow> unchanged_outside fs0 target fs \<Longrightarrow> unchanged_outside fs0 target (remove_tree (target @ r) fs)"
    by (auto simp: unchanged_outside_def remove_tree_lookup)
qed

subsection \<open>The case files\<close>

definition put_records :: "path \<Rightarrow> (bench_case \<Rightarrow> (string \<times> json) list) \<Rightarrow> bench_case list \<Rightarrow> fs \<Rightarrow> fs" where
  "put_records target doc cases fs =
     foldl (\<lambda>fs c. put (case_file target (bc_id c)) (File (JsonDoc (JObj (doc c)))) fs) fs cases"

lemma put_records_append: "put_records t doc (xs @ ys) fs = put_records t doc ys (put_records t doc xs fs)"
  by (simp add: put_records_def)

lemma case_file_inj [simp]: "case_file t a = case_file t b \<longleftrightarrow> a = b"
  by (simp add: case_file_def)

lemma put_records_other:
  "p \<notin> case_file t ` bc_id ` set cases \<Longrightarrow> lookup (put_records t doc cases fs) p = lookup fs p"
  by (induction cases rule: rev_induct) (auto simp: put_records_def)

lemma put_records_lookup:
  "distinct (map bc_id cases) \<Longrightarrow> c \<in> set cases \<Longrightarrow>
     lookup (put_records t doc cases fs) (case_file t (bc_id c)) = Some (File (JsonDoc (JObj (doc c))))"
proof (induction cases rule: rev_induct)
  case (snoc d cases)
  show ?case
  proof (cases "c = d")
    case False
    then have c: "c \<in> set cases" using snoc.prems(2) by simp
    have "bc_id d \<notin> bc_id ` set cases" using snoc.prems(1) by simp
    then have "bc_id c \<noteq> bc_id d" using c by (metis imageI)
    then show ?thesis using snoc.IH c snoc.prems(1) by (simp add: put_records_def)
  qed (simp add: put_records_def)
qed simp

lemma write_cases_put:
  "st_traverse (write_case env ss su generated) cases w = (Inr us, w') \<Longrightarrow>
     snd w' = snd w \<and> fst w' = put_records (ss_target ss) (record_of env ss su generated) cases (fst w)"
proof (induction cases arbitrary: w us)
  case Nil
  then show ?case by (simp add: st_return_Inr put_records_def)
next
  case (Cons c cases)
  obtain u w1 vs where c: "write_case env ss su generated c w = (Inr u, w1)"
    and k: "st_traverse (write_case env ss su generated) cases w1 = (Inr vs, w')"
    using Cons.prems by (auto simp: st_bind_Inr st_return_Inr)
  have "snd w1 = snd w"
    "fst w1 = put (case_file (ss_target ss) (bc_id c)) (File (JsonDoc (JObj (record_of env ss su generated c)))) (fst w)"
    using c by (auto simp: write_case_def on_file_Inr write_record_def dest: write_file_put)
  then show ?case using Cons.IH [OF k] by (simp add: put_records_def)
qed

lemma session_groups:
  "st_traverse (session_group env ss su generated orders) jobs w = (Inr groups, w') \<Longrightarrow>
     st_traverse (sweep_group (sn_sweep env) (ss_sweep ss) (inputs_of generated) (rs_binary su) (path_text (rs_temp su)) orders)
        jobs (snd w) = (Inr groups, snd w')
     \<and> fst w' = put_records (ss_target ss) (record_of env ss su generated) (concat groups) (fst w)"
proof (induction jobs arbitrary: w groups)
  case Nil
  then show ?case by (simp add: st_return_Inr put_records_def)
next
  case (Cons job jobs)
  obtain g w1 gs where g: "session_group env ss su generated orders job w = (Inr g, w1)"
    and k: "st_traverse (session_group env ss su generated orders) jobs w1 = (Inr gs, w')" and gs: "groups = g # gs"
    using Cons.prems by (auto simp: st_bind_Inr st_return_Inr)
  obtain w2 us where s: "fst w2 = fst w"
    "sweep_group (sn_sweep env) (ss_sweep ss) (inputs_of generated) (rs_binary su) (path_text (rs_temp su)) orders job (snd w)
       = (Inr g, snd w2)"
    and wr: "st_traverse (write_case env ss su generated) g w2 = (Inr us, w1)"
    using g by (auto simp: session_group_def st_bind_Inr st_return_Inr on_machine_Inr)
  show ?case
    using Cons.IH [OF k] write_cases_put [OF wr] s by (simp add: gs st_bind_def st_return_def put_records_append)
qed

subsection \<open>The names of the case files\<close>

lemma split_at_underscore:
  "x @ CHR ''_'' # r = y @ CHR ''_'' # s \<Longrightarrow> CHR ''_'' \<notin> set x \<Longrightarrow> CHR ''_'' \<notin> set y \<Longrightarrow> x = y \<and> r = s"
  by (induction x arbitrary: y) (auto simp: Cons_eq_append_conv)

definition plain_path :: "bench_path \<Rightarrow> bool" where
  "plain_path p \<longleftrightarrow> (\<forall>c \<in> set (backend p @ path_key p). c \<noteq> CHR ''_'' \<and> c \<noteq> CHR ''/'')"

lemma str_nat_chars: "c \<in> set (str_nat n) \<Longrightarrow> c \<noteq> CHR ''_'' \<and> c \<noteq> CHR ''/''"
  using str_nat_digits [of n] by (auto simp: list_all_iff digit_value_def)

lemma case_id_inj:
  assumes "case_id p b k = case_id p' b' k'" "plain_path p" "plain_path p'"
  shows "path_label p = path_label p' \<and> b = b' \<and> k = k'"
proof -
  have u: "CHR ''_'' \<notin> set (backend q)" "CHR ''_'' \<notin> set (path_key q)" if "plain_path q" for q
    using that by (auto simp: plain_path_def)
  have n: "CHR ''_'' \<notin> set (''bits'' @ str_nat m)" for m using str_nat_chars [of _ m] by auto
  have "backend p @ CHR ''_'' # (path_key p @ CHR ''_'' # ((''bits'' @ str_nat b) @ CHR ''_'' # k))
      = backend p' @ CHR ''_'' # (path_key p' @ CHR ''_'' # ((''bits'' @ str_nat b') @ CHR ''_'' # k'))"
    using assms(1) by (simp add: case_id_def)
  then have 1: "backend p = backend p'"
    and r: "path_key p @ CHR ''_'' # ((''bits'' @ str_nat b) @ CHR ''_'' # k)
      = path_key p' @ CHR ''_'' # ((''bits'' @ str_nat b') @ CHR ''_'' # k')"
    using split_at_underscore u(1) assms(2,3) by blast+
  have 2: "path_key p = path_key p'" and r2: "(''bits'' @ str_nat b) @ CHR ''_'' # k = (''bits'' @ str_nat b') @ CHR ''_'' # k'"
    using split_at_underscore [OF r] u(2) assms(2,3) by blast+
  have "''bits'' @ str_nat b = ''bits'' @ str_nat b'" "k = k'" using split_at_underscore [OF r2] n by blast+
  then show ?thesis using 1 2 str_nat_inj by (auto simp: path_label_def)
qed

lemma selected_paths_plain: "build_paths backends boundaries policies = Inr ps \<Longrightarrow> p \<in> set ps \<Longrightarrow> plain_path p"
proof -
  assume ps: "build_paths backends boundaries policies = Inr ps" "p \<in> set ps"
  have "list_all plain_path ALL_PATHS" by code_simp
  then show ?thesis using selections_known [OF build_paths_selections [OF ps(1)] ps(2)] by (simp add: list_all_iff)
qed

lemma case_id_plain:
  "plain_path p \<Longrightarrow> CHR ''/'' \<notin> set k \<Longrightarrow> CHR ''/'' \<notin> set (case_id p b k) \<and> case_id p b k \<noteq> ''.''"
  using str_nat_chars [of _ b] by (auto simp: case_id_def plain_path_def)

text \<open>The keys of a family: texts without a slash.\<close>

lemma tensor_names_plain: "\<forall>t \<in> set RESNET18_CIFAR_TENSORS. CHR ''/'' \<notin> set (mt_name t)"
  by code_simp

definition plain_keys :: "(string \<times> 'a) list \<Rightarrow> bool" where
  "plain_keys items \<longleftrightarrow> (\<forall>e \<in> set items. CHR ''/'' \<notin> set (fst e))"

lemma plain_keys_set: "plain_keys items \<Longrightarrow> CHR ''/'' \<notin> set k \<Longrightarrow> plain_keys (dict_set items k v)"
  by (induction items k v rule: dict_set.induct) (auto simp: plain_keys_def)

lemma sparse_keys:
  "sparse_loop ops dir seed items acc fs = Inr (out, fs') \<Longrightarrow> plain_keys acc \<Longrightarrow> plain_keys out"
proof (induction items arbitrary: acc fs)
  case (Cons item items)
  obtain n v fs1 where l: "sparse_loop ops dir seed items (dict_set acc (''sparse_n'' @ str_nat n) v) fs1 = Inr (out, fs')"
    using Cons.prems(1) by (cases item) (auto simp: bindE_eq_Inr Let_def split_beta)
  have "CHR ''/'' \<notin> set (''sparse_n'' @ str_nat n)" using str_nat_chars [of "CHR ''/''" n] by auto
  then show ?case by (rule Cons.IH [OF l plain_keys_set [OF Cons.prems(2)]])
qed simp

lemma model_keys:
  "model_loop ops dir seed ts acc fs = Inr (out, fs') \<Longrightarrow> \<forall>t \<in> set ts. CHR ''/'' \<notin> set (mt_name t)
     \<Longrightarrow> plain_keys acc \<Longrightarrow> plain_keys out"
proof (induction ts arbitrary: acc fs)
  case (Cons t ts)
  obtain v fs1 where l: "model_loop ops dir seed ts (dict_set acc (''model_'' @ mt_name t) v) fs1 = Inr (out, fs')"
    using Cons.prems(1) by (auto simp: bindE_eq_Inr Let_def)
  show ?case using Cons.IH [OF l] plain_keys_set [OF Cons.prems(3)] Cons.prems(2) by auto
qed simp

lemma first_of_each_set: "set (first_of_each seen ts) \<subseteq> set ts"
  by (induction seen ts rule: first_of_each.induct) auto

lemma selection_subset: "select_model_tensors mode limit = Inr ts \<Longrightarrow> set ts \<subseteq> set RESNET18_CIFAR_TENSORS"
proof -
  assume a: "select_model_tensors mode limit = Inr ts"
  define sel where "sel = (if mode = ''all'' then RESNET18_CIFAR_TENSORS else first_of_each {} RESNET18_CIFAR_TENSORS)"
  have "ts = (case limit of None \<Rightarrow> sel | Some n \<Rightarrow> take (nat n) sel)"
    using a unfolding select_model_tensors_def sel_def [symmetric] Let_def by (simp split: if_splits)
  then have "set ts \<subseteq> set sel" by (auto split: option.splits dest: in_set_takeD)
  also have "set sel \<subseteq> set RESNET18_CIFAR_TENSORS"
    using first_of_each_set by (auto simp: sel_def)
  finally show ?thesis .
qed

lemma family_keys:
  assumes "generate_family_inputs ops family counts dir seed mode limit fs = Inr (out, fs')"
  shows "plain_keys out"
proof -
  consider items where "out = map family_entry items"
    | items fs1 where "sparse_loop ops dir seed items [] fs1 = Inr (out, fs')"
    | ts fs1 where "select_model_tensors mode limit = Inr ts" "model_loop ops dir seed ts [] fs1 = Inr (out, fs')"
    using assms by (auto simp: generate_family_inputs_def bindE_eq_Inr input_error_Inr split: if_splits)
  then show ?thesis
  proof cases
    case 1
    then show ?thesis using str_nat_chars by (auto simp: plain_keys_def family_entry_def Let_def)
  next
    case 2
    then show ?thesis by (rule sparse_keys) (simp add: plain_keys_def)
  next
    case 3
    show ?thesis
      by (rule model_keys [OF 3(2)]) (use selection_subset [OF 3(1)] tensor_names_plain in \<open>auto simp: plain_keys_def\<close>)
  qed
qed

subsection \<open>The directory of a finished sweep\<close>

lemma case_order_distinct:
  assumes "\<And>s n. mset (perm s n) = mset [0..<n]" "distinct keys" "distinct widths"
  shows "distinct (case_order perm keys widths seed)"
proof -
  let ?c = "concat (map (\<lambda>key. map (\<lambda>bits. (key, bits)) widths) keys)"
  have c: "?c = List.product keys widths" by (induction keys) auto
  have p: "distinct (perm s n)" "set (perm s n) = {..<n}" for s n
    using assms(1) [of s n] mset_eq_imp_distinct_iff mset_eq_setD by fastforce+
  have "inj_on (\<lambda>i. ?c ! i) {..<length ?c}"
    using distinct_product [OF assms(2,3)] c by (simp add: inj_on_nth)
  then show ?thesis using p by (simp add: case_order_def Let_def distinct_map)
qed

lemma case_order_subset:
  assumes "\<And>s n. mset (perm s n) = mset [0..<n]"
  shows "set (case_order perm keys widths seed) \<subseteq> set (List.product keys widths)"
proof -
  let ?c = "concat (map (\<lambda>key. map (\<lambda>bits. (key, bits)) widths) keys)"
  have c: "?c = List.product keys widths" by (induction keys) auto
  have "set (perm seed (length ?c)) = {..<length ?c}" using mset_eq_setD [OF assms] by force
  then have "(\<lambda>i. ?c ! i) ` set (perm seed (length ?c)) \<subseteq> set ?c" by (intro image_subsetI nth_mem) simp
  moreover have "set (case_order perm keys widths seed) = (\<lambda>i. ?c ! i) ` set (perm seed (length ?c))"
    by (simp only: case_order_def Let_def list.set_map)
  ultimately show ?thesis by (simp only: c)
qed

lemma group_ids:
  assumes "st_traverse (sweep_group env s inputs binary tmp orders) jobs p = (Inr groups, p')"
    and "\<forall>ord \<in> set orders. distinct ord \<and> set ord = {..<length (sw_paths s)}"
  shows "map bc_id (concat groups) = map (\<lambda>((key, bits), path). case_id path bits key) (List.product (map snd jobs) (sw_paths s))"
    and "\<forall>c \<in> set (concat groups). \<exists>key bits path. (key, bits) \<in> snd ` set jobs \<and> path \<in> set (sw_paths s) \<and> bc_id c = case_id path bits key"
proof -
  have g: "list_all2 (\<lambda>job g. map bc_id g = map (\<lambda>path. case_id path (snd (snd job)) (fst (snd job))) (sw_paths s)) jobs groups"
  proof (rule st_traverse_all2 [OF assms(1)])
    fix job q g q' assume h: "sweep_group env s inputs binary tmp orders job q = (Inr g, q')"
    obtain i key bits where job: "job = (i, key, bits)" by (cases job)
    note n = sweep_group_nth [OF h [unfolded job] assms(2)]
    show "map bc_id g = map (\<lambda>path. case_id path (snd (snd job)) (fst (snd job))) (sw_paths s)"
      by (rule nth_equalityI) (simp_all add: n job)
  qed
  then show ids: "map bc_id (concat groups) = map (\<lambda>((key, bits), path). case_id path bits key) (List.product (map snd jobs) (sw_paths s))"
    by (induction rule: list_all2_induct) (auto simp: comp_def split_beta)
  show "\<forall>c \<in> set (concat groups). \<exists>key bits path. (key, bits) \<in> snd ` set jobs \<and> path \<in> set (sw_paths s) \<and> bc_id c = case_id path bits key"
  proof
    fix c assume "c \<in> set (concat groups)"
    then have "bc_id c \<in> set (map bc_id (concat groups))" by simp
    then show "\<exists>key bits path. (key, bits) \<in> snd ` set jobs \<and> path \<in> set (sw_paths s) \<and> bc_id c = case_id path bits key"
      unfolding ids by force
  qed
qed

lemma timed_part_files:
  assumes "timed_part env ss su generated w = (Inr res, w')"
  obtains order q groups q' gr csv where
    "order_and_warm_up (sn_sweep env) (ss_sweep ss) (inputs_of generated) (rs_binary su) (snd w) = (Inr order, q)"
    "st_traverse (sweep_group (sn_sweep env) (ss_sweep ss) (inputs_of generated) (rs_binary su) (path_text (rs_temp su)) (so_orders order))
       (zip [0..<length (so_cases order)] (so_cases order)) q = (Inr groups, q')"
    "res = session_result env ss (inputs_of generated) order groups" "snd w' = q'"
    "fst w' = put (ss_target ss @ [''manifest.json''])
        (File (JsonDoc (JObj (manifest_document ss su (inputs_of generated) generated gr (sn_created env) (sn_numpy_version env) res))))
      (put (ss_target ss @ [''summary.csv'']) csv
      (remove_tree (rs_temp su) (put_records (ss_target ss) (record_of env ss su generated) (concat groups) (fst w))))"
proof -
  obtain order w1 after w2 groups w3 at_end u w4 where o: "fst w1 = fst w"
    "order_and_warm_up (sn_sweep env) (ss_sweep ss) (inputs_of generated) (rs_binary su) (snd w) = (Inr order, snd w1)"
    and a: "gpu_reading env (so_gpu_warmup order \<noteq> None) w1 = (Inr after, w2)"
    and g: "st_traverse (session_group env ss su generated (so_orders order)) (zip [0..<length (so_cases order)] (so_cases order)) w2
       = (Inr groups, w3)"
    and e: "gpu_reading env (has_cuda (ss_sweep ss)) w3 = (Inr at_end, w4)"
    and f: "finish_session env ss su generated
       \<lparr>gr_warmup = order_warmup env ss (inputs_of generated) order, gr_after = after, gr_end = at_end\<rparr>
       (session_result env ss (inputs_of generated) order groups) w4 = (Inr u, w')"
    and r: "res = session_result env ss (inputs_of generated) order groups"
    using assms unfolding timed_part_def Let_def by (auto simp: on_machine_Inr st_return_Inr st_bind_Inr)
  have w4: "w4 = w3" using e by (simp add: gpu_reading_def)
  have w2: "w2 = w1" using a by (simp add: gpu_reading_def)
  note gs = session_groups [OF g]
  show thesis
    by (rule that [OF o(2) _ r])
       (use f gs o(1) w2 w4 r in \<open>auto simp: finish_session_def on_file_Inr write_record_def st_bind_Inr dest!: write_file_put\<close>)
qed

lemma job_list: "map snd (zip [0..<length xs] xs) = xs" "snd ` set (zip [0..<length xs] xs) = set xs"
proof -
  show m: "map snd (zip [0..<length xs] xs) = xs" by (simp add: map_snd_zip)
  show "snd ` set (zip [0..<length xs] xs) = set xs" by (metis m list.set_map)
qed

text \<open>The identifiers of the cases of a sweep over distinct keys, widths and paths are distinct file names.\<close>

lemma case_ids_distinct:
  assumes "distinct jobs" "build_paths backends boundaries policies = Inr paths"
  shows "distinct (map (\<lambda>((key, bits), path). case_id path bits key) (List.product jobs paths))"
proof -
  have d: "distinct paths" using build_paths_closed_labels [OF assms(2)] by (simp add: distinct_map)
  have inj: "inj_on path_label (set paths)" using build_paths_closed_labels [OF assms(2)] by (simp add: distinct_map)
  have "inj_on (\<lambda>((key, bits), path). case_id path bits key) (set (List.product jobs paths))"
  proof (rule inj_onI)
    fix x y assume x: "x \<in> set (List.product jobs paths)" and y: "y \<in> set (List.product jobs paths)"
      and e: "(case x of (xa, path) \<Rightarrow> (case xa of (key, bits) \<Rightarrow> \<lambda>path. case_id path bits key) path)
        = (case y of (xa, path) \<Rightarrow> (case xa of (key, bits) \<Rightarrow> \<lambda>path. case_id path bits key) path)"
    obtain k b p k' b' p' where xy: "x = ((k, b), p)" "y = ((k', b'), p')" by (metis surj_pair)
    have p: "p \<in> set paths" "p' \<in> set paths" using x y by (simp_all add: xy)
    have "path_label p = path_label p' \<and> b = b' \<and> k = k'"
      by (rule case_id_inj) (use e p selected_paths_plain [OF assms(2)] in \<open>simp_all add: xy\<close>)
    then show "x = y" using inj p by (simp add: xy inj_on_eq_iff)
  qed
  then show ?thesis using distinct_product [OF assms(1) d] by (simp add: distinct_map)
qed

lemma session_snapshot:
  assumes run: "session_run env ss w = (Inr res, w')"
    and paths: "build_paths backends boundaries policies = Inr (sw_paths (ss_sweep ss))"
    and perm: "\<And>s n. mset (se_permute (sn_sweep env) s n) = mset [0..<n]" and bits: "distinct (sw_bits (ss_sweep ss))"
  obtains su generated gr binary tmp p where
    "lookup (fst w') (ss_target ss @ [''manifest.json'']) = Some (File (JsonDoc (JObj
       (manifest_document ss su (inputs_of generated) generated gr (sn_created env) (sn_numpy_version env) res))))"
    "\<forall>c \<in> set (sr_cases res). lookup (fst w') (case_file (ss_target ss) (bc_id c)) = Some (File (JsonDoc (JObj (record_of env ss su generated c))))"
    "\<forall>c \<in> set (sr_cases res). CHR ''/'' \<notin> set (bc_id c) \<and> bc_id c \<noteq> ''.''"
    "sweep_run (sn_sweep env) (ss_sweep ss) (inputs_of generated) (ss_conditions ss) binary tmp p = (Inr res, snd w')"
proof -
  let ?T = "ss_target ss" and ?s = "ss_sweep ss"
  obtain su w1 generated w2 w3 where su: "set_up_run env ss w = (Inr su, w1)"
    and gen: "sweep_generate_inputs env ss su w1 = (Inr generated, w2)"
    and timed: "timed_part env ss su generated w3 = (Inr res, w')"
    using run unfolding session_run_def by (auto elim!: st_bindE)
  have temp: "rs_temp su = ?T @ [''_temp'']"
    using su by (auto simp: set_up_run_def Let_def split_beta st_bind_Inr st_return_Inr)
  have fam: "generate_family_inputs (sn_inputs env) (sw_family ?s) (sw_counts ?s) (rs_temp su @ [''inputs'']) (ss_input_seed ss)
     (tensor_set ss) (ss_model_limit ss) (fst w1) = Inr (generated, fst w2)"
    using gen by (simp add: sweep_generate_inputs_def on_files_Inr)
  have keys: "distinct (map fst generated)" using family_inputs_facts [OF fam] by simp
  have plain: "CHR ''/'' \<notin> set k" if "k \<in> set (map fst generated)" for k
    using family_keys [OF fam] that by (auto simp: plain_keys_def)
  obtain order q groups q' gr csv where o:
    "order_and_warm_up (sn_sweep env) ?s (inputs_of generated) (rs_binary su) (snd w3) = (Inr order, q)"
    and g: "st_traverse (sweep_group (sn_sweep env) ?s (inputs_of generated) (rs_binary su) (path_text (rs_temp su)) (so_orders order))
       (zip [0..<length (so_cases order)] (so_cases order)) q = (Inr groups, q')"
    and r: "res = session_result env ss (inputs_of generated) order groups" "snd w' = q'"
    and fs: "fst w' = put (?T @ [''manifest.json''])
        (File (JsonDoc (JObj (manifest_document ss su (inputs_of generated) generated gr (sn_created env) (sn_numpy_version env) res))))
      (put (?T @ [''summary.csv'']) csv
      (remove_tree (rs_temp su) (put_records ?T (record_of env ss su generated) (concat groups) (fst w3))))"
    by (rule timed_part_files [OF timed])
  note of = order_facts [OF o]
  have cases: "set (sr_cases res) = set (concat groups)" by (simp add: r session_result_def Let_def)
  have od: "distinct (so_cases order)"
    unfolding of(3) by (rule case_order_distinct [OF perm _ bits]) (simp add: inputs_of_def keys)
  have os: "k \<in> set (map fst generated)" if "(k, b) \<in> set (so_cases order)" for k b
  proof -
    have "(k, b) \<in> set (List.product (si_keys (inputs_of generated)) (sw_bits ?s))"
      using that case_order_subset [where perm = "se_permute (sn_sweep env)", OF perm] unfolding of(3) by blast
    then show ?thesis by (simp add: inputs_of_def)
  qed
  note ids = group_ids [OF g of(2), unfolded job_list]
  have dist: "distinct (map bc_id (concat groups))"
    unfolding ids(1) by (rule case_ids_distinct [OF od paths])
  have names: "CHR ''/'' \<notin> set (bc_id c) \<and> bc_id c \<noteq> ''.''" "\<exists>r. bc_id c = ''case_'' @ r" if "c \<in> set (concat groups)" for c
  proof -
    have c: "c \<in> set (concat groups)" by (rule that)
    obtain key b path where x: "(key, b) \<in> set (so_cases order)" "path \<in> set (sw_paths ?s)" "bc_id c = case_id path b key"
      using bspec [OF ids(2) c] by blast
    show "CHR ''/'' \<notin> set (bc_id c) \<and> bc_id c \<noteq> ''.''"
      unfolding x(3) by (rule case_id_plain [OF selected_paths_plain [OF paths x(2)] plain [OF os [OF x(1)]]])
    show "\<exists>r. bc_id c = ''case_'' @ r" unfolding x(3) case_id_def by blast
  qed
  show thesis
  proof (rule that)
    show "\<forall>c \<in> set (sr_cases res). CHR ''/'' \<notin> set (bc_id c) \<and> bc_id c \<noteq> ''.''" using names(1) cases by blast
    show "\<forall>c \<in> set (sr_cases res). lookup (fst w') (case_file ?T (bc_id c)) = Some (File (JsonDoc (JObj (record_of env ss su generated c))))"
    proof
      fix c assume "c \<in> set (sr_cases res)"
      then have c: "c \<in> set (concat groups)" using cases by blast
      obtain x where x: "bc_id c = ''case_'' @ x" using names(2) [OF c] by blast
      have "\<not> under (rs_temp su) (case_file ?T (bc_id c))"
        by (simp add: temp case_file_def under_def starts_with_def x)
      then show "lookup (fst w') (case_file ?T (bc_id c)) = Some (File (JsonDoc (JObj (record_of env ss su generated c))))"
        using put_records_lookup [OF dist c] by (simp add: fs remove_tree_lookup) (simp add: case_file_def x)
    qed
    show "sweep_run (sn_sweep env) ?s (inputs_of generated) (ss_conditions ss) (rs_binary su) (path_text (rs_temp su)) (snd w3) = (Inr res, snd w')"
      by (simp add: sweep_run_def st_bind_def o g r session_result_def Let_def st_return_def)
  qed (simp add: fs)
qed

end
