(* ===== verification/Matrix.thy ===== *)
theory Matrix
  imports Session Host Monitoring
begin

text \<open>
  The benchmark matrix of \<open>src/stoquant/matrix.py\<close>: the checks on its arguments, the provenance and
  readiness of the machine, the conditions of the run, the reserved snapshot, the sweep and the
  publication. Its state is the process affinity over the file tree and the machine. Git, the
  environment, the time stamps and the probes of the machine are arguments. The lemmas show what a
  returned path holds and when the run it holds counts as evidence.
\<close>

definition K1_VARIANTS :: "string list" where "K1_VARIANTS = [''reference'', ''optimized'']"

record matrix_args =
  ma_output :: "path option"
  ma_counts :: "nat list"
  ma_bits :: "nat list"
  ma_backends :: "string list"
  ma_warmups :: nat
  ma_reps :: nat
  ma_trials :: int
  ma_input_seed :: int
  ma_compression_seed :: int
  ma_case_order_seed :: int
  ma_gpu_seconds :: fp
  ma_case_seconds :: fp
  ma_in_process_seconds :: fp
  ma_allow_dirty :: bool
  ma_pilot :: bool
  ma_facts :: "(string \<times> json) list option"
  ma_ignore_readiness :: bool
  ma_boundaries :: "string list"
  ma_policies :: "string list"
  ma_family :: string
  ma_model_tensors :: "string option"
  ma_model_limit :: "int option"
  ma_k1 :: string

datatype matrix_exn =
    MatrixConfig configuration_error
  | DuplicateCounts
  | UnknownK1 string
  | UnknownMatrixFamily string
  | ModelOptionsOutside
  | MatrixModel input_error
  | TooFewTrials
  | CpuMissing
  | MatrixDesign design_error
  | MatrixPy py_exn
  | MatrixStore snapshot_error
  | NotReady "readiness_failure list"
  | MatrixSession session_exn

subsection \<open>Arguments\<close>

definition matrix_tensors :: "matrix_args \<Rightarrow> string option" where
  "matrix_tensors a =
     (if ma_family a = ''model'' then Some (case ma_model_tensors a of Some (c # cs) \<Rightarrow> c # cs | _ \<Rightarrow> ''distinct'')
      else ma_model_tensors a)"

definition check_model_options :: "matrix_args \<Rightarrow> (matrix_exn, unit) result" where
  "check_model_options a =
     (if ma_family a \<noteq> ''model'' then
        (if ma_model_tensors a \<noteq> None \<or> ma_model_limit a \<noteq> None then Inl ModelOptionsOutside else Inr ())
      else case select_model_tensors (the (matrix_tensors a)) (ma_model_limit a) of
        Inl e \<Rightarrow> Inl (MatrixModel e) | Inr ts \<Rightarrow> Inr ())"

definition design_result :: "(design_error, 'a) result \<Rightarrow> (matrix_exn, 'a) result" where
  "design_result m = (case m of Inl e \<Rightarrow> Inl (MatrixDesign e) | Inr x \<Rightarrow> Inr x)"

definition validate_matrix :: "matrix_args \<Rightarrow> (matrix_exn, bench_path list) result" where
  "validate_matrix a =
     (if length (remdups (ma_counts a)) \<noteq> length (ma_counts a) then Inl DuplicateCounts
      else if ma_k1 a \<notin> set K1_VARIANTS then Inl (UnknownK1 (ma_k1 a))
      else if ma_family a \<notin> set INPUT_FAMILIES then Inl (UnknownMatrixFamily (ma_family a))
      else bindE (check_model_options a) (\<lambda>_.
        if ma_trials a < 1 then Inl TooFewTrials
        else if ''cpu'' \<notin> set (ma_backends a) then Inl CpuMissing
        else bindE (design_result (build_paths (ma_backends a) (ma_boundaries a) (ma_policies a))) (\<lambda>paths.
          bindE (design_result (trial_orders (length paths) (nat (ma_trials a)))) (\<lambda>_. Inr paths))))"

subsection \<open>Conditions of the run\<close>

text \<open>\<open>hex(n)\<close> of a non-negative integer.\<close>

fun hex_text :: "nat \<Rightarrow> string" where
  "hex_text n =
     (let d = n mod 16; c = char_of (if d < 10 then 48 + d else 87 + d) in if n < 16 then [c] else hex_text (n div 16) @ [c])"

declare hex_text.simps [simp del]

definition py_hex :: "int \<Rightarrow> string" where
  "py_hex z = (if z < 0 then ''-0x'' @ hex_text (nat (- z)) else ''0x'' @ hex_text (nat z))"

definition non_evidence_reasons :: "bool \<Rightarrow> bool \<Rightarrow> bool \<Rightarrow> bool \<Rightarrow> string list" where
  "non_evidence_reasons pilot failed ignored dirty =
     (if pilot then [''pilot run''] else [])
     @ (if failed then [if ignored then ''readiness check failed and was overridden''
                        else ''readiness check failed (pilot; not enforced)''] else [])
     @ (if dirty then [''dirty git tree''] else [])"

definition run_conditions_of :: "matrix_args \<Rightarrow> readiness_failure list \<Rightarrow> bool \<Rightarrow> run_conditions" where
  "run_conditions_of a failures dirty =
     (let reasons = non_evidence_reasons (ma_pilot a) (failures \<noteq> []) (ma_ignore_readiness a) dirty in
      \<lparr>rc_evidence = (reasons = []), rc_reasons = reasons\<rparr>)"

definition affinity_document :: "affinity \<Rightarrow> json" where
  "affinity_document aff =
     JObj [(''excluded_logical_cpus'', JList (map (\<lambda>n. JInt (int n)) (excluded_cpus aff))), (''mask'', JStr (py_hex (aff_mask aff))),
           (''previous_mask'', JStr (py_hex (previous_mask aff))),
           (''applied_to'', JStr ''driver process before any benchmark or probe process; inherited'')]"

definition condition_items ::
  "(readiness_failure \<Rightarrow> string) \<Rightarrow> matrix_args \<Rightarrow> (string \<times> json) list \<Rightarrow> readiness_failure list \<Rightarrow> affinity \<Rightarrow> (string \<times> json) list" where
  "condition_items text_of a facts failures aff =
     [(''pilot'', JBool (ma_pilot a)),
      (''readiness'', JObj [(''passed'', JBool (failures = [])), (''failures'', JList (map (\<lambda>f. JStr (text_of f)) failures)),
         (''overridden'', JBool (failures \<noteq> [] \<and> ma_ignore_readiness a)), (''enforced'', JBool (\<not> ma_pilot a)),
         (''facts'', JObj facts), (''min_available_physical_bytes'', JInt MIN_AVAILABLE_PHYSICAL_BYTES)]),
      (''affinity'', affinity_document aff)]"

subsection \<open>The run\<close>

text \<open>
  \<open>mx_git\<close> is the dictionary of \<open>collect_git_provenance\<close>, \<open>mx_probes\<close> the results of the machine's
  probes, \<open>mx_day\<close> and \<open>mx_second\<close> the stamps of the local time, \<open>mx_today\<close> the date of the record,
  \<open>mx_registration\<close> the file the supervisor asked for and \<open>mx_resolve\<close> the resolved text of a path.
\<close>

record 'p matrix_env =
  mx_session :: "'p session_env"
  mx_urlsplit :: "string \<Rightarrow> split_url option"
  mx_env_file :: file_text
  mx_environ :: "(string \<times> string) list"
  mx_git :: "('p, py_exn, (string \<times> json) list) st"
  mx_probes :: "'p \<Rightarrow> machine_probes"
  mx_exn_text :: "py_exn \<Rightarrow> string"
  mx_failure_text :: "readiness_failure \<Rightarrow> string"
  mx_root :: path
  mx_day :: string
  mx_second :: string
  mx_registration :: "path option"
  mx_resolve :: "path \<Rightarrow> string"
  mx_pid :: string

type_synonym 'p matrix_state = "'p world host_state"

definition on_world :: "('e \<Rightarrow> matrix_exn) \<Rightarrow> ('p world, 'e, 'a) st \<Rightarrow> ('p matrix_state, matrix_exn, 'a) st" where
  "on_world raise m = (\<lambda>h. case m (hs_world h) of
       (Inl e, w) \<Rightarrow> (Inl (raise e), h\<lparr>hs_world := w\<rparr>) | (Inr x, w) \<Rightarrow> (Inr x, h\<lparr>hs_world := w\<rparr>))"

definition git_text :: "(string \<times> json) list \<Rightarrow> string \<Rightarrow> string" where
  "git_text git k = (case get_field git k of JStr s \<Rightarrow> s | _ \<Rightarrow> [])"

definition git_state_of :: "(string \<times> json) list \<Rightarrow> git_state" where
  "git_state_of git =
     \<lparr>git_dirty = truthy (get_field git ''git_dirty''),
      dirty_files = (case get_field git ''dirty_files'' of JList xs \<Rightarrow> map (\<lambda>x. case x of JStr s \<Rightarrow> s | _ \<Rightarrow> []) xs | _ \<Rightarrow> [])\<rparr>"

definition target_directory :: "'p matrix_env \<Rightarrow> matrix_args \<Rightarrow> (string \<times> json) list \<Rightarrow> path" where
  "target_directory env a git =
     (case ma_output a of
        Some dir \<Rightarrow> dir
      | None \<Rightarrow> snapshot_path (mx_root env) (git_text git ''code_revision_short'') (ma_family a) (ma_pilot a) (mx_day env) (mx_second env))"

definition matrix_sweep :: "matrix_args \<Rightarrow> bench_path list \<Rightarrow> sweep_settings" where
  "matrix_sweep a paths =
     \<lparr>sw_counts = ma_counts a, sw_bits = ma_bits a, sw_backends = ma_backends a, sw_paths = paths, sw_warmups = ma_warmups a,
      sw_reps = ma_reps a, sw_trials = nat (ma_trials a), sw_seed = ma_compression_seed a,
      sw_case_order_seed = ma_case_order_seed a, sw_gpu_warmup_seconds = ma_gpu_seconds a,
      sw_case_warmup_seconds = ma_case_seconds a, sw_in_process_seconds = ma_in_process_seconds a,
      sw_family = ma_family a, sw_k1 = ma_k1 a\<rparr>"

definition matrix_session ::
  "'p matrix_env \<Rightarrow> matrix_args \<Rightarrow> (string \<times> int) option \<Rightarrow> bench_path list \<Rightarrow> path \<Rightarrow> (string \<times> json) list
     \<Rightarrow> run_conditions \<Rightarrow> (string \<times> json) list \<Rightarrow> session_settings" where
  "matrix_session env a monitoring paths target git conditions items =
     \<lparr>ss_sweep = matrix_sweep a paths, ss_target = target, ss_date = mx_day env, ss_git = git, ss_conditions = conditions,
      ss_condition_items = items, ss_policies = filter (\<lambda>p. p \<in> set (ma_policies a)) TRANSFER_POLICIES,
      ss_input_seed = ma_input_seed a, ss_model_tensors = matrix_tensors a, ss_model_limit = ma_model_limit a,
      ss_monitoring = monitoring\<rparr>"

definition readiness_of ::
  "'p matrix_env \<Rightarrow> matrix_args \<Rightarrow> (string \<times> json) list
     \<Rightarrow> ('p matrix_state, matrix_exn, (string \<times> json) list \<times> readiness_failure list) st" where
  "readiness_of env a git = (\<lambda>h.
     let facts = (case ma_facts a of
            None \<Rightarrow> probe_readiness_facts (mx_exn_text env) (mx_probes env (snd (hs_world h))) (Some (JObj git))
          | Some facts \<Rightarrow> facts)
     in case check_readiness facts of
          Inl e \<Rightarrow> (Inl (MatrixPy e), h)
        | Inr failures \<Rightarrow>
            if failures \<noteq> [] \<and> \<not> (ma_ignore_readiness a \<or> ma_pilot a) then (Inl (NotReady failures), h)
            else (Inr (facts, failures), h))"

definition register :: "'p matrix_env \<Rightarrow> path \<Rightarrow> ('p matrix_state, matrix_exn, unit) st" where
  "register env dir =
     on_world MatrixPy (on_file id (register_active_snapshot dir (mx_resolve env dir) (mx_registration env) (mx_pid env)))"

text \<open>From the reserved directory to the published one.\<close>

definition publish_run :: "'p matrix_env \<Rightarrow> session_settings \<Rightarrow> snapshot \<Rightarrow> ('p matrix_state, matrix_exn, path) st" where
  "publish_run env ss snap =
     st_bind (register env (partial snap)) (\<lambda>_.
     st_bind (on_world MatrixSession (session_run (mx_session env) ss)) (\<lambda>_.
     st_bind (on_world MatrixStore (on_files id (commit snap))) (\<lambda>snap.
     st_bind (register env (final snap)) (\<lambda>_. st_return (final snap)))))"

definition matrix_body ::
  "'p matrix_env \<Rightarrow> matrix_args \<Rightarrow> (string \<times> int) option \<Rightarrow> bench_path list \<Rightarrow> affinity \<Rightarrow> ('p matrix_state, matrix_exn, path) st" where
  "matrix_body env a monitoring paths aff =
     st_bind (on_world MatrixPy (on_machine id (mx_git env))) (\<lambda>git.
     let target = target_directory env a git in
     st_bind (on_world MatrixStore (on_files id (\<lambda>fs. bindE (check_snapshot target (git_state_of git) (ma_allow_dirty a) fs) (\<lambda>u. Inr (u, fs))))) (\<lambda>_.
     st_bind (readiness_of env a git) (\<lambda>(facts, failures).
     let conditions = run_conditions_of a failures (git_dirty (git_state_of git));
         items = condition_items (mx_failure_text env) a facts failures aff in
     st_bind (on_world MatrixStore (on_files id (create_snapshot target (git_state_of git) (ma_allow_dirty a)))) (\<lambda>snap.
       publish_run env (matrix_session env a monitoring paths (partial snap) git conditions items) snap))))"

definition run_benchmark_matrix :: "'p matrix_env \<Rightarrow> matrix_args \<Rightarrow> ('p matrix_state, matrix_exn, path) st" where
  "run_benchmark_matrix env a =
     st_bind (st_lift (case parse_monitoring_config (mx_urlsplit env) (mx_env_file env) (mx_environ env) False of
          Inl e \<Rightarrow> Inl (MatrixConfig e) | Inr c \<Rightarrow> Inr (manifest_metadata c))) (\<lambda>monitoring.
     st_bind (st_lift (validate_matrix a)) (\<lambda>paths.
       benchmark_process_affinity MatrixPy (matrix_body env a monitoring paths)))"

subsection \<open>Steps of a run that returned\<close>

lemma on_world_Inr [result_simps]:
  "on_world raise m h = (Inr x, h') \<longleftrightarrow> m (hs_world h) = (Inr x, hs_world h') \<and> h' = h\<lparr>hs_world := hs_world h'\<rparr>"
  by (cases h; cases h') (auto simp: on_world_def split: prod.splits sum.splits)

definition files_of :: "'p matrix_state \<Rightarrow> fs" where
  "files_of h = fst (hs_world h)"

lemma validate_matrix_Inr:
  assumes "validate_matrix a = Inr paths"
  shows "build_paths (ma_backends a) (ma_boundaries a) (ma_policies a) = Inr paths" "1 \<le> ma_trials a"
    "''cpu'' \<in> set (ma_backends a)" "distinct (ma_counts a)"
  using assms
  by (auto simp: validate_matrix_def design_result_def bindE_eq_Inr length_remdups_eq split: if_splits sum.splits)

lemma register_facts:
  assumes "register_active_snapshot dir resolved (Some reg) pid fs = Inr fs'"
  obtains fs1 temporary doc where "fs1 = fs \<or> mkdir_parents (butlast reg) fs = Inr fs1"
    "temporary = with_name reg (last reg @ ''.'' @ pid @ ''.tmp'')" "write_file temporary doc fs1 = Inr (put temporary (File doc) fs1)"
    "\<not> is_dir (put temporary (File doc) fs1) reg"
    "fs' = put reg (File doc) (filter (\<lambda>e. fst e \<noteq> temporary) (put temporary (File doc) fs1))"
  using assms by (auto simp: register_active_snapshot_def Let_def bindE_eq_Inr split: if_splits dest: write_file_put)

lemma lookup_filter: "lookup (filter (\<lambda>e. fst e \<noteq> t) fs) p = (if p = t then None else lookup fs p)"
proof -
  have "map_of (filter (\<lambda>e. fst e \<noteq> t) fs) p = (if p = t then None else map_of fs p)"
    by (induction fs) auto
  then show ?thesis by (simp add: lookup_def)
qed

text \<open>Registering keeps a tree well formed, and leaves what lies below a directory that does not hold the registration.\<close>

lemma register_keeps:
  assumes "register_active_snapshot dir resolved registration pid fs = Inr fs'"
    and "\<And>reg. registration = Some reg \<Longrightarrow> \<not> under d (butlast reg)" and "r \<noteq> []" "lookup fs (d @ r) = Some n"
  shows "lookup fs' (d @ r) = Some n"
proof (cases registration)
  case None
  then show ?thesis using assms(1,4) by (simp add: register_active_snapshot_def)
next
  case (Some reg)
  obtain fs1 t doc where r: "fs1 = fs \<or> mkdir_parents (butlast reg) fs = Inr fs1"
    "t = with_name reg (last reg @ ''.'' @ pid @ ''.tmp'')"
    "fs' = put reg (File doc) (filter (\<lambda>e. fst e \<noteq> t) (put t (File doc) fs1))"
    using register_facts [OF assms(1) [unfolded Some]] by metis
  have nu: "\<not> under d (butlast reg)" by (rule assms(2) [OF Some])
  have u: "under d (butlast (d @ r))" using assms(3) by (simp add: butlast_append)
  then have "d @ r \<noteq> reg" using nu by auto
  moreover have "butlast t = butlast reg" by (simp add: r(2) with_name_def)
  then have "d @ r \<noteq> t" using u nu by auto
  moreover have "lookup fs1 (d @ r) = Some n" using r(1) assms(4) mkdir_parents_keeps by blast
  ultimately show ?thesis by (simp add: r(3) lookup_filter)
qed

lemma wf_filter_file:
  assumes "wf_fs fs" "lookup fs t \<noteq> Some Dir"
  shows "wf_fs (filter (\<lambda>e. fst e \<noteq> t) fs)"
proof -
  have "distinct (map fst (filter (\<lambda>e. fst e \<noteq> t) fs))" using assms(1) by (auto simp: wf_fs_def distinct_map_filter)
  moreover have "lookup (filter (\<lambda>e. fst e \<noteq> t) fs) (butlast p) = Some Dir" if "p \<in> fst ` set fs" "1 < length p" for p
  proof -
    have "lookup fs (butlast p) = Some Dir" using assms(1) that by (auto simp: wf_fs_def)
    then show ?thesis using assms(2) by (auto simp: lookup_filter)
  qed
  ultimately show ?thesis using assms(1) by (auto simp: wf_fs_def)
qed

lemma register_wf:
  assumes "register_active_snapshot dir resolved registration pid fs = Inr fs'" "wf_fs fs"
    and "\<And>reg. registration = Some reg \<Longrightarrow> reg \<noteq> []"
  shows "wf_fs fs'"
proof (cases registration)
  case None
  then show ?thesis using assms(1,2) by (simp add: register_active_snapshot_def)
next
  case (Some reg)
  obtain fs1 t doc where r: "fs1 = fs \<or> mkdir_parents (butlast reg) fs = Inr fs1"
    "t = with_name reg (last reg @ ''.'' @ pid @ ''.tmp'')" "write_file t doc fs1 = Inr (put t (File doc) fs1)"
    "\<not> is_dir (put t (File doc) fs1) reg"
    "fs' = put reg (File doc) (filter (\<lambda>e. fst e \<noteq> t) (put t (File doc) fs1))"
    using register_facts [OF assms(1) [unfolded Some]] by metis
  let ?fs2 = "put t (File doc) fs1" and ?f = "filter (\<lambda>e. fst e \<noteq> t) (put t (File doc) fs1)"
  have reg: "reg \<noteq> []" by (rule assms(3) [OF Some])
  have t: "t \<noteq> []" "butlast t = butlast reg" "length t = length reg" using reg by (simp_all add: r(2) with_name_def)
  have w1: "wf_fs fs1" using r(1) assms(2) mkdir_parents_wf by blast
  have w2: "wf_fs ?fs2" by (rule write_wf [OF r(3) w1 t(1)])
  have w3: "wf_fs ?f" by (rule wf_filter_file [OF w2]) simp
  have "lookup ?f (butlast reg) = Some Dir" if "1 < length reg"
  proof -
    have "lookup ?fs2 (butlast t) = Some Dir" using w2 that t(3) by (auto simp: wf_fs_def put_keys)
    moreover have "butlast t \<noteq> t" using t(1) by (metis append_butlast_last_id not_Cons_self2 append_self_conv)
    ultimately show ?thesis by (simp add: lookup_filter t(2))
  qed
  moreover have "lookup ?f reg \<noteq> Some Dir" using r(4) by (auto simp: lookup_filter is_dir_def split: if_splits)
  ultimately show ?thesis unfolding r(5) by (intro wf_put w3 reg) auto
qed

subsection \<open>The published run\<close>

lemma publish_steps:
  assumes "publish_run env ss s h = (Inr snap, h')"
  obtains fs2 p fs3 p3 res fs4 where
    "register_active_snapshot (partial s) (mx_resolve env (partial s)) (mx_registration env) (mx_pid env) (files_of h) = Inr fs2"
    "session_run (mx_session env) ss (fs2, p) = (Inr res, (fs3, p3))" "commit s fs3 = Inr (s\<lparr>committed := True\<rparr>, fs4)"
    "register_active_snapshot snap (mx_resolve env snap) (mx_registration env) (mx_pid env) fs4 = Inr (files_of h')" "snap = final s"
proof -
  obtain h1 res h2 s' h3 where
    r1: "register env (partial s) h = (Inr (), h1)" and se: "on_world MatrixSession (session_run (mx_session env) ss) h1 = (Inr res, h2)"
    and co: "on_world MatrixStore (on_files id (commit s)) h2 = (Inr s', h3)" and r2: "register env (final s') h3 = (Inr (), h')"
    and sn: "snap = final s'"
    using assms unfolding publish_run_def by (auto simp: st_bind_Inr st_return_Inr)
  have c: "commit s (files_of h2) = Inr (s', files_of h3)" using co by (simp add: on_world_Inr on_files_Inr files_of_def)
  have s': "s' = s\<lparr>committed := True\<rparr>" by (rule commit_facts(4) [OF c])
  show thesis
  proof (rule that)
    show "register_active_snapshot (partial s) (mx_resolve env (partial s)) (mx_registration env) (mx_pid env) (files_of h) = Inr (files_of h1)"
      using r1 by (simp add: register_def on_world_Inr on_file_Inr files_of_def)
    show "session_run (mx_session env) ss (files_of h1, snd (hs_world h1)) = (Inr res, (files_of h2, snd (hs_world h2)))"
      using se by (simp add: on_world_Inr files_of_def)
    show "commit s (files_of h2) = Inr (s\<lparr>committed := True\<rparr>, files_of h3)" using c by (simp only: s')
    show "register_active_snapshot snap (mx_resolve env snap) (mx_registration env) (mx_pid env) (files_of h3) = Inr (files_of h')"
      using r2 by (simp add: register_def on_world_Inr on_file_Inr files_of_def sn)
    show "snap = final s" by (simp add: sn s')
  qed
qed

lemma body_steps:
  assumes "matrix_body env a monitoring paths aff h = (Inr snap, h')"
  obtains git facts failures s fs1 h1 where
    "check_readiness facts = Inr failures"
    "create_snapshot (target_directory env a git) (git_state_of git) (ma_allow_dirty a) (files_of h) = Inr (s, fs1)"
    "publish_run env (matrix_session env a monitoring paths (partial s) git (run_conditions_of a failures (git_dirty (git_state_of git)))
       (condition_items (mx_failure_text env) a facts failures aff)) s h1 = (Inr snap, h')" "files_of h1 = fs1"
proof -
  obtain git h1 h2 facts failures h3 s h4 where
    g: "on_world MatrixPy (on_machine id (mx_git env)) h = (Inr git, h1)" and
    c: "on_world MatrixStore (on_files id (\<lambda>fs. bindE (check_snapshot (target_directory env a git) (git_state_of git) (ma_allow_dirty a) fs)
          (\<lambda>u. Inr (u, fs)))) h1 = (Inr (), h2)" and
    r: "readiness_of env a git h2 = (Inr (facts, failures), h3)" and
    k: "on_world MatrixStore (on_files id (create_snapshot (target_directory env a git) (git_state_of git) (ma_allow_dirty a))) h3 = (Inr s, h4)" and
    p: "publish_run env (matrix_session env a monitoring paths (partial s) git (run_conditions_of a failures (git_dirty (git_state_of git)))
       (condition_items (mx_failure_text env) a facts failures aff)) s h4 = (Inr snap, h')"
    using assms unfolding matrix_body_def Let_def split_beta by (auto simp: st_bind_Inr)
  have f: "files_of h1 = files_of h" "files_of h2 = files_of h1" "files_of h3 = files_of h2" "check_readiness facts = Inr failures"
    using g c r by (auto simp: on_world_Inr on_machine_Inr on_files_Inr files_of_def bindE_eq_Inr readiness_of_def Let_def
        split: sum.splits if_splits option.splits)
  have "create_snapshot (target_directory env a git) (git_state_of git) (ma_allow_dirty a) (files_of h) = Inr (s, files_of h4)"
    using k f by (simp add: on_world_Inr on_files_Inr files_of_def)
  from that [OF f(4) this p refl] show thesis .
qed

lemma matrix_steps:
  assumes "run_benchmark_matrix env a h = (Inr snap, h')"
  obtains monitoring paths aff h1 h2 where "validate_matrix a = Inr paths" "matrix_body env a monitoring paths aff h1 = (Inr snap, h2)"
    "files_of h1 = files_of h" "files_of h' = files_of h2" "hs_mask h' = hs_mask h"
proof -
  obtain monitoring paths where v: "validate_matrix a = Inr paths"
    and b: "benchmark_process_affinity MatrixPy (matrix_body env a monitoring paths) h = (Inr snap, h')"
    using assms unfolding run_benchmark_matrix_def by (auto simp: st_bind_Inr st_lift_Inr)
  obtain msk aff h2 where "matrix_body env a monitoring paths aff (h\<lparr>hs_mask := msk\<rparr>) = (Inr snap, h2)" "h' = h2\<lparr>hs_mask := hs_mask h\<rparr>"
    using b by (auto simp: benchmark_process_affinity_def process_affinity_def Let_def split: sum.splits prod.splits)
  from that [OF v this(1)] this(2) show thesis by (simp add: files_of_def)
qed

text \<open>What a reader looks up in a published record and manifest.\<close>

definition object_field :: "(string \<times> json) list \<Rightarrow> string \<Rightarrow> (string \<times> json) list" where
  "object_field items k = (case get_field items k of JObj xs \<Rightarrow> xs | _ \<Rightarrow> [])"

definition list_field :: "(string \<times> json) list \<Rightarrow> string \<Rightarrow> json list" where
  "list_field items k = (case get_field items k of JList xs \<Rightarrow> xs | _ \<Rightarrow> [])"

definition record_passed :: "(string \<times> json) list \<Rightarrow> bool" where
  "record_passed r = (get_field (object_field r ''correctness'') ''status'' = JStr ''passed'')"

lemma record_fields:
  "get_field (record_of env ss su generated c) ''case_id'' = JStr (bc_id c)"
  "get_field (record_of env ss su generated c) ''correctness'' = JObj (bc_correctness c)"
  "get_field (record_of env ss su generated c) ''trial_runs'' = JList (map run_document (bc_runs c))"
  by (simp_all add: record_of_def case_document_def get_field_def)

lemma record_passed_of [simp]: "record_passed (record_of env ss su generated c) = case_passed c"
  by (simp add: record_passed_def object_field_def record_fields case_passed_def)

lemma condition_fields:
  "get_field (object_field [(k, conditions_document rc (condition_items text_of a facts failures aff))] k) ''evidence'' = JBool (rc_evidence rc)"
  "object_field (object_field (object_field [(k, conditions_document rc (condition_items text_of a facts failures aff))] k) ''readiness'') ''facts'' = facts"
  by (simp_all add: object_field_def get_field_def conditions_document_def condition_items_def)

lemma manifest_git: "object_field (manifest_document ss su inputs generated gr created nv res) ''git_provenance'' = ss_git ss"
  by (simp add: object_field_def get_field_def manifest_document_def Let_def)

lemma object_field_single: "get_field items k = v \<Longrightarrow> object_field items k = object_field [(k, v)] k"
  by (simp add: object_field_def get_field_def)

lemma under_final_partial: "reserved s \<Longrightarrow> moved (partial s) (final s) (partial s @ r) = final s @ r"
  by (simp add: moved_def)

lemma publish_rest:
  assumes "publish_run env ss s h = (Inr snap, h')" "reserved s" "wf_fs (files_of h)" "ss_target ss = partial s"
    and "mx_registration env = None" "lookup (files_of h) p = Some n" "\<not> under (partial s) p"
  shows "lookup (files_of h') p = Some n"
proof -
  obtain fs2 w fs3 w3 res fs4 where r: "register_active_snapshot (partial s) (mx_resolve env (partial s)) None (mx_pid env) (files_of h) = Inr fs2"
    and se: "session_run (mx_session env) ss (fs2, w) = (Inr res, (fs3, w3))" and co: "commit s fs3 = Inr (s\<lparr>committed := True\<rparr>, fs4)"
    and r2: "register_active_snapshot snap (mx_resolve env snap) None (mx_pid env) fs4 = Inr (files_of h')"
    using publish_steps [OF assms(1), unfolded assms(5)] by metis
  have eq: "fs2 = files_of h" "files_of h' = fs4" using r r2 by (simp_all add: register_active_snapshot_def)
  have "wf_fs fs3" using keepsD [OF tree.session_keeps [OF refl] se] assms(3) eq(1) by simp
  moreover have "unchanged_outside (files_of h) (partial s) fs3"
    using keepsD [OF frame.session_keeps [OF assms(4), of "files_of h"] se] eq(1) by (simp add: unchanged_outside_def)
  ultimately show ?thesis
    using commit_moves [OF co _ assms(2), of p n] assms(6,7) eq(2) by (simp add: moved_def unchanged_outside_def)
qed

text \<open>The directory a run publishes reads back as the manifest and the records of its sweep.\<close>

lemma publish_reads_back:
  assumes pub: "publish_run env ss s h = (Inr snap, h')" and s: "reserved s" "wf_fs (files_of h)" "ss_target ss = partial s"
    and paths: "build_paths backends boundaries policies = Inr (sw_paths (ss_sweep ss))"
    and perm: "\<And>s n. mset (se_permute (sn_sweep (mx_session env)) s n) = mset [0..<n]" and bits: "distinct (sw_bits (ss_sweep ss))"
    and reg: "\<And>reg. mx_registration env = Some reg \<Longrightarrow> reg \<noteq> [] \<and> \<not> under snap (butlast reg)"
  obtains su generated gr res binary tmp q w3 where
    "read_snapshot snap (files_of h') = Inr (manifest_document ss su (inputs_of generated) generated gr (sn_created (mx_session env))
       (sn_numpy_version (mx_session env)) res, map (record_of (mx_session env) ss su generated) (sr_cases res))"
    "mf_cases (sr_manifest res) = map bc_id (sr_cases res)"
    "sweep_run (sn_sweep (mx_session env)) (ss_sweep ss) (inputs_of generated) (ss_conditions ss) binary tmp q = (Inr res, w3)"
proof -
  obtain fs2 w fs3 w3 res fs4 where
    r1: "register_active_snapshot (partial s) (mx_resolve env (partial s)) (mx_registration env) (mx_pid env) (files_of h) = Inr fs2"
    and se: "session_run (mx_session env) ss (fs2, w) = (Inr res, (fs3, w3))" and co: "commit s fs3 = Inr (s\<lparr>committed := True\<rparr>, fs4)"
    and r2: "register_active_snapshot snap (mx_resolve env snap) (mx_registration env) (mx_pid env) fs4 = Inr (files_of h')"
    and sn: "snap = final s"
    using publish_steps [OF pub] by metis
  have "wf_fs fs2" by (rule register_wf [OF r1 s(2)]) (use reg in blast)
  then have wf3: "wf_fs fs3" using keepsD [OF tree.session_keeps [OF refl] se] by simp
  obtain su generated gr binary tmp q where
    m: "lookup fs3 (partial s @ [''manifest.json'']) = Some (File (JsonDoc (JObj
       (manifest_document ss su (inputs_of generated) generated gr (sn_created (mx_session env)) (sn_numpy_version (mx_session env)) res))))"
    and rs: "\<forall>c \<in> set (sr_cases res). lookup fs3 (case_file (partial s) (bc_id c))
       = Some (File (JsonDoc (JObj (record_of (mx_session env) ss su generated c))))"
    and nm: "\<forall>c \<in> set (sr_cases res). CHR ''/'' \<notin> set (bc_id c) \<and> bc_id c \<noteq> ''.''"
    and sr: "sweep_run (sn_sweep (mx_session env)) (ss_sweep ss) (inputs_of generated) (ss_conditions ss) binary tmp q = (Inr res, w3)"
    using session_snapshot [OF se paths perm bits, unfolded s(3)] by (metis fst_conv snd_conv)
  have keep: "lookup (files_of h') (snap @ [x]) = Some n" if l: "lookup fs3 (partial s @ [x]) = Some n" for x n
  proof -
    have "lookup fs4 (final s @ [x]) = Some n"
      using commit_moves [OF co wf3 s(1) l] under_final_partial [OF s(1)] by simp
    then show ?thesis unfolding sn [symmetric]
      by (rule register_keeps [OF r2, rotated 2]) (use reg in auto)
  qed
  have ids: "mf_cases (sr_manifest res) = map bc_id (sr_cases res)"
  proof -
    obtain ord where "sr_manifest res = sweep_manifest_of (ss_sweep ss) (inputs_of generated) (ss_conditions ss) ord (sr_cases res)"
      using sweep_run_parts [OF sr] by metis
    then show ?thesis by (simp add: sweep_manifest_of_def)
  qed
  show thesis
  proof (rule that [OF _ ids sr])
    show "read_snapshot snap (files_of h') = Inr (manifest_document ss su (inputs_of generated) generated gr (sn_created (mx_session env))
       (sn_numpy_version (mx_session env)) res, map (record_of (mx_session env) ss su generated) (sr_cases res))"
      by (rule read_snapshot_back [of _ _ _ bc_id])
         (use keep [OF m] keep rs nm in \<open>auto simp: manifest_lookup ids case_file_def\<close>)
  qed
qed

text \<open>When the conditions of a matrix run end up as evidence.\<close>

lemma matrix_conditions:
  assumes "sweep_run env s inputs (run_conditions_of a failures dirty) binary tmp q = (Inr res, w)"
  shows "rc_evidence (mf_conditions (sr_manifest res)) \<longleftrightarrow>
    \<not> ma_pilot a \<and> failures = [] \<and> \<not> dirty \<and> (\<forall>c \<in> set (sr_cases res). case_passed c)"
proof -
  obtain order where "sr_manifest res = sweep_manifest_of s inputs (run_conditions_of a failures dirty) order (sr_cases res)"
    using sweep_run_parts [OF assms] by metis
  then show ?thesis
    by (auto simp: sweep_manifest_of_def final_conditions_def Let_def run_conditions_of_def non_evidence_reasons_def
        failed_case_ids_def filter_empty_conv)
qed

text \<open>
  C1: A path that \<open>run_benchmark_matrix\<close> returns is a complete snapshot. It was free before the run; after it,
  \<open>read_snapshot\<close> accepts it and gives one record per case the manifest lists, in that order, the passed ones with
  one run per trial. The manifest calls the run evidence exactly when it was no pilot, the tree of its provenance
  was clean, the readiness check of its facts found nothing, and every record passed. The process
  affinity is what it was. The random case order is assumed to be a permutation, the bit widths to be distinct, and the
  registration file to lie outside the snapshot. Without a registration file, every entry of the file tree that
  was there before the run is there unchanged after it.
\<close>

theorem matrix_publishes_evidence:
  assumes "run_benchmark_matrix env a h = (Inr snap, h')" "wf_fs (files_of h)" "snap \<noteq> []"
    and "\<And>s n. mset (se_permute (sn_sweep (mx_session env)) s n) = mset [0..<n]" "distinct (ma_bits a)"
    and "\<And>reg. mx_registration env = Some reg \<Longrightarrow> reg \<noteq> [] \<and> \<not> under snap (butlast reg)"
  shows "\<exists>manifest records. read_snapshot snap (files_of h') = Inr (manifest, records)
    \<and> lookup (files_of h) snap = None \<and> hs_mask h' = hs_mask h
    \<and> (mx_registration env = None \<longrightarrow> (\<forall>p n. lookup (files_of h) p = Some n \<longrightarrow> lookup (files_of h') p = Some n))
    \<and> list_field manifest ''cases'' = map (\<lambda>r. get_field r ''case_id'') records
    \<and> (\<forall>r \<in> set records. record_passed r \<longrightarrow> length (list_field r ''trial_runs'') = nat (ma_trials a))
    \<and> (get_field (object_field manifest ''run_conditions'') ''evidence'' = JBool True \<longleftrightarrow>
         \<not> ma_pilot a \<and> \<not> truthy (get_field (object_field manifest ''git_provenance'') ''git_dirty'')
         \<and> check_readiness (object_field (object_field (object_field manifest ''run_conditions'') ''readiness'') ''facts'') = Inr []
         \<and> (\<forall>r \<in> set records. record_passed r))"
proof -
  obtain monitoring paths aff h1 h2 where v: "validate_matrix a = Inr paths"
    and b: "matrix_body env a monitoring paths aff h1 = (Inr snap, h2)"
    and f: "files_of h1 = files_of h" "files_of h' = files_of h2" "hs_mask h' = hs_mask h"
    by (rule matrix_steps [OF assms(1)])
  obtain git facts failures s fs1 h3 where r: "check_readiness facts = Inr failures"
    and cr: "create_snapshot (target_directory env a git) (git_state_of git) (ma_allow_dirty a) (files_of h1) = Inr (s, fs1)"
    and p: "publish_run env (matrix_session env a monitoring paths (partial s) git (run_conditions_of a failures (git_dirty (git_state_of git)))
       (condition_items (mx_failure_text env) a facts failures aff)) s h3 = (Inr snap, h2)" and f3: "files_of h3 = fs1"
    by (rule body_steps [OF b])
  let ?ss = "matrix_session env a monitoring paths (partial s) git (run_conditions_of a failures (git_dirty (git_state_of git)))
       (condition_items (mx_failure_text env) a facts failures aff)"
  have sf: "s = \<lparr>final = target_directory env a git, partial = partial_path (target_directory env a git), committed = False\<rparr>"
    by (rule create_snapshot_facts(2) [OF cr])
  have target: "target_directory env a git = snap" using publish_steps [OF p] by (metis sf snapshot.select_convs(1))
  have s: "reserved s" "wf_fs (files_of h3)"
    using assms(3) create_wf [OF cr] by (simp_all add: reserved_def sf target f f3 assms(2))
  have t: "ss_target ?ss = partial s" "ss_sweep ?ss = matrix_sweep a paths" "ss_git ?ss = git"
    "ss_conditions ?ss = run_conditions_of a failures (git_dirty (git_state_of git))"
    "ss_condition_items ?ss = condition_items (mx_failure_text env) a facts failures aff"
    "sw_paths (ss_sweep ?ss) = paths" "sw_bits (ss_sweep ?ss) = ma_bits a" "sw_trials (ss_sweep ?ss) = nat (ma_trials a)"
    by (simp_all add: matrix_session_def matrix_sweep_def)
  have free: "lookup (files_of h) snap = None" "lookup (files_of h) (partial s) = None"
    using create_snapshot_facts(1) [OF cr] f(1) by (simp_all add: check_snapshot_ok target sf)
  obtain su generated gr res binary tmp q w3 where
    read: "read_snapshot snap (files_of h2) = Inr (manifest_document ?ss su (inputs_of generated) generated gr (sn_created (mx_session env))
       (sn_numpy_version (mx_session env)) res, map (record_of (mx_session env) ?ss su generated) (sr_cases res))"
    and ids: "mf_cases (sr_manifest res) = map bc_id (sr_cases res)"
    and sr: "sweep_run (sn_sweep (mx_session env)) (ss_sweep ?ss) (inputs_of generated) (ss_conditions ?ss) binary tmp q = (Inr res, w3)"
    by (rule publish_reads_back [OF p s t(1) _ assms(4)]) (use validate_matrix_Inr(1) [OF v] assms(5,6) t in auto)
  let ?manifest = "manifest_document ?ss su (inputs_of generated) generated gr (sn_created (mx_session env)) (sn_numpy_version (mx_session env)) res"
  let ?doc = "record_of (mx_session env) ?ss su generated"
  have others: "mx_registration env = None \<longrightarrow> (\<forall>p n. lookup (files_of h) p = Some n \<longrightarrow> lookup (files_of h') p = Some n)"
  proof (intro impI allI)
    fix q n assume none: "mx_registration env = None" and l: "lookup (files_of h) q = Some n"
    have "\<not> under (partial s) q"
      using absent_under [OF assms(2) free(2)] lookup_in [OF l] partial_path_facts(1) [OF assms(3)] by (auto simp: sf target)
    moreover have "lookup (files_of h3) q = Some n" using create_keeps [OF cr] l f(1) f3 by simp
    ultimately show "lookup (files_of h') q = Some n" using publish_rest [OF p s t(1) none] f(2) by simp
  qed
  have cond: "get_field ?manifest ''run_conditions''
      = conditions_document (mf_conditions (sr_manifest res)) (condition_items (mx_failure_text env) a facts failures aff)"
    by (simp only: manifest_lookup t)
  note cf = condition_fields [of "''run_conditions''" "mf_conditions (sr_manifest res)" "mx_failure_text env" a facts failures aff,
      folded object_field_single [OF cond]]
  have ev: "rc_evidence (mf_conditions (sr_manifest res)) \<longleftrightarrow> \<not> ma_pilot a \<and> failures = [] \<and> \<not> truthy (get_field git ''git_dirty'')
      \<and> (\<forall>c \<in> set (sr_cases res). case_passed c)"
    using matrix_conditions [OF sr [unfolded t(4)]] by (simp add: git_state_of_def)
  have trials: "length (list_field (?doc c) ''trial_runs'') = nat (ma_trials a)" if "c \<in> set (sr_cases res)" "case_passed c" for c
    using sweep_cases_complete [OF sr that(1)] that(2) by (simp add: t matrix_sweep_def list_field_def record_fields complete_case_def)
  have cases: "list_field ?manifest ''cases'' = map (\<lambda>r. get_field r ''case_id'') (map ?doc (sr_cases res))"
    by (simp add: list_field_def manifest_lookup ids record_fields)
  have evidence: "get_field (object_field ?manifest ''run_conditions'') ''evidence'' = JBool True \<longleftrightarrow>
       \<not> ma_pilot a \<and> \<not> truthy (get_field (object_field ?manifest ''git_provenance'') ''git_dirty'')
       \<and> check_readiness (object_field (object_field (object_field ?manifest ''run_conditions'') ''readiness'') ''facts'') = Inr []
       \<and> (\<forall>r \<in> set (map ?doc (sr_cases res)). record_passed r)"
    unfolding cf manifest_git t(3) r using ev by auto
  show ?thesis
    using read f free(1) others cases trials evidence
    by (intro exI [of _ ?manifest] exI [of _ "map ?doc (sr_cases res)"] conjI) (simp_all only:, auto)
qed

subsection \<open>A run on an idle machine\<close>

definition idle_session :: "nat session_env" where
  "idle_session = \<lparr>sn_sweep = idle_env, sn_inputs = sample_ops, sn_find_binary = (\<lambda>cuda. st_return (''b'', JNull)),
     sn_toolchain = st_return (JNull, JNull), sn_build = (\<lambda>stamp. st_return []), sn_device = st_return (JNull, JNull),
     sn_gpu_state = (\<lambda>p. JNull), sn_report = (\<lambda>avx2. st_return []), sn_elapsed = (\<lambda>n. fp_zero), sn_after_warmup = (\<lambda>n. JNull),
     sn_csv = (\<lambda>rows. []), sn_created = JNull, sn_numpy_version = []\<rparr>"

definition idle_matrix :: "nat matrix_env" where
  "idle_matrix = \<lparr>mx_session = idle_session, mx_urlsplit = example_split, mx_env_file = FileAbsent, mx_environ = [],
     mx_git = st_return [(''git_dirty'', JBool False)],
     mx_probes = (\<lambda>p. \<lparr>mp_gpu_state = Inl ZeroDivisionError, mp_git = Inl ZeroDivisionError, mp_memory = Inl ZeroDivisionError,
        mp_pids = Inl ZeroDivisionError, mp_power_plan = Inl ZeroDivisionError, mp_hags = Inl ZeroDivisionError,
        mp_uptime = Inl ZeroDivisionError\<rparr>),
     mx_exn_text = (\<lambda>e. []), mx_failure_text = (\<lambda>f. []), mx_root = [''root''], mx_day = [], mx_second = [],
     mx_registration = None, mx_resolve = path_text, mx_pid = []\<rparr>"

definition idle_args :: matrix_args where
  "idle_args = \<lparr>ma_output = Some [''s''], ma_counts = [16], ma_bits = [8], ma_backends = [''cpu''], ma_warmups = 1, ma_reps = 2,
     ma_trials = 2, ma_input_seed = 7, ma_compression_seed = 42, ma_case_order_seed = 7, ma_gpu_seconds = fp_zero,
     ma_case_seconds = fp_zero, ma_in_process_seconds = fp_zero, ma_allow_dirty = False, ma_pilot = True,
     ma_facts = Some [(''stoquant_pids'', JList []), (''gpu_clock_event_reasons'', JNull)], ma_ignore_readiness = False,
     ma_boundaries = [], ma_policies = [''pageable''], ma_family = ''dense'', ma_model_tensors = None, ma_model_limit = None,
     ma_k1 = ''reference''\<rparr>"

abbreviation idle_files :: fs where
  "idle_files \<equiv> [([''s.partial'', ''_temp''], Dir), ([''s.partial''], Dir)]"

lemma idle_generate:
  "\<exists>generated fs. generate_family_inputs sample_ops ''dense'' [16] [''s.partial'', ''_temp'', ''inputs''] 7 ''distinct'' None idle_files
      = Inr (generated, fs) \<and> map fst generated = [''n16''] \<and> lookup fs [''s.partial''] = Some Dir \<and> lookup fs [''s''] = None
     \<and> (\<forall>n \<in> {''run-plan.json'', ''msvc_vectorization_report.txt'', ''summary.csv'', ''manifest.json'',
           case_id COMPARATOR 8 ''n16'' @ ''.json''}. lookup fs [''s.partial'', n] = None)"
proof -
  have "case generate_family_inputs sample_ops ''dense'' [16] [''s.partial'', ''_temp'', ''inputs''] 7 ''distinct'' None idle_files of
      Inl e \<Rightarrow> False
    | Inr (generated, fs) \<Rightarrow> map fst generated = [''n16''] \<and> lookup fs [''s.partial''] = Some Dir \<and> lookup fs [''s''] = None
       \<and> list_all (\<lambda>n. lookup fs [''s.partial'', n] = None) [''run-plan.json'', ''msvc_vectorization_report.txt'', ''summary.csv'',
           ''manifest.json'', case_id COMPARATOR 8 ''n16'' @ ''.json'']" by code_simp
  then show ?thesis by (auto simp: list_all_iff split: sum.splits)
qed

lemma idle_order:
  assumes "si_keys inputs = [''n16'']"
  shows "order_and_warm_up idle_env idle_settings inputs binary p
    = (Inr \<lparr>so_orders = [[0], [0]], so_cases = [(''n16'', 8)], so_gpu_warmup = None\<rparr>, p)"
proof -
  have "trial_orders 1 2 = Inr [[0], [0]]"
    by (simp add: trial_orders_def trial_design_def MAX_PERMUTATION_PATHS_def Let_def upt_rec numeral_2_eq_2)
  then show ?thesis
    by (simp add: order_and_warm_up_def idle_settings_def assms idle_env_def st_bind_def st_lift_def case_order_def
        largest_input_def has_cuda_def st_return_def Let_def)
qed

lemma idle_sweep_group:
  assumes "si_keys inputs = [''n16'']"
  obtains c q where "sweep_group idle_env idle_settings inputs binary tmp [[0], [0]] (0, ''n16'', 8) p = (Inr [c], q)"
    "bc_id c = case_id COMPARATOR 8 ''n16''"
proof -
  obtain out where o: "sweep_group idle_env idle_settings inputs binary tmp [[0], [0]] (0, ''n16'', 8) p = (Inr out, Suc p)"
    using idle_group by blast
  have "\<forall>ord \<in> set [[0], [0]]. distinct ord \<and> set ord = {..<length (sw_paths idle_settings)}"
    by (auto simp: idle_settings_def)
  note n = sweep_group_nth [OF o this]
  have l: "length out = 1" using n(1) by (simp add: idle_settings_def)
  moreover have "bc_id (out ! 0) = case_id COMPARATOR 8 ''n16''" using n(2) [of 0] by (simp add: idle_settings_def)
  ultimately show thesis using that o by (cases out) auto
qed

lemma write_free: "lookup fs (t @ [n]) = None \<Longrightarrow> lookup fs t = Some Dir \<Longrightarrow> write_file (t @ [n]) c fs = Inr (put (t @ [n]) (File c) fs)"
  by (simp add: write_file_def is_dir_def)

lemma idle_timed:
  assumes ss: "ss_sweep ss = idle_settings" "ss_target ss = [''s.partial'']" "rs_temp su = [''s.partial'', ''_temp'']"
    and g: "map fst generated = [''n16'']" and d: "lookup fs [''s.partial''] = Some Dir" and s: "lookup fs [''s''] = None"
    and free: "\<forall>n \<in> {''summary.csv'', ''manifest.json'', case_id COMPARATOR 8 ''n16'' @ ''.json''}. lookup fs [''s.partial'', n] = None"
  shows "\<exists>res fs' p'. timed_part idle_session ss su generated (fs, p) = (Inr res, (fs', p'))
     \<and> lookup fs' [''s''] = None \<and> lookup fs' [''s.partial''] = Some Dir"
proof -
  let ?inputs = "inputs_of generated"
  let ?id = "case_id COMPARATOR 8 ''n16''"
  have k: "si_keys ?inputs = [''n16'']" by (simp add: inputs_of_def g)
  obtain c q where c: "sweep_group idle_env idle_settings ?inputs (rs_binary su) (path_text (rs_temp su)) [[0], [0]] (0, ''n16'', 8) p
      = (Inr [c], q)" "bc_id c = ?id" by (rule idle_sweep_group [OF k])
  have n: "?id @ ''.json'' \<noteq> ''summary.csv''" "?id @ ''.json'' \<noteq> ''manifest.json''" "?id @ ''.json'' \<noteq> ''_temp''"
    by (simp_all add: case_id_def)
  define fs1 where "fs1 = put (case_file [''s.partial''] ?id) (File (JsonDoc (JObj (record_of idle_session ss su generated c)))) fs"
  define fs2 where "fs2 = remove_tree [''s.partial'', ''_temp''] fs1"
  have l2: "lookup fs2 [''s.partial''] = Some Dir" "lookup fs2 [''s''] = None"
    "lookup fs2 [''s.partial'', ''summary.csv''] = None" "lookup fs2 [''s.partial'', ''manifest.json''] = None"
    using d s free n by (simp_all add: fs2_def fs1_def remove_tree_lookup under_def starts_with_def case_file_def)
  have sn: "sn_sweep idle_session = idle_env" by (simp add: idle_session_def)
  have w: "write_case idle_session ss su generated c (fs, q) = (Inr (), (fs1, q))"
    using write_free [of fs "[''s.partial'']" "?id @ ''.json''"] d free
    by (simp add: write_case_def on_file_def on_files_def write_record_def ss c(2) case_file_def fs1_def)
  have gr: "session_group idle_session ss su generated [[0], [0]] (0, ''n16'', 8) (fs, p) = (Inr [c], (fs1, q))"
    by (simp add: session_group_def st_bind_def on_machine_def st_return_def ss(1,2) sn c(1) w)
  have fin: "\<exists>fs'. finish_session idle_session ss su generated r res (fs1, q) = (Inr (), (fs', q))
      \<and> lookup fs' [''s''] = None \<and> lookup fs' [''s.partial''] = Some Dir" for r res
    using write_free [of fs2 "[''s.partial'']" "''summary.csv''" "Text (sn_csv idle_session (sr_rows res))"] l2
    by (simp add: finish_session_def st_bind_def on_file_def on_files_def ss fs2_def [symmetric] write_record_def write_file_def is_dir_def)
  define order where "order = \<lparr>so_orders = [[0], [0]], so_cases = [(''n16'', 8)], so_gpu_warmup = None\<rparr>"
  define res where "res = session_result idle_session ss ?inputs order [[c]]"
  obtain fs' where f: "finish_session idle_session ss su generated
      \<lparr>gr_warmup = order_warmup idle_session ss ?inputs order, gr_after = JNull, gr_end = JNull\<rparr> res (fs1, q) = (Inr (), (fs', q))"
    "lookup fs' [''s''] = None" "lookup fs' [''s.partial''] = Some Dir" using fin by blast
  have o: "on_machine SessionSweep (order_and_warm_up idle_env idle_settings ?inputs (rs_binary su)) (fs, p) = (Inr order, (fs, p))"
    by (simp add: on_machine_def idle_order [OF k] order_def)
  have of: "so_orders order = [[0], [0]]" "zip [0..<length (so_cases order)] (so_cases order) = [(0, ''n16'', 8)]"
    "so_gpu_warmup order = None" by (simp_all add: order_def)
  have cuda: "\<not> has_cuda idle_settings" by (simp add: has_cuda_def idle_settings_def)
  have "timed_part idle_session ss su generated (fs, p) = (Inr res, (fs', q))"
    unfolding timed_part_def Let_def sn ss(1)
    by (simp add: st_bind_def o gpu_reading_def cuda of gr f(1) res_def [symmetric] st_return_def)
  then show ?thesis using f(2,3) by blast
qed

lemma idle_session_run:
  assumes ss: "ss_sweep ss = idle_settings" "ss_target ss = [''s.partial'']" "ss_input_seed ss = 7" "tensor_set ss = ''distinct''"
    "ss_model_limit ss = None"
  shows "\<exists>res fs p. session_run idle_session ss ([([''s.partial''], Dir)], 0) = (Inr res, (fs, p))
     \<and> lookup fs [''s''] = None \<and> lookup fs [''s.partial''] = Some Dir"
proof -
  obtain generated fs where g: "generate_family_inputs sample_ops ''dense'' [16] [''s.partial'', ''_temp'', ''inputs''] 7 ''distinct'' None idle_files
      = Inr (generated, fs)" "map fst generated = [''n16'']" and d: "lookup fs [''s.partial''] = Some Dir" "lookup fs [''s''] = None"
    and free: "\<forall>n \<in> {''run-plan.json'', ''msvc_vectorization_report.txt'', ''summary.csv'', ''manifest.json'',
           case_id COMPARATOR 8 ''n16'' @ ''.json''}. lookup fs [''s.partial'', n] = None"
    using idle_generate by metis
  define su where "su = \<lparr>rs_binary = ''b'', rs_build_stamp = JNull, rs_probe_stamp = None, rs_hardware = JNull, rs_toolkit = JNull,
    rs_build_flags = [], rs_device = None, rs_gpu_start = JNull, rs_temp = [''s.partial'', ''_temp'']\<rparr>"
  have s: "sw_family idle_settings = ''dense''" "sw_counts idle_settings = [16]" "\<not> has_cuda idle_settings" "\<not> has_avx2 idle_settings"
    "\<not> requires_publication_device_attributes idle_settings"
    by (simp_all add: idle_settings_def has_cuda_def has_avx2_def requires_publication_device_attributes_def path_simps)
  have e: "sn_inputs idle_session = sample_ops" "sn_find_binary idle_session = (\<lambda>cuda. st_return (''b'', JNull))"
    "sn_toolchain idle_session = st_return (JNull, JNull)" "sn_build idle_session = (\<lambda>stamp. st_return [])"
    "sn_report idle_session = (\<lambda>avx2. st_return [])"
    by (simp_all add: idle_session_def)
  have up: "set_up_run idle_session ss ([([''s.partial''], Dir)], 0) = (Inr su, (idle_files, 0))"
    by (simp add: set_up_run_def Let_def st_bind_def on_machine_def e s ss st_return_def gpu_reading_def on_file_def on_files_def
        mkdir_def path_exists_def is_dir_def lookup_def put_def su_def)
  have gen: "sweep_generate_inputs idle_session ss su (idle_files, 0) = (Inr generated, (fs, 0))"
    by (simp add: sweep_generate_inputs_def on_files_def e s ss su_def g)
  define fs1 where "fs1 = put [''s.partial'', ''run-plan.json''] (File (JsonDoc (JObj
     [(''total_cases'', JInt (int (plan_cases ss generated))), (''input_family'', JStr ''dense'')]))) fs"
  define fs2 where "fs2 = put [''s.partial'', ''msvc_vectorization_report.txt''] (File (Text [])) fs1"
  have plan: "on_file SessionFiles (write_run_plan [''s.partial''] (plan_cases ss generated) ''dense'') (fs, 0) = (Inr (), (fs1, 0))"
    using free d by (simp add: on_file_def on_files_def write_run_plan_def write_file_def is_dir_def fs1_def)
  have report: "write_vectorization_reports idle_session ss (fs1, 0) = (Inr (), (fs2, 0))"
    using free d by (simp add: write_vectorization_reports_def st_bind_def on_machine_def e ss s st_return_def on_file_def on_files_def
        write_file_def is_dir_def fs2_def fs1_def)
  have n: "case_id COMPARATOR 8 ''n16'' @ ''.json'' \<noteq> ''run-plan.json''"
    "case_id COMPARATOR 8 ''n16'' @ ''.json'' \<noteq> ''msvc_vectorization_report.txt''" by (simp_all add: case_id_def)
  have "\<exists>res fs' p'. timed_part idle_session ss su generated (fs2, 0) = (Inr res, (fs', p'))
     \<and> lookup fs' [''s''] = None \<and> lookup fs' [''s.partial''] = Some Dir"
    by (rule idle_timed [OF ss(1,2) _ g(2)]) (use d free n in \<open>auto simp: fs2_def fs1_def su_def\<close>)
  then show ?thesis by (simp add: session_run_def st_bind_def up gen plan report ss s)
qed

lemma idle_matrix_run: "\<exists>h'. run_benchmark_matrix idle_matrix idle_args \<lparr>hs_mask = 15, hs_world = ([], 0)\<rparr> = (Inr [''s''], h')"
proof -
  have v: "validate_matrix idle_args = Inr [COMPARATOR]"
  proof -
    have "trial_orders 1 2 = Inr [[0], [0]]"
      by (simp add: trial_orders_def trial_design_def MAX_PERMUTATION_PATHS_def Let_def upt_rec numeral_2_eq_2)
    moreover have "build_paths [''cpu''] [] [''pageable''] = Inr [COMPARATOR]" by code_simp
    ultimately show ?thesis
      by (simp add: validate_matrix_def idle_args_def K1_VARIANTS_def INPUT_FAMILIES_def check_model_options_def design_result_def)
  qed
  have mon: "parse_monitoring_config example_split FileAbsent [] False
      = Inr \<lparr>mc_server = DEFAULT_SERVER, mc_topic = None, mc_token = None, mc_heartbeat = 3600, mc_provider = None\<rparr>"
    by code_simp
  have m: "affinity_mask_excluding EXCLUDED_LOGICAL_CPUS 15 = Inr 12"
    by (simp add: affinity_mask_excluding_def clear_cpus_def EXCLUDED_LOGICAL_CPUS_def)
  define s where "s = \<lparr>final = [''s''], partial = [''s.partial''], committed = False\<rparr>"
  have cs: "check_snapshot [''s''] git dirty [] = Inr ()" if "\<not> git_dirty git" for git dirty
    using that by (simp add: check_snapshot_def path_exists_def lookup_def)
  have cr: "create_snapshot [''s''] git dirty [] = Inr (s, [([''s.partial''], Dir)])" if "\<not> git_dirty git" for git dirty
    using that by (simp add: create_snapshot_def check_snapshot_def path_exists_def lookup_def partial_path_def with_name_def Let_def
        lift_store_def mkdir_parents_def ancestors_def mkdir_def put_def s_def)
  have clean: "\<not> git_dirty (git_state_of [(''git_dirty'', JBool False)])"
    by (simp add: git_state_of_def get_field_def truthy_def)
  have pub: "\<exists>h'. publish_run idle_matrix ss s \<lparr>hs_mask = k, hs_world = ([([''s.partial''], Dir)], 0)\<rparr> = (Inr [''s''], h')"
    if ss: "ss_sweep ss = idle_settings" "ss_target ss = [''s.partial'']" "ss_input_seed ss = 7" "tensor_set ss = ''distinct''"
      "ss_model_limit ss = None" for ss k
  proof -
    obtain res fs p where r: "session_run idle_session ss ([([''s.partial''], Dir)], 0) = (Inr res, (fs, p))"
      "lookup fs [''s''] = None" "lookup fs [''s.partial''] = Some Dir" using idle_session_run [OF ss] by metis
    have "register idle_matrix d h = (Inr (), h)" for d h
      by (cases "hs_world h") (simp add: register_def idle_matrix_def on_world_def on_file_def on_files_def register_active_snapshot_def)
    moreover have "mx_session idle_matrix = idle_session" by (simp add: idle_matrix_def)
    moreover have "commit s fs = Inr (s\<lparr>committed := True\<rparr>, rename_tree [''s.partial''] [''s''] fs)"
      using r by (simp add: commit_def s_def path_exists_def)
    ultimately show ?thesis by (simp add: publish_run_def st_bind_def on_world_def r(1) on_files_def st_return_def) (simp add: s_def)
  qed
  have settings: "matrix_sweep idle_args [COMPARATOR] = idle_settings" by (simp add: idle_settings_def matrix_sweep_def idle_args_def)
  have ready: "\<exists>facts failures. readiness_of idle_matrix idle_args git h = (Inr (facts, failures), h)" for git h
  proof -
    have "check_readiness [(''stoquant_pids'', JList []), (''gpu_clock_event_reasons'', JNull)] = Inr [InvalidMemory, NoClockReasons]"
      by code_simp
    then show ?thesis by (simp add: readiness_of_def idle_args_def)
  qed
  have a: "ma_output idle_args = Some [''s'']" "matrix_tensors idle_args = None" "ma_input_seed idle_args = 7" "ma_model_limit idle_args = None"
    by (simp_all add: idle_args_def matrix_tensors_def)
  have body: "\<exists>h'. matrix_body idle_matrix idle_args None [COMPARATOR] aff \<lparr>hs_mask = 12, hs_world = ([], 0)\<rparr> = (Inr [''s''], h')" for aff
  proof -
    obtain facts failures where r: "readiness_of idle_matrix idle_args [(''git_dirty'', JBool False)] \<lparr>hs_mask = 12, hs_world = ([], 0)\<rparr>
        = (Inr (facts, failures), \<lparr>hs_mask = 12, hs_world = ([], 0)\<rparr>)" using ready by blast
    have git: "mx_git idle_matrix = st_return [(''git_dirty'', JBool False)]" by (simp add: idle_matrix_def)
    show ?thesis
      unfolding matrix_body_def git
      by (simp add: st_bind_def on_world_def on_machine_def st_return_def target_directory_def a(1) on_files_def cs [OF clean] r
          cr [OF clean] Let_def)
         (rule pub, simp_all add: matrix_session_def settings a tensor_set_def s_def)
  qed
  have e: "mx_urlsplit idle_matrix = example_split" "mx_env_file idle_matrix = FileAbsent" "mx_environ idle_matrix = []"
    by (simp_all add: idle_matrix_def)
  obtain h' where "matrix_body idle_matrix idle_args None [COMPARATOR]
      \<lparr>excluded_cpus = EXCLUDED_LOGICAL_CPUS, aff_mask = 12, previous_mask = 15\<rparr> \<lparr>hs_mask = 12, hs_world = ([], 0)\<rparr> = (Inr [''s''], h')"
    using body by blast
  then show ?thesis
    by (simp add: run_benchmark_matrix_def st_bind_def st_lift_def e mon v manifest_metadata_def benchmark_process_affinity_def
        m process_affinity_def)
qed

lemma matrix_publishes_evidence_witness:
  "\<exists>h' manifest records. run_benchmark_matrix idle_matrix idle_args \<lparr>hs_mask = 15, hs_world = ([], 0)\<rparr> = (Inr [''s''], h')
     \<and> read_snapshot [''s''] (files_of h') = Inr (manifest, records) \<and> hs_mask h' = 15
     \<and> get_field (object_field manifest ''run_conditions'') ''evidence'' \<noteq> JBool True"
proof -
  obtain h' where r: "run_benchmark_matrix idle_matrix idle_args \<lparr>hs_mask = 15, hs_world = ([], 0)\<rparr> = (Inr [''s''], h')"
    using idle_matrix_run by blast
  have p: "mset (se_permute (sn_sweep (mx_session idle_matrix)) s n) = mset [0..<n]" for s n
    by (simp add: idle_matrix_def idle_session_def idle_env_def)
  have "ma_pilot idle_args" "distinct (ma_bits idle_args)" by (simp_all add: idle_args_def)
  moreover have "reg \<noteq> [] \<and> \<not> under [''s''] (butlast reg)" if "mx_registration idle_matrix = Some reg" for reg
    using that by (simp add: idle_matrix_def)
  ultimately show ?thesis using matrix_publishes_evidence [OF r _ _ p] r by (fastforce simp: files_of_def)
qed

end
