(* ===== verification/Native_Build.thy ===== *)
theory Native_Build
  imports Host Schema
begin

text \<open>
  The compiler commands of \<open>src/stoquant/native_build.py\<close>: the plan of every build recipe from the
  source and flag lists of the justfile, and its rendering as command lines. The evaluation of a
  justfile variable is a process, an argument; \<open>shlex.join\<close> and \<open>subprocess.list2cmdline\<close> are
  modelled. The lemmas say what a plan contains and that rendering keeps plain words.
\<close>

definition SOURCE_LIST_VARIABLES :: "string list" where
  "SOURCE_LIST_VARIABLES =
     [''native_host_sources'', ''native_avx2_sources'', ''native_cuda_sources'', ''native_rng_sources'',
      ''native_probe_sources'', ''test_cuda_api_sources'', ''test_codec_sources'', ''test_quantizer_sources'',
      ''test_avx2_sources'', ''test_avx2_driver_sources'', ''test_rng_cpu_sources'', ''test_asan_probe_sources'']"

definition TEST_TARGETS :: "(string \<times> string \<times> string) list" where
  "TEST_TARGETS =
     [(''build-codec-test'', ''test_codec_sources'', ''build/test_codec''),
      (''build-quantizer-test'', ''test_quantizer_sources'', ''build/test_quantizer''),
      (''build-avx2-test'', ''test_avx2_sources'', ''build/test_quantizer_avx2''),
      (''build-rng-cpu-test'', ''test_rng_cpu_sources'', ''build/test_rng_cpu'')]"

definition BUILD_RECIPES :: "string list" where
  "BUILD_RECIPES =
     [''build-cpu'', ''build-cuda'', ''build-cuda-fault'', ''build-cuda-api-test'', ''build-stream-probe'', ''build-rng'']
     @ map fst TEST_TARGETS @ [''test-cpu-gcc-ubsan'']"

text \<open>
  The platform: \<open>os.name == "nt"\<close>, the \<open>CC\<close> variable and \<open>just --evaluate\<close> in the root directory.
\<close>

record build_env =
  be_nt :: bool
  be_cc :: "string option"
  be_just :: "string \<Rightarrow> finished"
  be_root :: path

subsection \<open>Variables and names\<close>

definition just_var :: "build_env \<Rightarrow> string \<Rightarrow> (py_exn, string list) result" where
  "just_var env name =
     (if fin_code (be_just env name) \<noteq> 0
      then Inl (RuntimeError (''cannot evaluate justfile variable '' @ name @ '': '' @ strip (fin_err (be_just env name))))
      else Inr (split_words [] (fin_out (be_just env name))))"

definition source_lists :: "build_env \<Rightarrow> (py_exn, (string \<times> string list) list) result" where
  "source_lists env = traverse (\<lambda>name. bindE (just_var env name) (\<lambda>ws. Inr (name, ws))) SOURCE_LIST_VARIABLES"

definition sources_of :: "(string \<times> string list) list \<Rightarrow> string \<Rightarrow> string list" where
  "sources_of table name = (case map_of table name of None \<Rightarrow> [] | Some ws \<Rightarrow> ws)"

text \<open>\<open>Path(source).stem\<close>: the name up to its last dot, when that is neither first nor last.\<close>

definition path_stem :: "string \<Rightarrow> string" where
  "path_stem s =
     (let name = path_name s; ext = takeWhile (\<lambda>c. c \<noteq> CHR ''.'') (rev name) in
      if ext \<noteq> [] \<and> Suc (length ext) < length name
      then take (length name - Suc (length ext)) name else name)"

definition object_path :: "string \<Rightarrow> string \<Rightarrow> string \<Rightarrow> string" where
  "object_path grp source extension = ''build/'' @ grp @ ''/'' @ path_stem source @ ''.'' @ extension"

text \<open>\<open>root / relative\<close> and the text of a path on the platform.\<close>

definition joined_path :: "build_env \<Rightarrow> string \<Rightarrow> path" where
  "joined_path env relative = be_root env @ filter (\<lambda>part. part \<noteq> [] \<and> part \<noteq> ''.'') (split_slash [] relative)"

definition native_text :: "build_env \<Rightarrow> path \<Rightarrow> string" where
  "native_text env p = join (if be_nt env then [CHR 0x5C] else ''/'') p"

definition compiler_of :: "build_env \<Rightarrow> bool \<Rightarrow> string" where
  "compiler_of env force_gcc =
     (if force_gcc then ''gcc'' else if be_nt env then ''cl.exe'' else case be_cc env of None \<Rightarrow> ''cc'' | Some cc \<Rightarrow> cc)"

type_synonym command = "string list"

definition object_extension :: "bool \<Rightarrow> string" where
  "object_extension msvc = (if msvc then ''obj'' else ''o'')"

definition compile_command :: "string \<Rightarrow> bool \<Rightarrow> string \<Rightarrow> string list \<Rightarrow> string list \<Rightarrow> string list \<Rightarrow> string \<Rightarrow> command" where
  "compile_command grp msvc compiler flags includes defines source =
     (let out = object_path grp source (object_extension msvc) in
      if msvc then [compiler] @ flags @ defines @ includes @ [''/c'', source, ''/Fo:'' @ out]
      else [compiler] @ flags @ defines @ includes @ [''-c'', source, ''-o'', out])"

definition compile_objects ::
  "string \<Rightarrow> bool \<Rightarrow> string \<Rightarrow> string list \<Rightarrow> string list \<Rightarrow> string list \<Rightarrow> string list \<Rightarrow> command list \<times> string list" where
  "compile_objects grp msvc compiler flags includes defines sources =
     (map (compile_command grp msvc compiler flags includes defines) sources,
      map (\<lambda>source. object_path grp source (object_extension msvc)) sources)"

subsection \<open>Plans\<close>

type_synonym plan = "command list \<times> string"

definition cpu_plan :: "build_env \<Rightarrow> bool \<Rightarrow> string list \<Rightarrow> string option \<Rightarrow> (py_exn, plan) result" where
  "cpu_plan env force_gcc sanitizer binary =
     bindE (source_lists env) (\<lambda>lists.
     let msvc = (be_nt env \<and> \<not> force_gcc); compiler = compiler_of env force_gcc in
     bindE (just_var env (if msvc then ''cl_host_flags'' else ''cc_host_flags'')) (\<lambda>host_flags.
     bindE (just_var env (if msvc then ''cl_includes'' else ''cc_includes'')) (\<lambda>includes.
     bindE (just_var env (if msvc then ''avx2_cl_flags'' else ''avx2_cc_flags'')) (\<lambda>avx_flags.
     let (commands, host_objects) = compile_objects ''cpu'' msvc compiler (host_flags @ sanitizer) includes []
           (sources_of lists ''native_host_sources'');
         (avx_commands, avx_objects) = compile_objects ''cpu'' msvc compiler (avx_flags @ sanitizer) [] []
           (sources_of lists ''native_avx2_sources'');
         out = (case binary of Some b \<Rightarrow> b | None \<Rightarrow> if msvc then ''build/stoquant.exe'' else ''build/stoquant'')
     in Inr (commands @ avx_commands
       @ [if msvc then [compiler, ''/nologo''] @ host_objects @ avx_objects @ [''/Fe:'' @ out]
          else [compiler] @ sanitizer @ [''-fopenmp''] @ host_objects @ avx_objects @ [''-lm'', ''-o'', out]], out)))))"

definition cuda_link :: "build_env \<Rightarrow> string list \<Rightarrow> string list \<Rightarrow> string \<Rightarrow> command" where
  "cuda_link env nvcc_flags inputs out =
     (if be_nt env then [''nvcc''] @ nvcc_flags @ inputs @ [''-o'', out]
      else [''nvcc''] @ nvcc_flags @ inputs @ [''-lm'', ''-Xcompiler'', ''-fopenmp'', ''-o'', out])"

definition cuda_plan :: "build_env \<Rightarrow> (py_exn, plan) result" where
  "cuda_plan env =
     bindE (source_lists env) (\<lambda>lists.
     let compiler = compiler_of env False; nt = be_nt env;
         define = [if nt then ''/DSQ_ENABLE_CUDA'' else ''-DSQ_ENABLE_CUDA''] in
     bindE (just_var env (if nt then ''cl_host_flags'' else ''cc_host_flags'')) (\<lambda>host_flags.
     bindE (just_var env (if nt then ''cl_includes'' else ''cc_includes'')) (\<lambda>host_includes.
     bindE (just_var env (if nt then ''avx2_cl_flags'' else ''avx2_cc_flags'')) (\<lambda>avx_flags.
     let (host_commands, host_objects) = compile_objects ''cuda'' nt compiler host_flags host_includes define
           (sources_of lists ''native_host_sources'');
         (avx_commands, avx_objects) = compile_objects ''cuda'' nt compiler avx_flags [] []
           (sources_of lists ''native_avx2_sources'') in
     bindE (just_var env ''nvcc_flags'') (\<lambda>nvcc_flags.
     bindE (just_var env ''nvcc_warn_flags'') (\<lambda>warn_flags.
     bindE (just_var env ''nvcc_fp_flags'') (\<lambda>fp_flags.
     let cuda_objects = map (\<lambda>source. object_path ''cuda'' source (object_extension nt)) (sources_of lists ''native_cuda_sources'');
         cuda_commands = map (\<lambda>source. [''nvcc''] @ nvcc_flags @ fp_flags @ warn_flags
             @ [''-c'', source, ''-o'', object_path ''cuda'' source (object_extension nt)]) (sources_of lists ''native_cuda_sources'');
         out = (if nt then ''build/stoquant.exe'' else ''build/stoquant'')
     in Inr (host_commands @ avx_commands @ cuda_commands
          @ [cuda_link env nvcc_flags (host_objects @ avx_objects @ cuda_objects) out], out))))))))"

definition fault_command :: "build_env \<Rightarrow> string list \<Rightarrow> string list \<Rightarrow> string list \<Rightarrow> string \<Rightarrow> command" where
  "fault_command env nvcc_flags fp_flags warn_flags source =
     [''nvcc''] @ nvcc_flags @ fp_flags @ warn_flags
     @ [''-DSQ_CUDA_FAULT_INJECTION'', ''-DSQ_CUDA_BUFFER_INSPECTION'', ''-c'', source, ''-o'',
        object_path ''cuda'' (path_stem source @ ''_fault.cu'') (object_extension (be_nt env))]"

definition cuda_fault_plan :: "build_env \<Rightarrow> (py_exn, plan) result" where
  "cuda_fault_plan env =
     bindE (source_lists env) (\<lambda>lists.
     bindE (just_var env ''nvcc_flags'') (\<lambda>nvcc_flags.
     bindE (just_var env ''nvcc_fp_flags'') (\<lambda>fp_flags.
     bindE (just_var env ''nvcc_warn_flags'') (\<lambda>warn_flags.
     let extension = object_extension (be_nt env);
         cuda = sources_of lists ''native_cuda_sources'';
         commands = map (fault_command env nvcc_flags fp_flags warn_flags) cuda;
         cuda_objects = map (\<lambda>source. object_path ''cuda'' (path_stem source @ ''_fault.cu'') extension) cuda;
         host_objects = map (\<lambda>source. object_path ''cuda'' source extension) (sources_of lists ''native_host_sources'');
         avx_objects = map (\<lambda>source. object_path ''cuda'' source extension) (sources_of lists ''native_avx2_sources'');
         out = (if be_nt env then ''build/stoquant_fault.exe'' else ''build/stoquant_fault'')
     in Inr (commands @ [cuda_link env nvcc_flags (host_objects @ avx_objects @ cuda_objects) out], out)))))"

definition cuda_api_test_plan :: "build_env \<Rightarrow> (py_exn, plan) result" where
  "cuda_api_test_plan env =
     bindE (source_lists env) (\<lambda>lists.
     bindE (just_var env ''nvcc_flags'') (\<lambda>nvcc_flags.
     bindE (just_var env ''nvcc_fp_flags'') (\<lambda>fp_flags.
     bindE (just_var env ''nvcc_warn_flags'') (\<lambda>warn_flags.
       if sources_of lists ''test_cuda_api_sources'' = [] then Inl (RuntimeError ''test_cuda_api_sources is empty'')
       else let out = (if be_nt env then ''build/test_cuda_api.exe'' else ''build/test_cuda_api'') in
         Inr ([[''nvcc''] @ nvcc_flags @ fp_flags @ warn_flags @ sources_of lists ''test_cuda_api_sources''
               @ sources_of lists ''native_cuda_sources'' @ [''-o'', out]], out)))))"

definition nvcc_single_plan :: "build_env \<Rightarrow> string \<Rightarrow> string \<Rightarrow> string \<Rightarrow> (py_exn, plan) result" where
  "nvcc_single_plan env variable message out =
     bindE (source_lists env) (\<lambda>lists.
       if sources_of lists variable = [] then Inl (RuntimeError message)
       else
         bindE (just_var env ''nvcc_flags'') (\<lambda>nvcc_flags.
         bindE (just_var env ''nvcc_warn_flags'') (\<lambda>warnings.
           Inr ([[''nvcc''] @ nvcc_flags @ warnings @ sources_of lists variable @ [''-o'', out]], out))))"

definition probe_plan :: "build_env \<Rightarrow> (py_exn, plan) result" where
  "probe_plan env =
     nvcc_single_plan env ''native_probe_sources'' ''native_probe_sources is empty''
       (if be_nt env then ''build/stream_probe.exe'' else ''build/stream_probe'')"

definition rng_plan :: "build_env \<Rightarrow> (py_exn, plan) result" where
  "rng_plan env =
     nvcc_single_plan env ''native_rng_sources'' ''rng_sources is empty''
       (if be_nt env then ''build/test_rng.exe'' else ''build/test_rng'')"


text \<open>The flags of one source of the AVX2 test, whose objects come from three groups.\<close>

definition avx2_test_flags :: "build_env \<Rightarrow> bool \<Rightarrow> string \<Rightarrow> (py_exn, string list) result" where
  "avx2_test_flags env msvc source =
     bindE (source_lists env) (\<lambda>lists.
     let includes = just_var env (if msvc then ''cl_includes'' else ''cc_includes'') in
     if source \<in> set (sources_of lists ''native_avx2_sources'') then just_var env (if msvc then ''avx2_cl_flags'' else ''avx2_cc_flags'')
     else if source \<in> set (sources_of lists ''test_avx2_driver_sources'') then
       bindE (just_var env (if msvc then ''cl_test_flags'' else ''cc_strict_flags'')) (\<lambda>flags.
       bindE includes (\<lambda>incs. Inr (flags @ incs)))
     else
       bindE (just_var env (if msvc then ''cl_host_flags'' else ''cc_host_flags'')) (\<lambda>flags.
       bindE includes (\<lambda>incs. Inr (if msvc then flags @ incs else flags @ incs @ [''-fopenmp'']))))"

definition avx2_test_compile :: "build_env \<Rightarrow> bool \<Rightarrow> string \<Rightarrow> string list \<Rightarrow> string \<Rightarrow> (py_exn, command \<times> string) result" where
  "avx2_test_compile env msvc compiler extra_flags source =
     bindE (avx2_test_flags env msvc source) (\<lambda>flags.
     let out = object_path ''test-avx2'' source (object_extension msvc) in
     Inr (if msvc then ([''cl.exe''] @ flags @ extra_flags @ [''/c'', source, ''/Fo:'' @ out], out)
          else ([compiler] @ flags @ extra_flags @ [''-c'', source, ''-o'', out], out)))"

definition test_plan :: "build_env \<Rightarrow> string \<Rightarrow> string list \<Rightarrow> string option \<Rightarrow> bool \<Rightarrow> (py_exn, plan) result" where
  "test_plan env recipe extra_flags output_override force_gcc =
     (case find (\<lambda>row. fst row = recipe) TEST_TARGETS of
        None \<Rightarrow> Inl (RuntimeError (''unsupported native build recipe: '' @ recipe))
      | Some (_, source_variable, target) \<Rightarrow>
          let binary = (case output_override of Some (c # cs) \<Rightarrow> c # cs | _ \<Rightarrow> target) in
          bindE (just_var env source_variable) (\<lambda>sources.
          let msvc = (be_nt env \<and> \<not> force_gcc); compiler = compiler_of env force_gcc;
              out = (if msvc then binary @ ''.exe'' else binary) in
          if recipe \<noteq> ''build-avx2-test'' then
            bindE (just_var env (if msvc then ''cl_test_flags'' else ''cc_strict_flags'')) (\<lambda>flags.
            bindE (just_var env (if msvc then ''cl_includes'' else ''cc_includes'')) (\<lambda>includes.
              Inr ([if msvc then [''cl.exe''] @ flags @ includes @ extra_flags @ sources @ [''/Fe:'' @ out]
                    else [compiler] @ flags @ includes @ extra_flags @ sources @ [''-lm'', ''-o'', out]], out)))
          else
            bindE (traverse (avx2_test_compile env msvc compiler extra_flags) sources) (\<lambda>compiled.
              Inr (map fst compiled
                @ [if msvc then [''cl.exe'', ''/nologo''] @ extra_flags @ map snd compiled @ [''/Fe:'' @ out]
                   else [compiler] @ extra_flags @ [''-fopenmp''] @ map snd compiled @ [''-lm'', ''-o'', out]], out))))"

definition UBSAN_FLAGS :: "string list" where
  "UBSAN_FLAGS = [''-fsanitize=undefined'', ''-fno-sanitize-recover=all'']"

definition ubsan_plan :: "build_env \<Rightarrow> (py_exn, command list \<times> string list) result" where
  "ubsan_plan env =
     bindE (cpu_plan env True UBSAN_FLAGS (Some ''build/stoquant_gcc_ubsan'')) (\<lambda>(cpu, _).
     bindE (traverse (\<lambda>(recipe, _, out). test_plan env recipe UBSAN_FLAGS (Some (out @ ''_ubsan'')) True) TEST_TARGETS) (\<lambda>plans.
       Inr (cpu @ concat (map fst plans), map (\<lambda>(recipe, _, out). out @ ''_ubsan'') TEST_TARGETS)))"

definition command_plan :: "build_env \<Rightarrow> string \<Rightarrow> (py_exn, plan) result" where
  "command_plan env recipe =
     (if recipe = ''build-cpu'' then cpu_plan env False [] None
      else if recipe = ''build-cuda'' then cuda_plan env
      else if recipe = ''build-cuda-fault'' then
        bindE (cuda_plan env) (\<lambda>(normal_commands, _).
        bindE (cuda_fault_plan env) (\<lambda>(fault_commands, out). Inr (normal_commands @ fault_commands, out)))
      else if recipe = ''build-cuda-api-test'' then cuda_api_test_plan env
      else if recipe = ''build-stream-probe'' then probe_plan env
      else if recipe = ''build-rng'' then rng_plan env
      else if recipe = ''test-cpu-gcc-ubsan'' then bindE (ubsan_plan env) (\<lambda>(commands, _). Inr (commands, []))
      else test_plan env recipe [] None False)"

subsection \<open>Command lines\<close>

text \<open>\<open>shlex.quote\<close>: a word of safe characters stands for itself, others go between single quotes.\<close>

definition shell_safe :: "char \<Rightarrow> bool" where
  "shell_safe c \<longleftrightarrow> c \<in> set ''abcdefghijklmnopqrstuvwxyzABCDEFGHIJKLMNOPQRSTUVWXYZ0123456789@%_-+=:,./''"

definition shell_quote :: "string \<Rightarrow> string" where
  "shell_quote s =
     (if s = [] then [CHR 0x27, CHR 0x27]
      else if list_all shell_safe s then s
      else [CHR 0x27] @ concat (map (\<lambda>c. if c = CHR 0x27 then [CHR 0x27, CHR 0x22, CHR 0x27, CHR 0x22, CHR 0x27] else [c]) s) @ [CHR 0x27])"

text \<open>\<open>list2cmdline\<close>: \<open>n\<close> backslashes wait for the next character; they double before a quote.\<close>

fun escape_argument :: "bool \<Rightarrow> nat \<Rightarrow> string \<Rightarrow> string" where
  "escape_argument quoted n [] = replicate n (CHR 0x5C) @ (if quoted then replicate n (CHR 0x5C) @ [CHR 0x22] else [])"
| "escape_argument quoted n (c # cs) =
     (if c = CHR 0x5C then escape_argument quoted (Suc n) cs
      else if c = CHR 0x22 then replicate (2 * n) (CHR 0x5C) @ [CHR 0x5C, CHR 0x22] @ escape_argument quoted 0 cs
      else replicate n (CHR 0x5C) @ [c] @ escape_argument quoted 0 cs)"

definition cmdline_argument :: "string \<Rightarrow> string" where
  "cmdline_argument s =
     (let quoted = (CHR '' '' \<in> set s \<or> CHR 0x09 \<in> set s \<or> s = []) in
      (if quoted then [CHR 0x22] else []) @ escape_argument quoted 0 s)"

definition render_command :: "build_env \<Rightarrow> command \<Rightarrow> string" where
  "render_command env words = join '' '' (map (if be_nt env then cmdline_argument else shell_quote) words)"

definition recipe_commands :: "build_env \<Rightarrow> string \<Rightarrow> (py_exn, string list) result" where
  "recipe_commands env recipe = bindE (command_plan env recipe) (\<lambda>(commands, _). Inr (map (render_command env) commands))"


subsection \<open>Plain words\<close>

text \<open>Words of safe characters, as \<open>just\<close> evaluates them, are rendered as they are on both platforms.\<close>

definition plain_word :: "string \<Rightarrow> bool" where
  "plain_word w \<longleftrightarrow> w \<noteq> [] \<and> list_all shell_safe w"

lemma safe_chars:
  "shell_safe c \<Longrightarrow> \<not> is_space c" "shell_safe c \<Longrightarrow> c \<noteq> CHR 0x5C \<and> c \<noteq> CHR 0x22 \<and> c \<noteq> CHR '' '' \<and> c \<noteq> CHR 0x09"
proof -
  have "list_all (\<lambda>c. \<not> is_space c \<and> c \<noteq> CHR 0x5C \<and> c \<noteq> CHR 0x22 \<and> c \<noteq> CHR '' '' \<and> c \<noteq> CHR 0x09)
      ''abcdefghijklmnopqrstuvwxyzABCDEFGHIJKLMNOPQRSTUVWXYZ0123456789@%_-+=:,./''" by code_simp
  then show "shell_safe c \<Longrightarrow> \<not> is_space c" "shell_safe c \<Longrightarrow> c \<noteq> CHR 0x5C \<and> c \<noteq> CHR 0x22 \<and> c \<noteq> CHR '' '' \<and> c \<noteq> CHR 0x09"
    unfolding shell_safe_def list_all_iff by blast+
qed

lemma escape_plain: "list_all shell_safe w \<Longrightarrow> escape_argument False 0 w = w"
  by (induction w) (auto dest: safe_chars)

lemma render_plain: "plain_word w \<Longrightarrow> (if be_nt env then cmdline_argument else shell_quote) w = w"
proof -
  assume w: "plain_word w"
  have "CHR '' '' \<notin> set w" "CHR 0x09 \<notin> set w"
    using w safe_chars by (fastforce simp: plain_word_def list_all_iff)+
  then show ?thesis using w by (simp add: plain_word_def cmdline_argument_def shell_quote_def escape_plain)
qed

lemma render_plain_command: "list_all plain_word ws \<Longrightarrow> render_command env ws = join '' '' ws"
proof -
  assume "list_all plain_word ws"
  then have "map (if be_nt env then cmdline_argument else shell_quote) ws = ws"
    by (intro map_idI render_plain) (simp add: list_all_iff)
  then show ?thesis by (simp add: render_command_def)
qed

lemma split_words_word:
  "list_all (\<lambda>c. \<not> is_space c) w \<Longrightarrow> split_words acc (w @ s) = split_words (rev w @ acc) s"
  by (induction w arbitrary: acc) auto

lemma plain_no_space: "plain_word w \<Longrightarrow> list_all (\<lambda>c. \<not> is_space c) w"
  by (auto simp: plain_word_def list_all_iff dest: safe_chars)

lemma split_join_words: "list_all plain_word ws \<Longrightarrow> split_words [] (join '' '' ws) = ws"
proof (induction ws rule: induct_list012)
  case 1
  show ?case by simp
next
  case (2 w)
  then have "list_all (\<lambda>c. \<not> is_space c) w" "w \<noteq> []" using plain_no_space by (simp_all add: plain_word_def)
  then show ?case using split_words_word [of w "[]" "[]"] by simp
next
  case (3 w v ws)
  have w: "list_all (\<lambda>c. \<not> is_space c) w" "w \<noteq> []" using 3 plain_no_space by (simp_all add: plain_word_def)
  have rest: "split_words [] (join '' '' (v # ws)) = v # ws" using 3 by simp
  have "split_words [] (join '' '' (w # v # ws)) = split_words (rev w) (CHR '' '' # join '' '' (v # ws))"
    using split_words_word [OF w(1), of "[]"] by simp
  also have "\<dots> = w # split_words [] (join '' '' (v # ws))"
    using w(2) by (simp add: is_space_def del: join.simps)
  finally show ?case using rest by simp
qed

text \<open>A rendered command contains each of its plain words.\<close>

lemma join_parts: "w \<in> set ws \<Longrightarrow> \<exists>a b. join sep ws = a @ w @ b"
proof (induction sep ws rule: join.induct)
  case (2 sep x)
  then have "join sep [x] = [] @ w @ []" by simp
  then show ?case by blast
next
  case (3 sep x y ys)
  then show ?case
  proof (cases "w = x")
    case True
    then have "join sep (x # y # ys) = [] @ w @ (sep @ join sep (y # ys))" by simp
    then show ?thesis by blast
  next
    case False
    then obtain a b where "join sep (y # ys) = a @ w @ b" using 3 by auto
    then have "join sep (x # y # ys) = (x @ sep @ a) @ w @ b" by simp
    then show ?thesis by blast
  qed
qed simp

lemma render_contains:
  assumes "w \<in> set ws" "plain_word w"
  shows "\<exists>a b. render_command env ws = a @ w @ b"
proof -
  have "w \<in> set (map (if be_nt env then cmdline_argument else shell_quote) ws)"
    using assms render_plain [of w env] by (metis image_eqI list.set_map)
  then show ?thesis unfolding render_command_def by (rule join_parts)
qed

text \<open>Every compile of the fault plan carries the fault-injection define.\<close>

lemma fault_plan_defines:
  assumes "recipe_commands env ''build-cuda-fault'' = Inr commands" "source_lists env = Inr table"
    and "sources_of table ''native_cuda_sources'' \<noteq> []"
  shows "\<exists>c \<in> set commands. \<exists>a b. c = a @ ''-DSQ_CUDA_FAULT_INJECTION'' @ b"
proof -
  obtain source where s: "source \<in> set (sources_of table ''native_cuda_sources'')" using assms(3) by (meson last_in_set)
  obtain normal fault out where n: "cuda_plan env = Inr normal" and f: "cuda_fault_plan env = Inr (fault, out)"
    and c: "commands = map (render_command env) (fst normal @ fault)"
    using assms(1) by (auto simp: recipe_commands_def command_plan_def result_simps)
  obtain fl fp wa rest where "fault = map (fault_command env fl fp wa) (sources_of table ''native_cuda_sources'') @ rest"
    using f assms(2) by (auto simp: cuda_fault_plan_def result_simps Let_def)
  then have "fault_command env fl fp wa source \<in> set fault" using s by simp
  moreover have "''-DSQ_CUDA_FAULT_INJECTION'' \<in> set (fault_command env fl fp wa source)" by (simp add: fault_command_def)
  moreover have "plain_word ''-DSQ_CUDA_FAULT_INJECTION''" by (simp add: plain_word_def shell_safe_def)
  ultimately obtain a b where "render_command env (fault_command env fl fp wa source) = a @ ''-DSQ_CUDA_FAULT_INJECTION'' @ b"
    using render_contains by metis
  moreover have "render_command env (fault_command env fl fp wa source) \<in> set commands"
    using \<open>fault_command env fl fp wa source \<in> set fault\<close> by (simp add: c)
  ultimately show ?thesis by blast
qed

end
