(* ===== verification/Build_Stamp.thy ===== *)
theory Build_Stamp
  imports Native_Build Session
begin

text \<open>
  Build stamps (\<open>src/stoquant/build_stamp.py\<close>): the record written beside a binary, and the checks
  a benchmark makes of it before it runs the binary. Git and SHA-256 are arguments; hashing a file
  chunk by chunk is hashing its bytes. The lemmas show what an accepted stamp guarantees.
\<close>

definition STAMP_VERSION :: int where "STAMP_VERSION = 1"
definition TEST_ONLY_DEFINES :: "string list" where
  "TEST_ONLY_DEFINES = [''SQ_CUDA_FAULT_INJECTION'', ''SQ_CUDA_BUFFER_INSPECTION'']"

text \<open>
  \<open>bo_git\<close> is the output of a git command in the root, or its exception; \<open>bo_sha256\<close> a digest, and
  \<open>bo_encode\<close> the bytes of a file held as text or JSON.
\<close>

record stamp_ops =
  bo_git :: "string list \<Rightarrow> fs \<Rightarrow> (py_exn, byte list) result"
  bo_sha256 :: "byte list \<Rightarrow> byte list"
  bo_encode :: "content \<Rightarrow> byte list"

definition file_bytes :: "stamp_ops \<Rightarrow> fs \<Rightarrow> path \<Rightarrow> (py_exn, byte list) result" where
  "file_bytes ops fs p =
     (case read_file fs p of
        None \<Rightarrow> Inl (FileNotFoundError (path_text p))
      | Some (Bytes b) \<Rightarrow> Inr b
      | Some c \<Rightarrow> Inr (bo_encode ops c))"

definition is_file :: "fs \<Rightarrow> path \<Rightarrow> bool" where
  "is_file fs p = (read_file fs p \<noteq> None)"

subsection \<open>Digests\<close>

definition hex_char :: "nat \<Rightarrow> char" where
  "hex_char n = (if n < 10 then char_of (48 + n) else char_of (87 + n))"

definition hex_digest :: "byte list \<Rightarrow> string" where
  "hex_digest bs = concat (map (\<lambda>b. [hex_char (unat b div 16), hex_char (unat b mod 16)]) bs)"

definition chars_of :: "byte list \<Rightarrow> string" where
  "chars_of bs = map (\<lambda>b. char_of (unat b)) bs"

definition file_sha256 :: "stamp_ops \<Rightarrow> fs \<Rightarrow> path \<Rightarrow> (py_exn, string) result" where
  "file_sha256 ops fs p = bindE (file_bytes ops fs p) (\<lambda>b. Inr (hex_digest (bo_sha256 ops b)))"

text \<open>\<open>output.split(b"\\0")\<close>.\<close>

fun split_nul :: "byte list \<Rightarrow> byte list \<Rightarrow> byte list list" where
  "split_nul acc [] = [acc]"
| "split_nul acc (b # bs) = (if b = 0 then acc # split_nul [] bs else split_nul (acc @ [b]) bs)"

definition tree_fingerprint :: "stamp_ops \<Rightarrow> build_env \<Rightarrow> fs \<Rightarrow> (py_exn, string) result" where
  "tree_fingerprint ops env fs =
     bindE (bo_git ops [''diff'', ''--binary'', ''HEAD''] fs) (\<lambda>diff.
     bindE (bo_git ops [''ls-files'', ''--others'', ''--exclude-standard'', ''-z''] fs) (\<lambda>others.
     bindE (traverse (\<lambda>relative.
         bindE (file_bytes ops fs (joined_path env (chars_of relative))) (\<lambda>b. Inr (relative @ bo_sha256 ops b)))
         (filter (\<lambda>relative. relative \<noteq> []) (split_nul [] others))) (\<lambda>parts.
       Inr (hex_digest (bo_sha256 ops (diff @ concat parts))))))"

subsection \<open>Writing\<close>

definition stamp_path :: "path \<Rightarrow> path" where
  "stamp_path binary = with_name binary (last binary @ ''.build-stamp.json'')"

definition ascii_lower :: "string \<Rightarrow> string" where
  "ascii_lower s = map (\<lambda>c. let n = of_char c in if 65 \<le> n \<and> n \<le> (90 :: nat) then char_of (n + 32) else c) s"

text \<open>\<open>part in s\<close> for texts.\<close>

fun contains :: "string \<Rightarrow> string \<Rightarrow> bool" where
  "contains part [] = (part = [])"
| "contains part (c # cs) = (starts_with part (c # cs) \<or> contains part cs)"

definition compiler_commands :: "string list \<Rightarrow> string list" where
  "compiler_commands commands =
     filter (\<lambda>line. list_ex (\<lambda>tool. contains tool (ascii_lower line)) [''cl.exe '', ''nvcc '', ''gcc '', ''clang '', ''cc '']) commands"

type_synonym stamp = "(string \<times> json) list"

definition stamp_document ::
  "string \<Rightarrow> bool \<Rightarrow> string \<Rightarrow> string \<Rightarrow> string list \<Rightarrow> string \<Rightarrow> stamp" where
  "stamp_document revision dirty fingerprint recipe commands digest =
     [(''version'', JInt STAMP_VERSION), (''revision'', JStr revision), (''tree_dirty'', JBool dirty),
      (''tree_fingerprint'', JStr fingerprint), (''recipe'', JStr recipe), (''commands'', JList (map JStr commands)),
      (''compiler_flags'', JList (map JStr (compiler_commands commands))), (''binary_sha256'', JStr digest)]"

definition write_stamp :: "stamp_ops \<Rightarrow> build_env \<Rightarrow> path \<Rightarrow> string \<Rightarrow> fs \<Rightarrow> (py_exn, stamp \<times> fs) result" where
  "write_stamp ops env binary recipe fs =
     (if \<not> is_file fs binary then Inl (FileNotFoundError (path_text binary))
      else
        bindE (recipe_commands env recipe) (\<lambda>commands.
        bindE (bo_git ops [''status'', ''--porcelain'', ''--untracked-files=all''] fs) (\<lambda>status.
        bindE (bo_git ops [''rev-parse'', ''HEAD''] fs) (\<lambda>revision.
        bindE (tree_fingerprint ops env fs) (\<lambda>fingerprint.
        bindE (file_sha256 ops fs binary) (\<lambda>digest.
        let stamp = stamp_document (strip (chars_of revision)) (strip (chars_of status) \<noteq> []) fingerprint recipe commands digest in
        bindE (write_file (stamp_path binary) (JsonDoc (JObj stamp)) fs) (\<lambda>fs. Inr (stamp, fs))))))))"

subsection \<open>Verification\<close>

datatype stamp_error =
    StampMissing path
  | StampInvalid path
  | StampUnsupported path
  | HashMismatch path
  | RevisionStale path
  | TreeStale path
  | RecipeUnsupported path
  | CommandsInvalid path
  | FlagsInvalid path
  | TestOnlyDefine path
  | NoCudaBinary string
  | RecipeNotAllowed string "string list" path
  | CommandsStale path
  | StampRaised py_exn

text \<open>Python's \<open>v == n\<close> for an integer \<open>n\<close>: an equal integer, Boolean or float.\<close>

definition equals_int :: "json \<Rightarrow> int \<Rightarrow> bool" where
  "equals_int v n =
     (case v of JInt z \<Rightarrow> z = n | JBool b \<Rightarrow> (if b then 1 else 0) = n | JFloat x \<Rightarrow> fp_finite x \<and> fp_num x = of_int n | _ \<Rightarrow> False)"

fun strings_of :: "json list \<Rightarrow> string list option" where
  "strings_of [] = Some []"
| "strings_of (JStr s # vs) = map_option (Cons s) (strings_of vs)"
| "strings_of (v # vs) = None"

definition string_list :: "json \<Rightarrow> string list option" where
  "string_list v = (case v of JList vs \<Rightarrow> strings_of vs | _ \<Rightarrow> None)"

record git_identity =
  gid_revision :: string
  gid_dirty :: bool
  gid_fingerprint :: string

definition lift_stamp :: "(py_exn, 'a) result \<Rightarrow> (stamp_error, 'a) result" where
  "lift_stamp m = (case m of Inl e \<Rightarrow> Inl (StampRaised e) | Inr x \<Rightarrow> Inr x)"

text \<open>The recipe checks, on a stamp whose identity matched.\<close>

definition check_recipe ::
  "build_env \<Rightarrow> path \<Rightarrow> bool \<Rightarrow> string list option \<Rightarrow> stamp \<Rightarrow> (stamp_error, stamp) result" where
  "check_recipe env p require_cuda expected stamp =
     (case get_field stamp ''recipe'' of
        JStr recipe \<Rightarrow>
          if recipe \<notin> set BUILD_RECIPES then Inl (RecipeUnsupported p)
          else (case string_list (get_field stamp ''commands'') of
            None \<Rightarrow> Inl (CommandsInvalid p)
          | Some commands \<Rightarrow>
              if get_field stamp ''compiler_flags'' \<noteq> JList (map JStr (compiler_commands commands)) then Inl (FlagsInvalid p)
              else if list_ex (\<lambda>command. list_ex (\<lambda>d. contains d command) TEST_ONLY_DEFINES) commands then Inl (TestOnlyDefine p)
              else if require_cuda \<and> recipe \<noteq> ''build-cuda'' then Inl (NoCudaBinary recipe)
              else if (case expected of None \<Rightarrow> False | Some allowed \<Rightarrow> recipe \<notin> set allowed)
                then Inl (RecipeNotAllowed recipe (case expected of None \<Rightarrow> [] | Some allowed \<Rightarrow> allowed) p)
              else bindE (lift_stamp (recipe_commands env recipe)) (\<lambda>current.
                if commands \<noteq> current then Inl (CommandsStale p) else Inr stamp))
      | _ \<Rightarrow> Inl (RecipeUnsupported p))"

definition verify_stamp ::
  "stamp_ops \<Rightarrow> build_env \<Rightarrow> path \<Rightarrow> git_identity \<Rightarrow> bool \<Rightarrow> string list option \<Rightarrow> fs \<Rightarrow> (stamp_error, stamp) result" where
  "verify_stamp ops env binary git require_cuda expected fs =
     (let p = stamp_path binary in
      if \<not> is_file fs p then Inl (StampMissing p)
      else case read_json fs p of
        None \<Rightarrow> Inl (StampInvalid p)
      | Some (JObj stamp) \<Rightarrow>
          if \<not> equals_int (get_field stamp ''version'') STAMP_VERSION then Inl (StampUnsupported p)
          else bindE (lift_stamp (file_sha256 ops fs binary)) (\<lambda>digest.
            if get_field stamp ''binary_sha256'' \<noteq> JStr digest then Inl (HashMismatch p)
            else if get_field stamp ''revision'' \<noteq> JStr (gid_revision git) then Inl (RevisionStale p)
            else if \<not> equals_int (get_field stamp ''tree_dirty'') (if gid_dirty git then 1 else 0)
                \<or> get_field stamp ''tree_fingerprint'' \<noteq> JStr (gid_fingerprint git) then Inl (TreeStale p)
            else check_recipe env p require_cuda expected stamp)
      | Some v \<Rightarrow> Inl (StampUnsupported p))"


subsection \<open>What an accepted stamp says\<close>

lemma starts_with_append [simp]: "starts_with p (p @ s)"
  by (simp add: starts_with_def)

lemma contains_append: "contains p (a @ p @ b)"
proof (induction a)
  case Nil
  then show ?case using starts_with_append [of p b] by (cases "p @ b") auto
next
  case (Cons x a)
  then show ?case by simp
qed

lemma strings_of_Some: "strings_of vs = Some ss \<longleftrightarrow> vs = map JStr ss"
proof (induction vs arbitrary: ss rule: strings_of.induct)
  case (2 s vs)
  then show ?case by (cases ss) auto
qed auto

lemma string_list_Some: "string_list v = Some ss \<longleftrightarrow> v = JList (map JStr ss)"
  by (auto simp: string_list_def strings_of_Some split: json.splits)

lemma string_list_JStr [simp]: "string_list (JList (map JStr ss)) = Some ss"
  by (simp add: string_list_Some)

lemma map_JStr [simp]: "map JStr xs = map JStr ys \<longleftrightarrow> xs = ys"
  by (auto simp: inj_map_eq_map inj_def)

lemma lift_stamp_Inr [simp]: "lift_stamp m = Inr x \<longleftrightarrow> m = Inr x"
  by (cases m) (auto simp: lift_stamp_def)

definition test_only :: "string list \<Rightarrow> bool" where
  "test_only commands \<longleftrightarrow> list_ex (\<lambda>command. list_ex (\<lambda>d. contains d command) TEST_ONLY_DEFINES) commands"

definition recipe_allowed :: "bool \<Rightarrow> string list option \<Rightarrow> string \<Rightarrow> bool" where
  "recipe_allowed require_cuda expected recipe \<longleftrightarrow>
     recipe \<in> set BUILD_RECIPES \<and> (require_cuda \<longrightarrow> recipe = ''build-cuda'')
     \<and> (case expected of None \<Rightarrow> True | Some allowed \<Rightarrow> recipe \<in> set allowed)"

lemma check_recipe_Inr:
  "check_recipe env p rc expected stamp = Inr s \<longleftrightarrow>
     s = stamp \<and> (\<exists>recipe commands. get_field stamp ''recipe'' = JStr recipe \<and> recipe_allowed rc expected recipe
       \<and> get_field stamp ''commands'' = JList (map JStr commands) \<and> recipe_commands env recipe = Inr commands
       \<and> get_field stamp ''compiler_flags'' = JList (map JStr (compiler_commands commands)) \<and> \<not> test_only commands)"
proof (cases "\<exists>recipe commands. get_field stamp ''recipe'' = JStr recipe \<and> get_field stamp ''commands'' = JList (map JStr commands)")
  case True
  then show ?thesis
    by (cases expected) (auto simp: check_recipe_def result_simps recipe_allowed_def test_only_def split: if_splits)
next
  case False
  then show ?thesis by (auto simp: check_recipe_def string_list_Some split: json.splits option.splits if_splits)
qed

lemma verify_stamp_Inr:
  "verify_stamp ops env binary git rc expected fs = Inr s \<longleftrightarrow>
     read_json fs (stamp_path binary) = Some (JObj s)
     \<and> equals_int (get_field s ''version'') STAMP_VERSION
     \<and> (\<exists>digest. file_sha256 ops fs binary = Inr digest \<and> get_field s ''binary_sha256'' = JStr digest)
     \<and> get_field s ''revision'' = JStr (gid_revision git)
     \<and> equals_int (get_field s ''tree_dirty'') (if gid_dirty git then 1 else 0)
     \<and> get_field s ''tree_fingerprint'' = JStr (gid_fingerprint git)
     \<and> check_recipe env (stamp_path binary) rc expected s = Inr s"
proof -
  have "check_recipe env (stamp_path binary) rc expected s' = Inr s \<Longrightarrow> s' = s" for s' by (simp add: check_recipe_Inr)
  moreover have "is_file fs (stamp_path binary)" if "read_json fs (stamp_path binary) = Some v" for v
    using that by (auto simp: is_file_def read_json_def split: option.splits)
  ultimately show ?thesis
    by (auto simp: verify_stamp_def Let_def result_simps split: option.splits json.splits if_splits)
qed

lemma fault_build_test_only:
  assumes "recipe_commands env ''build-cuda-fault'' = Inr commands" "source_lists env = Inr table"
    and "sources_of table ''native_cuda_sources'' \<noteq> []"
  shows "test_only commands"
proof -
  obtain c a b where c: "c \<in> set commands" "c = a @ ''-DSQ_CUDA_FAULT_INJECTION'' @ b"
    using fault_plan_defines [OF assms] by blast
  then have "c = (a @ ''-D'') @ ''SQ_CUDA_FAULT_INJECTION'' @ b" by simp
  then have "contains ''SQ_CUDA_FAULT_INJECTION'' c" using contains_append by metis
  then show ?thesis using c(1) by (auto simp: test_only_def TEST_ONLY_DEFINES_def list_ex_iff)
qed

text \<open>
  C31: A stamp that \<open>verify_stamp\<close> accepts is that of the binary on disk, of the given revision and of the
  given state of the working tree. Its recipe is an allowed one, and its commands are those the recipe gives now; none
  of them carries a test-only define. So a binary of the fault-injection recipe is never accepted, whatever its
  stamp says, as long as the justfile lists a CUDA source.
\<close>

theorem accepted_stamp_is_current:
  assumes "verify_stamp ops env binary git require_cuda expected fs = Inr stamp"
    and "source_lists env = Inr table" "sources_of table ''native_cuda_sources'' \<noteq> []"
  shows "\<exists>recipe commands. get_field stamp ''recipe'' = JStr recipe \<and> recipe_allowed require_cuda expected recipe
    \<and> recipe_commands env recipe = Inr commands \<and> get_field stamp ''commands'' = JList (map JStr commands)
    \<and> \<not> test_only commands \<and> recipe \<noteq> ''build-cuda-fault''
    \<and> (\<exists>digest. file_sha256 ops fs binary = Inr digest \<and> get_field stamp ''binary_sha256'' = JStr digest)
    \<and> get_field stamp ''revision'' = JStr (gid_revision git)
    \<and> equals_int (get_field stamp ''tree_dirty'') (if gid_dirty git then 1 else 0)
    \<and> get_field stamp ''tree_fingerprint'' = JStr (gid_fingerprint git)"
proof -
  obtain recipe commands where r: "get_field stamp ''recipe'' = JStr recipe" "recipe_allowed require_cuda expected recipe"
      "recipe_commands env recipe = Inr commands" "get_field stamp ''commands'' = JList (map JStr commands)" "\<not> test_only commands"
    using assms(1) by (auto simp: verify_stamp_Inr check_recipe_Inr)
  moreover have "recipe \<noteq> ''build-cuda-fault''" using fault_build_test_only [OF _ assms(2,3)] r(3,5) by auto
  ultimately show ?thesis using assms(1) by (auto simp: verify_stamp_Inr)
qed

subsection \<open>A written stamp\<close>

lemma stamp_fields:
  "get_field (stamp_document revision dirty fp recipe commands digest) ''version'' = JInt STAMP_VERSION"
  "get_field (stamp_document revision dirty fp recipe commands digest) ''revision'' = JStr revision"
  "get_field (stamp_document revision dirty fp recipe commands digest) ''tree_dirty'' = JBool dirty"
  "get_field (stamp_document revision dirty fp recipe commands digest) ''tree_fingerprint'' = JStr fp"
  "get_field (stamp_document revision dirty fp recipe commands digest) ''recipe'' = JStr recipe"
  "get_field (stamp_document revision dirty fp recipe commands digest) ''commands'' = JList (map JStr commands)"
  "get_field (stamp_document revision dirty fp recipe commands digest) ''compiler_flags'' = JList (map JStr (compiler_commands commands))"
  "get_field (stamp_document revision dirty fp recipe commands digest) ''binary_sha256'' = JStr digest"
  by (simp_all add: stamp_document_def get_field_def)

lemma stamp_path_other: "stamp_path binary \<noteq> binary"
  by (cases binary rule: rev_cases) (auto simp: stamp_path_def with_name_def)

lemma write_stamp_Inr:
  assumes "write_stamp ops env binary recipe fs = Inr (stamp, fs')"
  obtains revision dirty fp commands digest where
    "stamp = stamp_document revision dirty fp recipe commands digest" "recipe_commands env recipe = Inr commands"
    "file_sha256 ops fs binary = Inr digest" "fs' = put (stamp_path binary) (File (JsonDoc (JObj stamp))) fs"
  using assms by (auto simp: write_stamp_def result_simps write_file_def Let_def split: if_splits)

text \<open>
  After \<open>write_stamp\<close>, the stamp on disk verifies under the identity it recorded exactly when its recipe is one
  the caller allows and its commands carry no test-only define.
\<close>

lemma written_stamp_verifies:
  assumes "write_stamp ops env binary recipe fs = Inr (stamp, fs')" "recipe_commands env recipe = Inr commands"
    and "get_field stamp ''revision'' = JStr (gid_revision git)" "get_field stamp ''tree_dirty'' = JBool (gid_dirty git)"
    and "get_field stamp ''tree_fingerprint'' = JStr (gid_fingerprint git)"
  shows "verify_stamp ops env binary git require_cuda expected fs' = Inr stamp
    \<longleftrightarrow> recipe_allowed require_cuda expected recipe \<and> \<not> test_only commands"
proof -
  obtain revision dirty fp digest where
    s: "stamp = stamp_document revision dirty fp recipe commands digest" "file_sha256 ops fs binary = Inr digest"
       "fs' = put (stamp_path binary) (File (JsonDoc (JObj stamp))) fs"
    using write_stamp_Inr [OF assms(1)] assms(2) by (metis old.sum.inject(2))
  have "read_json fs' (stamp_path binary) = Some (JObj stamp)" by (simp add: s(3) read_json_def read_file_def)
  moreover have "file_sha256 ops fs' binary = Inr digest"
    using s(2) stamp_path_other [of binary] by (simp add: s(3) file_sha256_def file_bytes_def read_file_def)
  moreover have "equals_int (JBool d) (if d then 1 else 0)" "equals_int (JInt z) z" for d z by (simp_all add: equals_int_def)
  ultimately show ?thesis
    using assms(2-5) by (auto simp: verify_stamp_Inr check_recipe_Inr s(1) stamp_fields)
qed


subsection \<open>A stamped binary\<close>

text \<open>A tree with one binary, a git that prints nothing, and a justfile whose variables are one word each.\<close>

definition sample_build :: build_env where
  "sample_build = \<lparr>be_nt = False, be_cc = None, be_just = (\<lambda>name. \<lparr>fin_code = 0, fin_out = ''w'', fin_err = []\<rparr>), be_root = []\<rparr>"

definition sample_stamps :: stamp_ops where
  "sample_stamps = \<lparr>bo_git = (\<lambda>args fs. Inr []), bo_sha256 = take 1, bo_encode = (\<lambda>c. [])\<rparr>"

definition sample_identity :: git_identity where
  "sample_identity = \<lparr>gid_revision = [], gid_dirty = False, gid_fingerprint = []\<rparr>"

definition sample_stamp :: stamp where
  "sample_stamp = stamp_document [] False [] ''build-stream-probe'' [''nvcc w w w -o build/stream_probe''] ''07''"

definition sample_binary :: fs where
  "sample_binary = [([''b''], File (Bytes [7]))]"

definition stamped_binary :: fs where
  "stamped_binary = put (stamp_path [''b'']) (File (JsonDoc (JObj sample_stamp))) sample_binary"

lemma sample_commands: "recipe_commands sample_build ''build-stream-probe'' = Inr [''nvcc w w w -o build/stream_probe'']"
  by code_simp

lemma sample_written: "write_stamp sample_stamps sample_build [''b''] ''build-stream-probe'' sample_binary = Inr (sample_stamp, stamped_binary)"
  by code_simp

lemma sample_verified: "verify_stamp sample_stamps sample_build [''b''] sample_identity False None stamped_binary = Inr sample_stamp"
  by code_simp

theorem accepted_stamp_is_current_witness:
  "get_field sample_stamp ''recipe'' \<noteq> JStr ''build-cuda-fault''
    \<and> verify_stamp sample_stamps sample_build [''b''] sample_identity False None stamped_binary = Inr sample_stamp"
proof -
  have "source_lists sample_build = Inr (map (\<lambda>name. (name, [''w''])) SOURCE_LIST_VARIABLES)" by code_simp
  then show ?thesis using accepted_stamp_is_current [OF sample_verified, of "map (\<lambda>name. (name, [''w''])) SOURCE_LIST_VARIABLES"] sample_verified
    by (auto simp: sources_of_def SOURCE_LIST_VARIABLES_def)
qed

end
