(* ===== verification/Builds.thy ===== *)
theory Builds
  imports Build_Stamp
begin

text \<open>
  Running a build (\<open>build\<close> of \<open>src/stoquant/native_build.py\<close>): the compiler processes of a recipe over the
  file tree and the machine, the sanitizer suites, and the stamp written at the end. A process is an
  argument over that state. The lemmas show that a finished build leaves a stamp that verifies.
\<close>

type_synonym 'p runner = "command \<Rightarrow> ('p world, py_exn, int) st"

definition powershell :: "build_env \<Rightarrow> command" where
  "powershell env =
     [''powershell.exe'', ''-NoProfile'', ''-ExecutionPolicy'', ''Bypass'', ''-File'',
      native_text env (be_root env @ [''tools'', ''with-msvc.ps1''])]"

definition build_command :: "build_env \<Rightarrow> 'p runner \<Rightarrow> command \<Rightarrow> ('p world, py_exn, unit) st" where
  "build_command env run words =
     st_bind (run (if be_nt env \<and> (hd words = ''cl.exe'' \<or> hd words = ''nvcc'') then powershell env @ words else words)) (\<lambda>code.
       if code \<noteq> 0 then st_fail (RuntimeError (''native build command failed with exit '' @ str_int code))
       else st_return ())"

definition build_directories :: "build_env \<Rightarrow> string list \<Rightarrow> ('p world, py_exn, unit) st" where
  "build_directories env names =
     st_bind (on_file id (mkdir_parents (be_root env @ [''build'']))) (\<lambda>_.
     st_bind (st_traverse (\<lambda>name. on_file id (mkdir_parents (be_root env @ [''build'', name]))) names) (\<lambda>_. st_return ()))"

definition run_all :: "build_env \<Rightarrow> 'p runner \<Rightarrow> command list \<Rightarrow> ('p world, py_exn, unit) st" where
  "run_all env run commands = st_bind (st_traverse (build_command env run) commands) (\<lambda>_. st_return ())"

definition run_test_suite :: "build_env \<Rightarrow> 'p runner \<Rightarrow> ('p world, py_exn, unit) st" where
  "run_test_suite env run =
     st_bind (st_lift (ubsan_plan env)) (\<lambda>(commands, binaries).
     st_bind (build_directories env [''cpu'', ''test-avx2'']) (\<lambda>_.
     st_bind (run_all env run commands) (\<lambda>_.
       run_all env run (map (\<lambda>binary. [native_text env (joined_path env binary)]) binaries))))"

definition ASAN_TARGETS :: "(string \<times> string \<times> string list) list" where
  "ASAN_TARGETS =
     [(''test_codec_sources'', ''build/test_codec_asan.exe'', []),
      (''test_quantizer_sources'', ''build/test_quantizer_asan.exe'', []),
      (''test_avx2_sources'', ''build/test_quantizer_avx2_asan.exe'', [''/arch:AVX2'', ''/openmp'']),
      (''test_rng_cpu_sources'', ''build/test_rng_cpu_asan.exe'', []),
      (''test_asan_probe_sources'', ''build/asan_overread_probe.exe'', [])]"

definition asan_compile :: "build_env \<Rightarrow> 'p runner \<Rightarrow> string list \<Rightarrow> string \<times> string \<times> string list \<Rightarrow> ('p world, py_exn, unit) st" where
  "asan_compile env run flags = (\<lambda>(variable, out, extra).
     st_bind (st_lift (if variable \<noteq> ''test_asan_probe_sources'' then Inr flags else just_var env ''cl_asan_flags'')) (\<lambda>command_flags.
     st_bind (st_lift (just_var env variable)) (\<lambda>sources.
       build_command env run ([''cl.exe''] @ command_flags @ extra @ sources @ [''/Fo:build/'', ''/Fe:'' @ out]))))"

definition run_asan_suite :: "build_env \<Rightarrow> 'p runner \<Rightarrow> ('p world, py_exn, unit) st" where
  "run_asan_suite env run =
     (if \<not> be_nt env then st_fail (RuntimeError ''the AddressSanitizer CPU proof uses MSVC on Windows'')
      else
        st_bind (on_file id (mkdir_parents (be_root env @ [''build'']))) (\<lambda>_.
        st_bind (st_lift (just_var env ''cl_includes'')) (\<lambda>includes.
        st_bind (st_lift (just_var env ''cl_asan_flags'')) (\<lambda>asan_flags.
        st_bind (st_traverse (asan_compile env run (asan_flags @ includes)) ASAN_TARGETS) (\<lambda>_.
          run_all env run
            (map (\<lambda>binary. powershell env @ [''./'' @ binary])
               [''build/test_codec_asan.exe'', ''build/test_quantizer_asan.exe'', ''build/test_quantizer_avx2_asan.exe'',
                ''build/test_rng_cpu_asan.exe'']
             @ [powershell env @ [''./tools/check_asan_overread.ps1'', ''build/asan_overread_probe.exe'']]))))))"

text \<open>The commands a recipe runs; the fault recipe relies on the objects of an earlier build.\<close>

definition build_plan :: "build_env \<Rightarrow> string \<Rightarrow> (py_exn, plan) result" where
  "build_plan env recipe =
     bindE (command_plan env recipe) (\<lambda>p. if recipe = ''build-cuda-fault'' then cuda_fault_plan env else Inr p)"

definition build :: "stamp_ops \<Rightarrow> build_env \<Rightarrow> 'p runner \<Rightarrow> string \<Rightarrow> ('p world, py_exn, path) st" where
  "build ops env run recipe =
     (if recipe = ''test-cpu-gcc-ubsan'' then
        st_bind (run_test_suite env run) (\<lambda>_. st_return (be_root env @ [''build'', ''stoquant_gcc_ubsan'']))
      else if recipe = ''test-cpu-asan'' then
        st_bind (run_asan_suite env run) (\<lambda>_. st_return (be_root env @ [''build'']))
      else
        st_bind (st_lift (build_plan env recipe)) (\<lambda>(commands, out).
        st_bind (build_directories env [''cpu'', ''cuda'', ''test-avx2'']) (\<lambda>_.
        st_bind (run_all env run commands) (\<lambda>_.
        st_bind (on_files id (write_stamp ops env (joined_path env out) recipe)) (\<lambda>_.
          st_return (joined_path env out))))))"

subsection \<open>A finished build\<close>

text \<open>The identity of the working tree, as \<open>write_stamp\<close> reads it from git.\<close>

definition tree_identity :: "stamp_ops \<Rightarrow> build_env \<Rightarrow> fs \<Rightarrow> (py_exn, git_identity) result" where
  "tree_identity ops env fs =
     bindE (bo_git ops [''status'', ''--porcelain'', ''--untracked-files=all''] fs) (\<lambda>status.
     bindE (bo_git ops [''rev-parse'', ''HEAD''] fs) (\<lambda>revision.
     bindE (tree_fingerprint ops env fs) (\<lambda>fingerprint.
       Inr \<lparr>gid_revision = strip (chars_of revision), gid_dirty = (strip (chars_of status) \<noteq> []), gid_fingerprint = fingerprint\<rparr>)))"

lemma write_stamp_identity:
  assumes "write_stamp ops env binary recipe fs = Inr (stamp, fs')"
  obtains git where "tree_identity ops env fs = Inr git"
    "get_field stamp ''revision'' = JStr (gid_revision git)" "get_field stamp ''tree_dirty'' = JBool (gid_dirty git)"
    "get_field stamp ''tree_fingerprint'' = JStr (gid_fingerprint git)"
    "fs' = put (stamp_path binary) (File (JsonDoc (JObj stamp))) fs"
  using assms by (auto simp: write_stamp_def tree_identity_def result_simps write_file_def Let_def stamp_fields split: if_splits)

text \<open>
  C32: A build that finishes leaves a stamp beside its binary. The stamp is accepted for the tree it was built
  from exactly when the caller allows the recipe and no command of the recipe carries a test-only define;
  and the stamp is the only change after the last compiler process.
\<close>

theorem built_binary_verifies:
  assumes "build ops env run recipe w = (Inr binary, w')" "recipe \<noteq> ''test-cpu-gcc-ubsan''" "recipe \<noteq> ''test-cpu-asan''"
  shows "\<exists>fs stamp git commands. tree_identity ops env fs = Inr git \<and> recipe_commands env recipe = Inr commands
    \<and> fst w' = put (stamp_path binary) (File (JsonDoc (JObj stamp))) fs \<and> is_file fs binary
    \<and> (\<forall>rc expected. verify_stamp ops env binary git rc expected (fst w') = Inr stamp
         \<longleftrightarrow> recipe_allowed rc expected recipe \<and> \<not> test_only commands)"
proof -
  obtain w1 stamp where s: "write_stamp ops env binary recipe (fst w1) = Inr (stamp, fst w')"
    using assms by (auto simp: build_def result_simps)
  obtain git where g: "tree_identity ops env (fst w1) = Inr git"
      "get_field stamp ''revision'' = JStr (gid_revision git)" "get_field stamp ''tree_dirty'' = JBool (gid_dirty git)"
      "get_field stamp ''tree_fingerprint'' = JStr (gid_fingerprint git)"
      "fst w' = put (stamp_path binary) (File (JsonDoc (JObj stamp))) (fst w1)"
    using write_stamp_identity [OF s] .
  obtain commands where c: "recipe_commands env recipe = Inr commands" using write_stamp_Inr [OF s] by metis
  have "is_file (fst w1) binary" using s by (auto simp: write_stamp_def split: if_splits)
  moreover have "verify_stamp ops env binary git rc expected (fst w') = Inr stamp
      \<longleftrightarrow> recipe_allowed rc expected recipe \<and> \<not> test_only commands" for rc expected
    using written_stamp_verifies [OF s c g(2-4)] .
  ultimately show ?thesis using g(1,5) c by blast
qed


text \<open>A compiler whose every process writes the probe.\<close>

definition sample_compiler :: "nat runner" where
  "sample_compiler words = (\<lambda>(fs, p). (Inr 0, (put [''build'', ''stream_probe''] (File (Bytes [7])) fs, Suc p)))"

theorem built_binary_verifies_witness:
  "\<exists>w' fs stamp git commands. build sample_stamps sample_build sample_compiler ''build-stream-probe'' ([], 0)
      = (Inr [''build'', ''stream_probe''], w')
    \<and> tree_identity sample_stamps sample_build fs = Inr git \<and> recipe_commands sample_build ''build-stream-probe'' = Inr commands
    \<and> (verify_stamp sample_stamps sample_build [''build'', ''stream_probe''] git False None (fst w') = Inr stamp
         \<longleftrightarrow> recipe_allowed False None ''build-stream-probe'' \<and> \<not> test_only commands)"
proof -
  have "fst (build sample_stamps sample_build sample_compiler ''build-stream-probe'' ([], 0)) = Inr [''build'', ''stream_probe'']"
    by code_simp
  then obtain w' where w: "build sample_stamps sample_build sample_compiler ''build-stream-probe'' ([], 0) = (Inr [''build'', ''stream_probe''], w')"
    by (metis prod.collapse)
  obtain fs stamp git commands where
      "tree_identity sample_stamps sample_build fs = Inr git" "recipe_commands sample_build ''build-stream-probe'' = Inr commands"
      "\<forall>rc expected. verify_stamp sample_stamps sample_build [''build'', ''stream_probe''] git rc expected (fst w') = Inr stamp
         \<longleftrightarrow> recipe_allowed rc expected ''build-stream-probe'' \<and> \<not> test_only commands"
    using built_binary_verifies [OF w] by auto
  then show ?thesis using w by blast
qed

end
