(* ===== verification/Provenance.thy ===== *)
theory Provenance
  imports Build_Stamp Monitoring
begin

text \<open>
  Provenance of a run (\<open>src/stoquant/provenance.py\<close>): the git state, the verified binary and device
  probe, the compiler flags read from a stamp, the GPU state and the toolchain. Processes and the
  decoder of JSON are arguments. The lemmas say which compile the recorded flags come from.
\<close>

definition GPU_STATE_FIELDS :: "string list" where
  "GPU_STATE_FIELDS =
     [''pstate'', ''clocks.sm'', ''clocks.mem'', ''clocks.max.sm'', ''temperature.gpu'', ''power.draw'', ''clocks_event_reasons.active'']"

definition BUILD_RECIPE :: string where "BUILD_RECIPE = ''build-cuda''"

subsection \<open>Commands\<close>

text \<open>
  \<open>po_run\<close> is a finished process or the exception of starting it; \<open>po_loads\<close> decodes JSON, \<open>po_now\<close> is
  the time as ISO text. Starting a process raises nothing but the \<open>OSError\<close> and \<open>SubprocessError\<close> the probes catch.
\<close>

record process_ops =
  po_run :: "string list \<Rightarrow> fs \<Rightarrow> (py_exn, finished) result"
  po_loads :: "string \<Rightarrow> (py_exn, json) result"
  po_now :: string

definition run_command :: "process_ops \<Rightarrow> string list \<Rightarrow> fs \<Rightarrow> (py_exn, string) result" where
  "run_command po args fs =
     bindE (po_run po args fs) (\<lambda>r.
       if fin_code r \<noteq> 0 then
         let detail = strip (if fin_err r = [] then fin_out r else fin_err r) in
         Inl (RuntimeError (''Command '' @ join '' '' args @ '' failed (exit '' @ str_int (fin_code r) @ ''): '' @ detail))
       else Inr (strip (fin_out r)))"

subsection \<open>Git\<close>

text \<open>The exceptions that count as an unavailable git.\<close>

definition git_unavailable :: "py_exn \<Rightarrow> bool" where
  "git_unavailable e =
     (case e of RuntimeError _ \<Rightarrow> True | OSError _ \<Rightarrow> True | FileNotFoundError _ \<Rightarrow> True
      | FileExistsError _ \<Rightarrow> True | SubprocessError _ \<Rightarrow> True | _ \<Rightarrow> False)"

definition git_document :: "string \<Rightarrow> string \<Rightarrow> string list \<Rightarrow> string \<Rightarrow> (string \<times> json) list" where
  "git_document revision short dirty fingerprint =
     [(''code_revision'', JStr revision), (''code_revision_short'', JStr short), (''git_dirty'', JBool (dirty \<noteq> [])),
      (''dirty_files'', JList (map JStr dirty)), (''tree_fingerprint'', JStr fingerprint)]"

definition collect_git_provenance :: "process_ops \<Rightarrow> stamp_ops \<Rightarrow> build_env \<Rightarrow> fs \<Rightarrow> (py_exn, (string \<times> json) list) result" where
  "collect_git_provenance po ops env fs =
     (case bindE (run_command po [''git'', ''rev-parse'', ''HEAD''] fs) (\<lambda>revision.
           bindE (run_command po [''git'', ''rev-parse'', ''--short'', ''HEAD''] fs) (\<lambda>short.
           bindE (run_command po [''git'', ''status'', ''--porcelain''] fs) (\<lambda>status.
           bindE (tree_fingerprint ops env fs) (\<lambda>fingerprint.
             Inr (git_document revision short (filter (\<lambda>l. strip l \<noteq> []) (split_lines [] status)) fingerprint))))) of
        Inr git \<Rightarrow> Inr git
      | Inl e \<Rightarrow>
          if git_unavailable e then Inr (git_document ''unknown'' ''unknown'' [''<git status unavailable>''] ''unknown'')
          else Inl e)"

text \<open>The fields of the dictionary that a verification reads.\<close>

definition text_field :: "(string \<times> json) list \<Rightarrow> string \<Rightarrow> string" where
  "text_field d k = (case get_field d k of JStr s \<Rightarrow> s | _ \<Rightarrow> [])"

definition identity_of :: "(string \<times> json) list \<Rightarrow> git_identity" where
  "identity_of git =
     \<lparr>gid_revision = text_field git ''code_revision'', gid_dirty = (get_field git ''git_dirty'' = JBool True),
      gid_fingerprint = text_field git ''tree_fingerprint''\<rparr>"

subsection \<open>Verified binaries\<close>

datatype provenance_error = ProvenanceRaised py_exn | ProvenanceStamp stamp_error

definition lift_provenance :: "(py_exn, 'a) result \<Rightarrow> (provenance_error, 'a) result" where
  "lift_provenance m = (case m of Inl e \<Rightarrow> Inl (ProvenanceRaised e) | Inr x \<Rightarrow> Inr x)"

definition lift_verified :: "(stamp_error, 'a) result \<Rightarrow> (provenance_error, 'a) result" where
  "lift_verified m = (case m of Inl e \<Rightarrow> Inl (ProvenanceStamp e) | Inr x \<Rightarrow> Inr x)"

definition built_path :: "build_env \<Rightarrow> string \<Rightarrow> path" where
  "built_path env name = be_root env @ [''build'', name]"

definition find_binary ::
  "process_ops \<Rightarrow> stamp_ops \<Rightarrow> build_env \<Rightarrow> bool \<Rightarrow> (string \<times> json) list option \<Rightarrow> string option \<Rightarrow> fs
     \<Rightarrow> (provenance_error, path \<times> stamp) result" where
  "find_binary po ops env require_cuda git_prov binary_name fs =
     (let name = (case binary_name of Some (c # cs) \<Rightarrow> c # cs | _ \<Rightarrow> if be_nt env then ''stoquant.exe'' else ''stoquant'');
          p = built_path env name in
      if \<not> is_file fs p then Inl (ProvenanceRaised (FileNotFoundError
        (''stoquant binary not found at '' @ native_text env p @ ''. Build it first with just build-cuda.'')))
      else
        bindE (case git_prov of None \<Rightarrow> lift_provenance (collect_git_provenance po ops env fs) | Some git \<Rightarrow> Inr git) (\<lambda>git.
          if text_field git ''code_revision'' = ''unknown''
          then Inl (ProvenanceRaised (RuntimeError ''cannot verify a build stamp without git provenance''))
          else
            bindE (lift_verified (verify_stamp ops env p (identity_of git) require_cuda
                (Some (if require_cuda then [''build-cuda''] else [''build-cpu'', ''build-cuda''])) fs)) (\<lambda>stamp.
              Inr (p, stamp))))"

definition query_device_attributes ::
  "process_ops \<Rightarrow> stamp_ops \<Rightarrow> build_env \<Rightarrow> (string \<times> json) list \<Rightarrow> fs \<Rightarrow> (provenance_error, (string \<times> json) list \<times> stamp) result" where
  "query_device_attributes po ops env git fs =
     (let p = built_path env (if be_nt env then ''stream_probe.exe'' else ''stream_probe'') in
      if \<not> is_file fs p then Inl (ProvenanceRaised (FileNotFoundError
        (''publication stream probe not found at '' @ native_text env p @ ''. Build it first with just build-stream-probe.'')))
      else
        bindE (lift_verified (verify_stamp ops env p (identity_of git) False (Some [''build-stream-probe'']) fs)) (\<lambda>stamp.
        bindE (lift_provenance (run_command po [native_text env p, ''--device-only''] fs)) (\<lambda>out.
        bindE (lift_provenance (po_loads po out)) (\<lambda>v.
          case v of
            JObj attributes \<Rightarrow> Inr (attributes, stamp)
          | _ \<Rightarrow> Inl (ProvenanceRaised (TypeError ''publication stream probe must return a JSON object''))))))"

subsection \<open>Compiler flags\<close>

record build_commands =
  cb_source :: string
  cb_commands :: "string list"
  cb_comparator_c :: string
  cb_avx2_c :: string
  cb_cuda_nvcc :: string
  cb_host_tokens :: "string list option"
  cb_avx2_tokens :: "string list option"

definition as_record :: "build_commands \<Rightarrow> (string \<times> json) list" where
  "as_record b =
     [(''source'', JStr (cb_source b)), (''commands'', JList (map JStr (cb_commands b))),
      (''comparator_c'', JStr (cb_comparator_c b)), (''avx2_c'', JStr (cb_avx2_c b)), (''cuda_nvcc'', JStr (cb_cuda_nvcc b))]"

text \<open>Sources and objects by their suffix, and the other arguments a compile carries for its files.\<close>

definition file_argument :: "string \<Rightarrow> bool" where
  "file_argument lowered \<longleftrightarrow> list_ex (\<lambda>suffix. ends_with suffix lowered) [''.c'', ''.cu'', ''.obj'', ''.o'']"

fun strip_compile_io :: "string list \<Rightarrow> string list" where
  "strip_compile_io [] = []"
| "strip_compile_io (token # tokens) =
     (let lowered = ascii_lower token in
      if lowered = ''/c'' \<or> lowered = ''-c'' then strip_compile_io tokens
      else if lowered = ''-o'' then strip_compile_io (tl tokens)
      else if starts_with ''/fo'' lowered then strip_compile_io tokens
      else if file_argument lowered then strip_compile_io tokens
      else token # strip_compile_io tokens)"

definition base_name :: "string \<Rightarrow> string" where
  "base_name token = rev (takeWhile (\<lambda>c. c \<noteq> CHR ''/'') (rev (map (\<lambda>c. if c = CHR 0x5C then CHR ''/'' else c) token)))"

text \<open>The words of a command line without a leading wrapper script.\<close>

definition command_tokens :: "string \<Rightarrow> string list" where
  "command_tokens command =
     (case split_words [] command of
        [] \<Rightarrow> []
      | t # ts \<Rightarrow> if ends_with ''with-msvc.ps1'' t then ts else t # ts)"

definition tool_name :: "bool \<Rightarrow> string \<Rightarrow> string" where
  "tool_name nt token = ascii_lower (path_name (if nt then map (\<lambda>c. if c = CHR 0x5C then CHR ''/'' else c) token else token))"

type_synonym flag_lists = "string list option \<times> string list option \<times> string list option"

definition parse_command :: "bool \<Rightarrow> string \<Rightarrow> flag_lists \<Rightarrow> flag_lists" where
  "parse_command nt command = (\<lambda>(host, avx2, nvcc).
     case command_tokens command of
       [] \<Rightarrow> (host, avx2, nvcc)
     | t # ts \<Rightarrow>
         let tool = tool_name nt t; compiles = list_ex (\<lambda>t. ascii_lower t \<in> {''/c'', ''-c''}) (t # ts);
             sources = map base_name ts in
         if compiles \<and> tool \<in> {''cl.exe'', ''cl'', ''gcc'', ''cc'', ''clang''} then
           if host = None \<and> ''quantizer.c'' \<in> set sources then (Some (strip_compile_io ts), avx2, nvcc)
           else if avx2 = None \<and> ''quantizer_avx2.c'' \<in> set sources then (host, Some (strip_compile_io ts), nvcc)
           else (host, avx2, nvcc)
         else if nvcc = None \<and> compiles \<and> tool \<in> {''nvcc'', ''nvcc.exe''} then (host, avx2, Some (strip_compile_io ts))
         else (host, avx2, nvcc))"

definition flag_text :: "string list option \<Rightarrow> string" where
  "flag_text flags = (case flags of None \<Rightarrow> ''unknown'' | Some ts \<Rightarrow> join '' '' ts)"

definition parse_build_commands :: "bool \<Rightarrow> string list \<Rightarrow> build_commands" where
  "parse_build_commands nt commands =
     (let (host, avx2, nvcc) = fold (parse_command nt) commands (None, None, None) in
      \<lparr>cb_source = ''parsed compile commands'', cb_commands = commands, cb_comparator_c = flag_text host,
       cb_avx2_c = flag_text avx2, cb_cuda_nvcc = flag_text nvcc, cb_host_tokens = host, cb_avx2_tokens = avx2\<rparr>)"

definition collect_build_commands :: "bool \<Rightarrow> stamp \<Rightarrow> (py_exn, build_commands) result" where
  "collect_build_commands nt stamp =
     (case string_list (get_field stamp ''commands'') of
        None \<Rightarrow> Inl (RuntimeError ''verified build stamp has invalid compiler commands'')
      | Some commands \<Rightarrow>
          let recipe = (if has_key stamp ''recipe'' then text_field stamp ''recipe'' else ''unknown'') in
          Inr ((parse_build_commands nt commands)\<lparr>cb_source := ''verified build stamp ('' @ recipe @ '')''\<rparr>))"

subsection \<open>GPU state and toolchain\<close>

fun split_comma :: "string \<Rightarrow> string \<Rightarrow> string list" where
  "split_comma acc [] = [acc]"
| "split_comma acc (c # cs) = (if c = CHR '','' then acc # split_comma [] cs else split_comma (acc @ [c]) cs)"

definition first_fields :: "string \<Rightarrow> string list" where
  "first_fields out = (case split_lines [] (strip out) of [] \<Rightarrow> [] | l # ls \<Rightarrow> map strip (split_comma [] l))"

definition query_gpu_state :: "process_ops \<Rightarrow> fs \<Rightarrow> (string \<times> string) list" where
  "query_gpu_state po fs =
     (case po_run po [''nvidia-smi'', ''--query-gpu='' @ join '','' GPU_STATE_FIELDS, ''--format=csv,noheader''] fs of
        Inl e \<Rightarrow> [(''status'', ''unavailable'')]
      | Inr r \<Rightarrow>
          if fin_code r \<noteq> 0 \<or> strip (fin_out r) = [] then [(''status'', ''unavailable'')]
          else if length (first_fields (fin_out r)) \<noteq> length GPU_STATE_FIELDS
            then [(''status'', ''unparsed''), (''raw'', strip (fin_out r))]
          else zip GPU_STATE_FIELDS (first_fields (fin_out r)) @ [(''captured_at_utc'', po_now po)])"

text \<open>\<open>platform\<close> and \<open>os.environ\<close>: the processor, its environment name, the machine, \<open>CC\<close>.\<close>

record platform_names =
  pn_processor :: string
  pn_identifier :: "string option"
  pn_machine :: string

definition host_cpu :: "platform_names \<Rightarrow> string" where
  "host_cpu pn =
     (if pn_processor pn \<noteq> [] then pn_processor pn
      else case pn_identifier pn of Some (c # cs) \<Rightarrow> c # cs | _ \<Rightarrow> pn_machine pn)"

definition gpu_identity :: "process_ops \<Rightarrow> fs \<Rightarrow> string \<times> string \<times> string" where
  "gpu_identity po fs =
     (case po_run po [''nvidia-smi'', ''--query-gpu=name,driver_version,compute_cap'', ''--format=csv,noheader''] fs of
        Inl e \<Rightarrow> (''unknown'', ''unknown'', ''unknown'')
      | Inr r \<Rightarrow>
          if fin_code r = 0 \<and> strip (fin_out r) \<noteq> [] then
            case first_fields (fin_out r) of
              a # b # c # rest \<Rightarrow> (a, b, c)
            | _ \<Rightarrow> (''unknown'', ''unknown'', ''unknown'')
          else (''unknown'', ''unknown'', ''unknown''))"

definition first_line_with :: "string list \<Rightarrow> string \<Rightarrow> string" where
  "first_line_with marks out =
     (case find (\<lambda>l. list_ex (\<lambda>m. contains m l) marks) (split_lines [] out) of None \<Rightarrow> ''unknown'' | Some l \<Rightarrow> strip l)"

definition cuda_toolkit :: "process_ops \<Rightarrow> fs \<Rightarrow> string" where
  "cuda_toolkit po fs =
     (case po_run po [''nvcc'', ''--version''] fs of
        Inl e \<Rightarrow> ''unknown''
      | Inr r \<Rightarrow> if fin_code r = 0 \<and> strip (fin_out r) \<noteq> [] then first_line_with [''release''] (fin_out r) else ''unknown'')"

text \<open>An empty version text makes \<open>splitlines()[0]\<close> raise an \<open>IndexError\<close>, which this probe lets pass.\<close>

definition c_compiler :: "process_ops \<Rightarrow> build_env \<Rightarrow> fs \<Rightarrow> (py_exn, string) result" where
  "c_compiler po env fs =
     (let script = be_root env @ [''tools'', ''with-msvc.ps1''] in
      if be_nt env then
        if \<not> is_file fs script then Inr ''unknown''
        else case po_run po [''powershell.exe'', ''-NoProfile'', ''-ExecutionPolicy'', ''Bypass'', ''-File'', native_text env script, ''cl.exe''] fs of
            Inl e \<Rightarrow> Inr ''unknown''
          | Inr r \<Rightarrow> Inr (first_line_with [''Microsoft (R) C/C++'', ''Optimizing Compiler''] (if fin_err r = [] then fin_out r else fin_err r))
      else case po_run po [case be_cc env of None \<Rightarrow> ''gcc'' | Some cc \<Rightarrow> cc, ''--version''] fs of
          Inl e \<Rightarrow> Inr ''unknown''
        | Inr r \<Rightarrow>
            if fin_code r = 0 then
              case split_lines [] (fin_out r) of [] \<Rightarrow> Inl (IndexError ''list index out of range'') | l # ls \<Rightarrow> Inr (strip l)
            else Inr ''unknown'')"

definition collect_hardware_and_toolchain ::
  "process_ops \<Rightarrow> build_env \<Rightarrow> platform_names \<Rightarrow> fs \<Rightarrow> (py_exn, (string \<times> json) list) result" where
  "collect_hardware_and_toolchain po env pn fs =
     (let (gpu_name, driver, cap) = gpu_identity po fs in
      bindE (c_compiler po env fs) (\<lambda>cc.
        Inr [(''hardware'', JObj [(''gpu_name'', JStr gpu_name), (''compute_capability'', JStr cap), (''host_cpu'', JStr (host_cpu pn))]),
             (''toolkit_and_driver'', JObj [(''cuda_toolkit'', JStr (cuda_toolkit po fs)), (''driver_version'', JStr driver),
                (''c_compiler'', JStr cc)])]))"


subsection \<open>What the records say\<close>

lemma lift_verified_Inr [simp]: "lift_verified m = Inr x \<longleftrightarrow> m = Inr x"
  by (cases m) (auto simp: lift_verified_def)

text \<open>A binary is found only with a stamp that was accepted for a known revision.\<close>

lemma find_binary_verified:
  assumes "find_binary po ops env require_cuda (Some git) binary_name fs = Inr (p, stamp)"
  shows "verify_stamp ops env p (identity_of git) require_cuda
      (Some (if require_cuda then [''build-cuda''] else [''build-cpu'', ''build-cuda''])) fs = Inr stamp"
    and "text_field git ''code_revision'' \<noteq> ''unknown''" "is_file fs p"
  using assms by (auto simp: find_binary_def Let_def result_simps split: if_splits)

definition compiles_source :: "bool \<Rightarrow> string \<Rightarrow> string \<Rightarrow> string list \<Rightarrow> bool" where
  "compiles_source nt source command flags \<longleftrightarrow>
     (\<exists>t ts. command_tokens command = t # ts \<and> tool_name nt t \<in> {''cl.exe'', ''cl'', ''gcc'', ''cc'', ''clang''}
       \<and> source \<in> set (map base_name ts) \<and> flags = strip_compile_io ts)"

text \<open>
  The flags recorded for the scalar comparator are those of a compile of \<open>quantizer.c\<close>, and those recorded for the
  AVX2 comparator of a compile of \<open>quantizer_avx2.c\<close>.
\<close>

lemma parse_command_sources:
  assumes "parse_command nt command (host, avx2, nvcc) = (host', avx2', nvcc')"
  shows "host' \<noteq> host \<Longrightarrow> host = None \<and> compiles_source nt ''quantizer.c'' command (the host')"
    and "avx2' \<noteq> avx2 \<Longrightarrow> avx2 = None \<and> compiles_source nt ''quantizer_avx2.c'' command (the avx2')"
  using assms by (auto simp: parse_command_def compiles_source_def Let_def split: list.splits if_splits)

lemma fold_parse_sources:
  assumes "fold (parse_command nt) commands (host, avx2, nvcc) = (host', avx2', nvcc')"
  shows "(\<forall>flags. host' = Some flags \<longrightarrow> host = Some flags \<or> (\<exists>c \<in> set commands. compiles_source nt ''quantizer.c'' c flags))
    \<and> (\<forall>flags. avx2' = Some flags \<longrightarrow> avx2 = Some flags \<or> (\<exists>c \<in> set commands. compiles_source nt ''quantizer_avx2.c'' c flags))"
  using assms
proof (induction commands arbitrary: host avx2 nvcc)
  case (Cons c commands)
  obtain h a n where p: "parse_command nt c (host, avx2, nvcc) = (h, a, n)" by (metis prod_cases3)
  then have f: "fold (parse_command nt) commands (h, a, n) = (host', avx2', nvcc')" using Cons.prems by simp
  have "h = Some flags \<Longrightarrow> host = Some flags \<or> compiles_source nt ''quantizer.c'' c flags"
    and "a = Some flags \<Longrightarrow> avx2 = Some flags \<or> compiles_source nt ''quantizer_avx2.c'' c flags" for flags
    using parse_command_sources [OF p] by (metis option.sel)+
  then show ?case using Cons.IH [OF f] by auto
qed simp

lemma recorded_flags_of_own_source:
  assumes "collect_build_commands nt stamp = Inr b"
  shows "cb_host_tokens b = Some flags \<Longrightarrow> \<exists>c \<in> set (cb_commands b). compiles_source nt ''quantizer.c'' c flags"
    and "cb_avx2_tokens b = Some flags \<Longrightarrow> \<exists>c \<in> set (cb_commands b). compiles_source nt ''quantizer_avx2.c'' c flags"
  using assms fold_parse_sources [of nt _ None None None]
  by (auto simp: collect_build_commands_def parse_build_commands_def split: option.splits prod.splits)

end
