(* ===== verification/Resident.thy ===== *)
theory Resident
  imports Provenance Matrix
begin

text \<open>
  The lifecycle of the CUDA resident experiments (\<open>src/stoquant/resident_experiment.py\<close>): checks, inputs,
  identity of the records of all K1 variants, warm-up, calibration, the interleaved process rounds,
  and the snapshot. The analysis of a finished run is an argument. The state is the file tree beside
  the machine, and the affinity mask. The lemmas say what a run that returned has done.
\<close>

definition DEFAULT_PROCESSES :: nat where "DEFAULT_PROCESSES = 12"
definition DEFAULT_REPS :: nat where "DEFAULT_REPS = 30"
definition MIN_WARMUPS :: nat where "MIN_WARMUPS = 10"
definition CALIBRATION_REPS :: nat where "CALIBRATION_REPS = 10"
definition GPU_WARMUP_SECONDS :: fp where "GPU_WARMUP_SECONDS = fp_of_nat 20"
definition ORDER_SEED :: int where "ORDER_SEED = 23"
definition PROBE_RECIPE :: string where "PROBE_RECIPE = ''build-stream-probe''"
definition DEFAULT_VARIANTS :: "string list" where "DEFAULT_VARIANTS = [''reference'', ''optimized'']"

record resident_record =
  xr_process :: nat
  xr_position :: nat
  xr_slot :: nat
  xr_variant :: string
  xr_count :: nat
  xr_bits :: nat
  xr_warmups :: nat
  xr_reps :: nat
  xr_samples :: "fp list"
  xr_k1 :: "fp list"
  xr_k2 :: "fp list"
  xr_k3 :: "fp list"

record resident_config =
  xc_kind :: string
  xc_counts :: "nat list"
  xc_bits :: "nat list"
  xc_processes :: nat
  xc_reps :: nat
  xc_gpu_seconds :: fp
  xc_in_process_seconds :: fp
  xc_output :: "path option"
  xc_allow_dirty :: bool
  xc_pilot :: bool
  xc_evidence :: bool
  xc_readiness :: bool

record resident_run =
  ru_git :: "(string \<times> json) list"
  ru_stamp :: stamp
  ru_binary :: path
  ru_build :: "(string \<times> json) list"
  ru_hardware :: "(string \<times> json) list"
  ru_probe :: "(string \<times> json) list"
  ru_device :: "(string \<times> json) list"
  ru_gpu_start :: json
  ru_probe_start :: json
  ru_probe_end :: json
  ru_gpu_end :: json
  ru_warm_up :: json
  ru_readiness :: "(string \<times> json) list option"
  ru_identity :: "(nat \<times> nat \<times> (string \<times> string) list) list"
  ru_inputs :: "(nat \<times> generated_input) list"
  ru_cells :: "(nat \<times> nat) list"
  ru_records :: "resident_record list"
  ru_warmups :: "((nat \<times> nat \<times> string) \<times> nat) list"
  ru_processes :: nat
  ru_reps :: nat
  ru_in_process_seconds :: fp
  ru_mask :: int
  ru_excluded :: "nat list"
  ru_evidence :: bool
  ru_output :: path

definition variant_order :: "nat \<Rightarrow> string list \<Rightarrow> string list" where
  "variant_order r variants = (if length variants < 2 \<or> even r then variants else rev variants)"

subsection \<open>Medians\<close>

text \<open>\<open>statistics.median\<close> of floats; \<open>sorted\<close> keeps the order of equal elements.\<close>

fun insert_sorted :: "fp \<Rightarrow> fp list \<Rightarrow> fp list" where
  "insert_sorted x [] = [x]"
| "insert_sorted x (y # ys) = (if x < y then x # y # ys else y # insert_sorted x ys)"

definition py_sorted :: "fp list \<Rightarrow> fp list" where
  "py_sorted xs = fold insert_sorted xs []"

definition py_median :: "fp list \<Rightarrow> (py_exn, fp) result" where
  "py_median xs =
     (let s = py_sorted xs; n = length s in
      if n = 0 then Inl (ValueError ''no median for empty data'')
      else if odd n then Inr (s ! (n div 2))
      else Inr (fp_div binary64 (fp_add binary64 (s ! (n div 2 - 1)) (s ! (n div 2))) (fp_of_nat 2)))"

subsection \<open>The machine\<close>

datatype resident_exn =
    ResidentPy py_exn
  | ResidentStore snapshot_error
  | ResidentProvenance provenance_error
  | ResidentStamp stamp_error
  | ResidentBench "run_error option"
  | ResidentRaised run_exn
  | ResidentProcess proc_outcome
  | ResidentWarmup warmup_exn
  | ResidentFuel
  | RecordsDiffer nat nat "(string \<times> string) list"

text \<open>
  \<open>re_run\<close> runs a native process, which may write files; \<open>re_process\<close> gives the tools of the machine in its
  present state, \<open>re_shuffle\<close> the permutation of round \<open>r\<close> that \<open>random.Random(ORDER_SEED)\<close> draws for \<open>n\<close>
  cells, \<open>re_clock\<close> the clock of a warm-up and \<open>re_fuel\<close> the bound on its loop, \<open>re_scratch\<close> the temporary directory.
\<close>

record 'p resident_env =
  re_run :: "'p world \<Rightarrow> string list \<Rightarrow> proc_outcome \<times> 'p world"
  re_loads :: "string \<Rightarrow> json option"
  re_clock :: "'p world \<Rightarrow> nat \<Rightarrow> fp"
  re_fuel :: nat
  re_elapsed :: "nat \<Rightarrow> fp"
  re_process :: "'p \<Rightarrow> process_ops"
  re_probes :: "'p \<Rightarrow> machine_probes"
  re_exn_text :: "py_exn \<Rightarrow> string"
  re_stamps :: stamp_ops
  re_build :: build_env
  re_platform :: platform_names
  re_inputs :: input_ops
  re_shuffle :: "int \<Rightarrow> nat \<Rightarrow> nat \<Rightarrow> nat list"
  re_day :: string
  re_second :: string
  re_scratch :: path

definition from_world :: "('e \<Rightarrow> 'x) \<Rightarrow> ('p world \<Rightarrow> ('e, 'a) result) \<Rightarrow> ('p world, 'x, 'a) st" where
  "from_world raise f = (\<lambda>w. case f w of Inl e \<Rightarrow> (Inl (raise e), w) | Inr x \<Rightarrow> (Inr x, w))"

definition tools :: "'p resident_env \<Rightarrow> 'p world \<Rightarrow> process_ops" where
  "tools env w = re_process env (snd w)"

definition text_dict :: "(string \<times> string) list \<Rightarrow> json" where
  "text_dict d = JObj (map (\<lambda>(k, v). (k, JStr v)) d)"

definition gpu_state_now :: "'p resident_env \<Rightarrow> ('p world, resident_exn, json) st" where
  "gpu_state_now env = from_world ResidentPy (\<lambda>w. Inr (text_dict (query_gpu_state (tools env w) (fst w))))"

definition native_path :: "'p resident_env \<Rightarrow> path \<Rightarrow> string" where
  "native_path env p = native_text (re_build env) p"

definition probe_path :: "'p resident_env \<Rightarrow> ('p world, resident_exn, path) st" where
  "probe_path env = from_world ResidentPy (\<lambda>w.
     let p = built_path (re_build env) (if be_nt (re_build env) then ''stream_probe.exe'' else ''stream_probe'') in
     if is_file (fst w) p then Inr p
     else Inl (FileNotFoundError (native_path env p @ '' not found. Build it first with just '' @ PROBE_RECIPE @ ''.'')))"

definition run_probe :: "'p resident_env \<Rightarrow> path \<Rightarrow> ('p world, resident_exn, (string \<times> json) list) st" where
  "run_probe env binary = from_world ResidentPy (\<lambda>w.
     bindE (po_run (tools env w) [native_path env binary, ''--max-exp'', ''27''] (fst w)) (\<lambda>r.
       if fin_code r \<noteq> 0 then Inl (RuntimeError (''stream probe failed: '' @ strip (fin_err r)))
       else bindE (po_loads (tools env w) (fin_out r)) (\<lambda>v.
         case v of JObj items \<Rightarrow> Inr items | _ \<Rightarrow> Inl (TypeError ''probe output''))))"

subsection \<open>One arm\<close>

definition resident_request :: "nat \<Rightarrow> nat \<Rightarrow> string \<Rightarrow> nat \<Rightarrow> nat \<Rightarrow> bench_request" where
  "resident_request n bits variant warmups reps =
     \<lparr>rq_count = n, rq_bits = bits, rq_backend = ''cuda'', rq_extra = [''--boundary'', boundary CUDA_RESIDENT],
      rq_seed = DEFAULT_COMPRESSION_SEED, rq_warmups = warmups, rq_reps = reps, rq_k1 = variant\<rparr>"

definition run_resident_arm ::
  "'p resident_env \<Rightarrow> path \<Rightarrow> path \<Rightarrow> bench_request \<Rightarrow> ('p world, resident_exn, validated_response) st" where
  "run_resident_arm env binary input r = (\<lambda>w.
     case run_bench_process (re_run env) (re_loads env) (native_path env binary) (native_path env input) r w of
       (Inl e, w) \<Rightarrow> (Inl (ResidentRaised e), w)
     | (Inr (None, err), w) \<Rightarrow> (Inl (ResidentBench err), w)
     | (Inr (Some payload, err), w) \<Rightarrow> (Inr payload, w))"

text \<open>The digest is read before the record is removed, in both outcomes of the reading.\<close>

definition record_hash :: "'p resident_env \<Rightarrow> path \<Rightarrow> path \<Rightarrow> nat \<Rightarrow> path \<Rightarrow> string \<Rightarrow> ('p world, resident_exn, string) st" where
  "record_hash env binary input bits out variant = (\<lambda>w.
     case re_run env w (compress_args (native_path env binary) (native_path env input) (native_path env out)
            DEFAULT_COMPRESSION_SEED (int bits) 0 0 ''cuda'' variant) of
       (Completed code so se, w) \<Rightarrow>
         if code \<noteq> 0 then (Inl (ResidentPy (RuntimeError (''stoquant compress --k1 '' @ variant @ '' failed: '' @ strip se))), w)
         else (case file_sha256 (re_stamps env) (fst w) out of Inl e \<Rightarrow> Inl (ResidentPy e) | Inr h \<Rightarrow> Inr h,
               (filter (\<lambda>e. fst e \<noteq> out) (fst w), snd w))
     | (outcome, w) \<Rightarrow> (Inl (ResidentProcess outcome), w))"

definition verify_cell ::
  "'p resident_env \<Rightarrow> path \<Rightarrow> (nat \<Rightarrow> path) \<Rightarrow> string list \<Rightarrow> nat \<times> nat
     \<Rightarrow> ('p world, resident_exn, nat \<times> nat \<times> (string \<times> string) list) st" where
  "verify_cell env binary inputs variants = (\<lambda>(n, bits).
     st_bind (st_traverse (\<lambda>variant. st_bind (record_hash env binary (inputs n) bits (re_scratch env @ [''record.msq'']) variant)
                (\<lambda>h. st_return (variant, h))) variants) (\<lambda>pairs.
     let hashes = dict_update [] pairs in
     if card (set (map snd hashes)) \<noteq> 1 then st_fail (RecordsDiffer n bits hashes) else st_return (n, bits, hashes)))"

definition verify_variant_records ::
  "'p resident_env \<Rightarrow> path \<Rightarrow> (nat \<Rightarrow> path) \<Rightarrow> (nat \<times> nat) list \<Rightarrow> string list
     \<Rightarrow> ('p world, resident_exn, (nat \<times> nat \<times> (string \<times> string) list) list) st" where
  "verify_variant_records env binary inputs cells variants = st_traverse (verify_cell env binary inputs variants) cells"

subsection \<open>Calibration and rounds\<close>

definition calibrate_arm ::
  "'p resident_env \<Rightarrow> resident_config \<Rightarrow> path \<Rightarrow> (nat \<Rightarrow> path) \<Rightarrow> (nat \<times> nat) \<times> string
     \<Rightarrow> ('p world, resident_exn, (nat \<times> nat \<times> string) \<times> nat) st" where
  "calibrate_arm env cfg binary inputs = (\<lambda>((n, bits), variant).
     st_bind (run_resident_arm env binary (inputs n) (resident_request n bits variant MIN_WARMUPS CALIBRATION_REPS)) (\<lambda>payload.
     st_bind (st_lift (map_sum ResidentPy id (py_median (map sample_value (vr_samples payload))))) (\<lambda>rep_ms.
     st_bind (st_lift (map_sum ResidentPy id (in_process_warmups (int MIN_WARMUPS) (xc_in_process_seconds cfg) rep_ms))) (\<lambda>n_warm.
       st_return ((n, bits, variant), nat n_warm)))))"

definition warmups_of :: "((nat \<times> nat \<times> string) \<times> nat) list \<Rightarrow> nat \<Rightarrow> nat \<Rightarrow> string \<Rightarrow> nat" where
  "warmups_of table n bits variant = (case map_of table (n, bits, variant) of None \<Rightarrow> 0 | Some k \<Rightarrow> k)"

definition stage_values :: "validated_response \<Rightarrow> string \<Rightarrow> (resident_exn, fp list) result" where
  "stage_values payload k =
     (case map_of (vr_stages payload) k of None \<Rightarrow> Inl (ResidentPy (KeyError k)) | Some xs \<Rightarrow> Inr (map sample_value xs))"

definition resident_record_of ::
  "nat \<Rightarrow> nat \<Rightarrow> nat \<Rightarrow> bench_request \<Rightarrow> validated_response \<Rightarrow> (resident_exn, resident_record) result" where
  "resident_record_of round_nr position slot r payload =
     bindE (stage_values payload ''k1_ms'') (\<lambda>k1.
     bindE (stage_values payload ''k2_ms'') (\<lambda>k2.
     bindE (stage_values payload ''k3_ms'') (\<lambda>k3.
       Inr \<lparr>xr_process = round_nr, xr_position = position, xr_slot = slot, xr_variant = rq_k1 r, xr_count = rq_count r,
            xr_bits = rq_bits r, xr_warmups = rq_warmups r, xr_reps = rq_reps r,
            xr_samples = map sample_value (vr_samples payload), xr_k1 = k1, xr_k2 = k2, xr_k3 = k3\<rparr>)))"

definition timed_arm ::
  "'p resident_env \<Rightarrow> resident_config \<Rightarrow> path \<Rightarrow> (nat \<Rightarrow> path) \<Rightarrow> ((nat \<times> nat \<times> string) \<times> nat) list
     \<Rightarrow> nat \<Rightarrow> nat \<Rightarrow> nat \<times> nat \<Rightarrow> nat \<times> string \<Rightarrow> ('p world, resident_exn, resident_record) st" where
  "timed_arm env cfg binary inputs table round_nr position = (\<lambda>(n, bits) (slot, variant).
     let r = resident_request n bits variant (warmups_of table n bits variant) (xc_reps cfg) in
     st_bind (run_resident_arm env binary (inputs n) r) (\<lambda>payload.
       st_lift (resident_record_of round_nr position slot r payload)))"

definition timed_cell ::
  "'p resident_env \<Rightarrow> resident_config \<Rightarrow> path \<Rightarrow> (nat \<Rightarrow> path) \<Rightarrow> ((nat \<times> nat \<times> string) \<times> nat) list \<Rightarrow> string list
     \<Rightarrow> nat \<Rightarrow> nat \<times> nat \<times> nat \<Rightarrow> ('p world, resident_exn, resident_record list) st" where
  "timed_cell env cfg binary inputs table variants round_nr = (\<lambda>(position, cell).
     st_traverse (timed_arm env cfg binary inputs table round_nr position cell)
       (List.enumerate 0 (variant_order round_nr variants)))"

definition round_order :: "'p resident_env \<Rightarrow> (nat \<times> nat) list \<Rightarrow> nat \<Rightarrow> (nat \<times> nat) list" where
  "round_order env cells round_nr = map ((!) cells) (re_shuffle env ORDER_SEED round_nr (length cells))"

definition timed_round ::
  "'p resident_env \<Rightarrow> resident_config \<Rightarrow> path \<Rightarrow> (nat \<Rightarrow> path) \<Rightarrow> ((nat \<times> nat \<times> string) \<times> nat) list \<Rightarrow> string list
     \<Rightarrow> (nat \<times> nat) list \<Rightarrow> nat \<Rightarrow> ('p world, resident_exn, resident_record list) st" where
  "timed_round env cfg binary inputs table variants cells round_nr =
     st_bind (st_traverse (timed_cell env cfg binary inputs table variants round_nr)
                (List.enumerate 0 (round_order env cells round_nr))) (\<lambda>groups. st_return (concat groups))"

definition timed_rounds ::
  "'p resident_env \<Rightarrow> resident_config \<Rightarrow> path \<Rightarrow> (nat \<Rightarrow> path) \<Rightarrow> ((nat \<times> nat \<times> string) \<times> nat) list \<Rightarrow> string list
     \<Rightarrow> (nat \<times> nat) list \<Rightarrow> ('p world, resident_exn, resident_record list) st" where
  "timed_rounds env cfg binary inputs table variants cells =
     st_bind (st_traverse (timed_round env cfg binary inputs table variants cells) [0..<xc_processes cfg]) (\<lambda>groups.
       st_return (concat groups))"


subsection \<open>The experiment\<close>

text \<open>What the checks before the first process establish.\<close>

record resident_setup =
  st_git :: "(string \<times> json) list"
  st_final :: path
  st_binary :: path
  st_stamp :: stamp
  st_probe :: path
  st_build :: "(string \<times> json) list"
  st_readiness :: "(string \<times> json) list option"

definition resident_target :: "'p resident_env \<Rightarrow> resident_config \<Rightarrow> (string \<times> json) list \<Rightarrow> path" where
  "resident_target env cfg git =
     (case xc_output cfg of
        Some dir \<Rightarrow> dir
      | None \<Rightarrow> snapshot_path (be_root (re_build env)) (text_field git ''code_revision_short'') (xc_kind cfg) (xc_pilot cfg)
                  (re_day env) (re_second env))"

definition build_record_of :: "stamp \<Rightarrow> stamp \<Rightarrow> build_commands \<Rightarrow> string \<Rightarrow> string \<Rightarrow> string \<Rightarrow> string \<Rightarrow> (string \<times> json) list" where
  "build_record_of stamp probe_stamp commands binary_name binary_sha probe_name probe_sha =
     [(''build_stamp'', JObj stamp), (BUILD_RECIPE, JList (map JStr (cb_commands commands))),
      (''probe_build_stamp'', JObj probe_stamp), (PROBE_RECIPE, get_field probe_stamp ''commands''),
      (''sha256'', JObj (dict_set [(binary_name, JStr binary_sha)] probe_name (JStr probe_sha)))]"

definition resident_setup_of :: "'p resident_env \<Rightarrow> resident_config \<Rightarrow> ('p world, resident_exn, resident_setup) st" where
  "resident_setup_of env cfg =
     (let b = re_build env; ops = re_stamps env in
      st_bind (from_world ResidentPy (\<lambda>w. collect_git_provenance (tools env w) ops b (fst w))) (\<lambda>git.
      let target = resident_target env cfg git in
      st_bind (from_world ResidentStore (\<lambda>w. check_snapshot target (git_state_of git) (xc_allow_dirty cfg) (fst w))) (\<lambda>_.
      st_bind (from_world ResidentProvenance (\<lambda>w. find_binary (tools env w) ops b True (Some git) None (fst w))) (\<lambda>(binary, stamp).
      st_bind (probe_path env) (\<lambda>probe_binary.
      st_bind (from_world ResidentStamp (\<lambda>w. verify_stamp ops b probe_binary (identity_of git) False (Some [PROBE_RECIPE]) (fst w))) (\<lambda>probe_stamp.
      st_bind (st_lift (map_sum ResidentPy id (collect_build_commands (be_nt b) stamp))) (\<lambda>commands.
      if cb_commands commands = [] then st_fail (ResidentPy (RuntimeError ''verified CLI build stamp has no compiler commands''))
      else
      st_bind (from_world ResidentPy (\<lambda>w. file_sha256 ops (fst w) binary)) (\<lambda>binary_sha.
      st_bind (from_world ResidentPy (\<lambda>w. file_sha256 ops (fst w) probe_binary)) (\<lambda>probe_sha.
      st_bind (if xc_readiness cfg
               then from_world ResidentPy (\<lambda>w. Inr (Some (probe_readiness_facts (re_exn_text env) (re_probes env (snd w)) (Some (JObj git)))))
               else st_return None) (\<lambda>readiness.
        st_return \<lparr>st_git = git, st_final = target, st_binary = binary, st_stamp = stamp, st_probe = probe_binary,
          st_build = build_record_of stamp probe_stamp commands (last binary) binary_sha (last probe_binary) probe_sha,
          st_readiness = readiness\<rparr>))))))))))"

definition input_path :: "(nat \<times> generated_input) list \<Rightarrow> nat \<Rightarrow> path" where
  "input_path generated n = (case map_of generated n of None \<Rightarrow> [] | Some g \<Rightarrow> gi_path g)"

definition largest_count :: "nat list \<Rightarrow> (resident_exn, nat) result" where
  "largest_count counts =
     (case counts of [] \<Rightarrow> Inl (ResidentPy (ValueError ''max() arg is an empty sequence'')) | n # ns \<Rightarrow> Inr (foldl max n ns))"

definition resident_warm_up :: "'p resident_env \<Rightarrow> resident_config \<Rightarrow> path \<Rightarrow> path \<Rightarrow> nat \<Rightarrow> ('p world, resident_exn, json) st" where
  "resident_warm_up env cfg binary input n = (\<lambda>w.
     case warm_up_gpu (re_fuel env) (re_run env) (re_loads env) (re_clock env w) (native_path env binary) (native_path env input)
            (xc_gpu_seconds cfg) ''reference'' n w of
       None \<Rightarrow> (Inl ResidentFuel, w)
     | Some (Inl e, w) \<Rightarrow> (Inl (ResidentWarmup e), w)
     | Some (Inr k, w) \<Rightarrow> (Inr (JObj (warmup_items (xc_gpu_seconds cfg) (re_elapsed env) (path_stem (last input)) k)), w))"

definition probe_device :: "(string \<times> json) list \<Rightarrow> (resident_exn, (string \<times> json) list) result" where
  "probe_device probe_items =
     (case map_of probe_items ''device'' of
        None \<Rightarrow> Inl (ResidentPy (KeyError ''device''))
      | Some (JObj items) \<Rightarrow> Inr items
      | Some _ \<Rightarrow> Inl (ResidentPy (TypeError ''device'')))"

definition experiment_cells :: "resident_config \<Rightarrow> (nat \<times> nat) list" where
  "experiment_cells cfg = List.product (xc_counts cfg) (xc_bits cfg)"

text \<open>Calibration, rounds, analysis and commit, inside the reserved snapshot.\<close>

definition measure_and_publish ::
  "'p resident_env \<Rightarrow> resident_config \<Rightarrow> string list \<Rightarrow> (resident_run \<Rightarrow> path \<Rightarrow> ('p world, resident_exn, unit) st)
     \<Rightarrow> (nat \<Rightarrow> path) \<Rightarrow> resident_run \<Rightarrow> snapshot \<Rightarrow> ('p world, resident_exn, path) st" where
  "measure_and_publish env cfg variants analyze inputs run snap =
     (let cells = ru_cells run; binary = ru_binary run in
      st_bind (on_file ResidentPy (write_file (partial snap @ [''stream_probe.json'']) (JsonDoc (JObj (ru_probe run))))) (\<lambda>_.
      st_bind (st_traverse (calibrate_arm env cfg binary inputs) (List.product cells variants)) (\<lambda>pairs.
      let table = dict_update [] pairs in
      st_bind (timed_rounds env cfg binary inputs table variants cells) (\<lambda>records.
      st_bind (gpu_state_now env) (\<lambda>gpu_end.
      st_bind (from_world ResidentPy (\<lambda>w. collect_hardware_and_toolchain (tools env w) (re_build env) (re_platform env) (fst w))) (\<lambda>hardware.
      st_bind (analyze (run\<lparr>ru_records := records, ru_warmups := table, ru_gpu_end := gpu_end, ru_hardware := hardware,
                  ru_output := partial snap\<rparr>) (partial snap)) (\<lambda>_.
      st_bind (on_files ResidentStore (commit snap)) (\<lambda>snap. st_return (final snap)))))))))"

definition experiment_in_scratch ::
  "'p resident_env \<Rightarrow> resident_config \<Rightarrow> string list \<Rightarrow> (resident_run \<Rightarrow> path \<Rightarrow> ('p world, resident_exn, unit) st)
     \<Rightarrow> affinity \<Rightarrow> resident_setup \<Rightarrow> ('p world, resident_exn, path) st" where
  "experiment_in_scratch env cfg variants analyze aff su =
     (let cells = experiment_cells cfg in
      st_bind (gpu_state_now env) (\<lambda>gpu_start.
      st_bind (on_files ResidentPy (generate_inputs (re_inputs env) (xc_counts cfg) (re_scratch env) DEFAULT_INPUT_SEED)) (\<lambda>generated.
      st_bind (if 1 < length variants then verify_variant_records env (st_binary su) (input_path generated) cells variants
               else st_return []) (\<lambda>identity.
      st_bind (st_lift (largest_count (xc_counts cfg))) (\<lambda>n.
      st_bind (resident_warm_up env cfg (st_binary su) (input_path generated n) n) (\<lambda>warm.
      st_bind (gpu_state_now env) (\<lambda>probe_start.
      st_bind (run_probe env (st_probe su)) (\<lambda>probe_items.
      st_bind (gpu_state_now env) (\<lambda>probe_end.
      st_bind (st_lift (probe_device probe_items)) (\<lambda>device.
      st_bind (on_files ResidentStore (create_snapshot (st_final su) (git_state_of (st_git su)) (xc_allow_dirty cfg))) (\<lambda>snap.
        measure_and_publish env cfg variants analyze (input_path generated)
          \<lparr>ru_git = st_git su, ru_stamp = st_stamp su, ru_binary = st_binary su, ru_build = st_build su, ru_hardware = [],
           ru_probe = probe_items, ru_device = device, ru_gpu_start = gpu_start, ru_probe_start = probe_start,
           ru_probe_end = probe_end, ru_gpu_end = JNull, ru_warm_up = warm, ru_readiness = st_readiness su,
           ru_identity = identity, ru_inputs = generated, ru_cells = cells, ru_records = [], ru_warmups = [],
           ru_processes = xc_processes cfg, ru_reps = xc_reps cfg, ru_in_process_seconds = xc_in_process_seconds cfg,
           ru_mask = aff_mask aff, ru_excluded = excluded_cpus aff, ru_evidence = xc_evidence cfg, ru_output = []\<rparr> snap)))))))))))"

text \<open>\<open>tempfile.TemporaryDirectory\<close>: the directory goes away however the body ends.\<close>

definition with_scratch :: "path \<Rightarrow> ('p world, resident_exn, 'a) st \<Rightarrow> ('p world, resident_exn, 'a) st" where
  "with_scratch dir body =
     st_bind (on_file ResidentPy (mkdir dir)) (\<lambda>_ w. case body w of (res, w) \<Rightarrow> (res, (remove_tree dir (fst w), snd w)))"

definition resident_body ::
  "'p resident_env \<Rightarrow> resident_config \<Rightarrow> string list \<Rightarrow> (resident_run \<Rightarrow> path \<Rightarrow> ('p world, resident_exn, unit) st)
     \<Rightarrow> affinity \<Rightarrow> ('p world, resident_exn, path) st" where
  "resident_body env cfg variants analyze aff =
     st_bind (resident_setup_of env cfg) (\<lambda>su.
       with_scratch (re_scratch env) (experiment_in_scratch env cfg variants analyze aff su))"

definition in_world :: "('p world, 'x, 'a) st \<Rightarrow> ('p world host_state, 'x, 'a) st" where
  "in_world m = (\<lambda>h. case m (hs_world h) of (res, w) \<Rightarrow> (res, h\<lparr>hs_world := w\<rparr>))"

definition run_resident_experiment ::
  "'p resident_env \<Rightarrow> resident_config \<Rightarrow> string list \<Rightarrow> (resident_run \<Rightarrow> path \<Rightarrow> ('p world, resident_exn, unit) st)
     \<Rightarrow> ('p world host_state, resident_exn, path) st" where
  "run_resident_experiment env cfg variants analyze =
     (if variants = [] then st_fail (ResidentPy (ValueError ''a resident experiment needs at least one K1 variant''))
      else benchmark_process_affinity ResidentPy (\<lambda>aff. in_world (resident_body env cfg variants analyze aff)))"


subsection \<open>The records of a run\<close>

lemma from_world_Inr [result_simps]: "from_world raise f w = (Inr x, w') \<longleftrightarrow> f w = Inr x \<and> w' = w"
  by (auto simp: from_world_def split: sum.splits)

lemma map_sum_Inr [simp]: "map_sum f id m = Inr x \<longleftrightarrow> m = Inr x"
  by (cases m) auto

definition record_key :: "resident_record \<Rightarrow> nat \<times> (nat \<times> nat) \<times> string" where
  "record_key x = (xr_process x, (xr_count x, xr_bits x), xr_variant x)"

text \<open>A record with one sample per repetition, in the slot of its round's order.\<close>

definition sampled :: "string list \<Rightarrow> nat \<Rightarrow> resident_record \<Rightarrow> bool" where
  "sampled variants reps x \<longleftrightarrow>
     length (xr_samples x) = reps \<and> length (xr_k1 x) = reps \<and> length (xr_k2 x) = reps \<and> length (xr_k3 x) = reps
     \<and> xr_slot x < length variants \<and> variant_order (xr_process x) variants ! xr_slot x = xr_variant x"

lemma variant_order_perm:
  "mset (map f (variant_order r variants)) = mset (map f variants)" "length (variant_order r variants) = length variants"
  by (simp_all add: variant_order_def rev_map [symmetric])

lemma resident_arm_response:
  assumes "run_resident_arm env binary input r w = (Inr v, w')"
  shows "length (vr_samples v) = rq_reps r" "map_of (vr_stages v) k = Some xs \<Longrightarrow> length xs = rq_reps r"
proof -
  obtain payload where v: "validate_bench_response payload r = Inr v"
    using assms
    by (auto simp: run_resident_arm_def run_bench_process_def split: prod.splits sum.splits option.splits if_splits
        dest!: read_response_accepted)
  show "length (vr_samples v) = rq_reps r" by (rule validate_parts [OF v])
  have "\<forall>(f, xs) \<in> set (vr_stages v). length xs = rq_reps r" by (rule validate_parts [OF v]) auto
  then show "map_of (vr_stages v) k = Some xs \<Longrightarrow> length xs = rq_reps r" by (auto dest: map_of_SomeD)
qed

lemma timed_arm_record:
  assumes "timed_arm env cfg binary inputs table r position cell (slot, variant) w = (Inr x, w')"
  shows "record_key x = (r, cell, variant) \<and> xr_slot x = slot \<and> length (xr_samples x) = xc_reps cfg
    \<and> length (xr_k1 x) = xc_reps cfg \<and> length (xr_k2 x) = xc_reps cfg \<and> length (xr_k3 x) = xc_reps cfg"
proof -
  obtain n bits where cell: "cell = (n, bits)" by (cases cell)
  let ?r = "resident_request n bits variant (warmups_of table n bits variant) (xc_reps cfg)"
  obtain payload w1 where a: "run_resident_arm env binary (inputs n) ?r w = (Inr payload, w1)"
    and x: "resident_record_of r position slot ?r payload = Inr x"
    using assms by (auto simp: timed_arm_def cell Let_def st_lift_Inr elim!: st_bindE)
  note l = resident_arm_response [OF a]
  show ?thesis using x l
    by (auto simp: resident_record_of_def stage_values_def result_simps record_key_def resident_request_def cell split: option.splits)
qed

lemma timed_cell_records:
  assumes "timed_cell env cfg binary inputs table variants r (position, cell) w = (Inr xs, w')"
  shows "map record_key xs = map (\<lambda>v. (r, cell, v)) (variant_order r variants)"
    and "\<forall>x \<in> set xs. sampled variants (xc_reps cfg) x"
proof -
  let ?vs = "variant_order r variants"
  have "list_all2 (\<lambda>(slot, v) x. record_key x = (r, cell, v) \<and> xr_slot x = slot \<and> length (xr_samples x) = xc_reps cfg
      \<and> length (xr_k1 x) = xc_reps cfg \<and> length (xr_k2 x) = xc_reps cfg \<and> length (xr_k3 x) = xc_reps cfg)
      (List.enumerate 0 ?vs) xs"
    using assms unfolding timed_cell_def prod.case
    by (rule st_traverse_all2) (auto dest: timed_arm_record)
  then have n: "length xs = length ?vs" "\<And>i. i < length ?vs \<Longrightarrow> record_key (xs ! i) = (r, cell, ?vs ! i) \<and> xr_slot (xs ! i) = i
      \<and> length (xr_samples (xs ! i)) = xc_reps cfg \<and> length (xr_k1 (xs ! i)) = xc_reps cfg
      \<and> length (xr_k2 (xs ! i)) = xc_reps cfg \<and> length (xr_k3 (xs ! i)) = xc_reps cfg"
    by (auto simp: list_all2_conv_all_nth nth_enumerate_eq)
  then show "map record_key xs = map (\<lambda>v. (r, cell, v)) ?vs" by (intro nth_equalityI) auto
  show "\<forall>x \<in> set xs. sampled variants (xc_reps cfg) x"
  proof
    fix x assume "x \<in> set xs"
    then obtain i where "i < length xs" "x = xs ! i" by (metis in_set_conv_nth)
    then show "sampled variants (xc_reps cfg) x"
      using n(1) n(2) [of i] by (auto simp: sampled_def record_key_def variant_order_perm)
  qed
qed

lemma mset_concat_all2:
  "list_all2 (\<lambda>x ys. mset (f ys) = mset (g x)) xs yss \<Longrightarrow> mset (concat (map f yss)) = mset (concat (map g xs))"
  by (induction rule: list_all2_induct) auto

lemma all_concat: "list_all2 (\<lambda>x ys. \<forall>y \<in> set ys. P y) xs yss \<Longrightarrow> \<forall>y \<in> set (concat yss). P y"
  by (induction rule: list_all2_induct) auto

lemma timed_round_records:
  assumes "timed_round env cfg binary inputs table variants cells r w = (Inr xs, w')"
    and perm: "\<And>s r n. mset (re_shuffle env s r n) = mset [0..<n]"
  shows "mset (map record_key xs) = mset (map (Pair r) (List.product cells variants))"
    and "\<forall>x \<in> set xs. sampled variants (xc_reps cfg) x"
proof -
  let ?order = "round_order env cells r"
  obtain groups where g: "st_traverse (timed_cell env cfg binary inputs table variants r) (List.enumerate 0 ?order) w = (Inr groups, w')"
    and xs: "xs = concat groups"
    using assms(1) by (auto simp: timed_round_def st_return_Inr elim!: st_bindE)
  have k: "list_all2 (\<lambda>pc ys. mset (map record_key ys) = mset (map (\<lambda>v. (r, snd pc, v)) variants)) (List.enumerate 0 ?order) groups"
    by (rule st_traverse_all2 [OF g]) (auto dest!: timed_cell_records(1) simp: variant_order_perm(1) simp del: mset_map)
  have "mset (map record_key xs) = mset (concat (map (\<lambda>pc. map (\<lambda>v. (r, snd pc, v)) variants) (List.enumerate 0 ?order)))"
    using mset_concat_all2 [OF k] by (simp add: xs map_concat)
  also have "\<dots> = mset (concat (map (\<lambda>c. map (\<lambda>v. (r, c, v)) variants) ?order))"
  proof -
    have "map (\<lambda>pc. map (\<lambda>v. (r, snd pc, v)) variants) (List.enumerate 0 ?order)
        = map (\<lambda>c. map (\<lambda>v. (r, c, v)) variants) (map snd (List.enumerate 0 ?order))" by (simp only: map_map o_def)
    then show ?thesis by (simp only: map_snd_enumerate)
  qed
  also have "\<dots> = mset (concat (map (\<lambda>c. map (\<lambda>v. (r, c, v)) variants) cells))"
  proof -
    have "mset ?order = mset cells"
    proof -
      have "mset ?order = image_mset ((!) cells) (mset (re_shuffle env ORDER_SEED r (length cells)))" by (simp add: round_order_def)
      also have "\<dots> = mset (map ((!) cells) [0..<length cells])" by (simp only: perm mset_map)
      finally show ?thesis by (simp only: map_nth)
    qed
    then show ?thesis by (simp only: mset_concat sum_mset_sum_list [symmetric] mset_map map_map)
  qed
  also have "concat (map (\<lambda>c. map (\<lambda>v. (r, c, v)) variants) cells) = map (Pair r) (List.product cells variants)"
    by (induction cells) auto
  finally show "mset (map record_key xs) = mset (map (Pair r) (List.product cells variants))" .
  have "list_all2 (\<lambda>pc ys. \<forall>x \<in> set ys. sampled variants (xc_reps cfg) x) (List.enumerate 0 ?order) groups"
    by (rule st_traverse_all2 [OF g]) (metis surj_pair timed_cell_records(2))
  then show "\<forall>x \<in> set xs. sampled variants (xc_reps cfg) x" unfolding xs by (rule all_concat)
qed

lemma timed_rounds_records:
  assumes "timed_rounds env cfg binary inputs table variants cells w = (Inr xs, w')"
    and perm: "\<And>s r n. mset (re_shuffle env s r n) = mset [0..<n]"
  shows "mset (map record_key xs) = mset (List.product [0..<xc_processes cfg] (List.product cells variants))"
    and "\<forall>x \<in> set xs. sampled variants (xc_reps cfg) x"
proof -
  obtain groups where g: "st_traverse (timed_round env cfg binary inputs table variants cells) [0..<xc_processes cfg] w = (Inr groups, w')"
    and xs: "xs = concat groups"
    using assms(1) by (auto simp: timed_rounds_def st_return_Inr elim!: st_bindE)
  have k: "list_all2 (\<lambda>r ys. mset (map record_key ys) = mset (map (Pair r) (List.product cells variants))) [0..<xc_processes cfg] groups"
    by (rule st_traverse_all2 [OF g]) (erule timed_round_records(1) [OF _ perm])
  have "mset (map record_key xs) = mset (concat (map (\<lambda>r. map (Pair r) (List.product cells variants)) [0..<xc_processes cfg]))"
    using mset_concat_all2 [OF k] by (simp add: xs map_concat)
  also have "concat (map (\<lambda>r. map (Pair r) ys) rs) = List.product rs ys" for rs :: "nat list" and ys :: "((nat \<times> nat) \<times> string) list"
    by (induction rs) auto
  finally show "mset (map record_key xs) = mset (List.product [0..<xc_processes cfg] (List.product cells variants))" .
  have "list_all2 (\<lambda>r ys. \<forall>x \<in> set ys. sampled variants (xc_reps cfg) x) [0..<xc_processes cfg] groups"
    by (rule st_traverse_all2 [OF g]) (erule timed_round_records(2) [OF _ perm])
  then show "\<forall>x \<in> set xs. sampled variants (xc_reps cfg) x" unfolding xs by (rule all_concat)
qed


subsection \<open>A finished experiment\<close>

definition same_records :: "string list \<Rightarrow> nat \<times> nat \<times> (string \<times> string) list \<Rightarrow> bool" where
  "same_records variants item \<longleftrightarrow> (\<exists>d. \<forall>v \<in> set variants. map_of (snd (snd item)) v = Some d)"

lemma with_scratch_Inr:
  assumes "with_scratch dir body w = (Inr x, w')"
  obtains w1 w2 where "body w1 = (Inr x, w2)" "w' = (remove_tree dir (fst w2), snd w2)"
  using assms by (auto simp: with_scratch_def elim!: st_bindE split: prod.splits)

lemma dict_update_keys: "set (map fst (dict_update items new)) = set (map fst items) \<union> set (map fst new)"
  unfolding dict_update_def
proof (induction new arbitrary: items)
  case (Cons kv new)
  then show ?case using dict_set_keys [of items "fst kv" "snd kv"] by (cases kv) auto
qed simp

lemma verify_cell_same:
  assumes "verify_cell env binary inputs variants cell w = (Inr item, w')"
  shows "(fst item, fst (snd item)) = cell \<and> same_records variants item"
proof -
  obtain n bits where cell: "cell = (n, bits)" by (cases cell)
  obtain pairs w1 where t: "st_traverse (\<lambda>variant. st_bind (record_hash env binary (inputs n) bits (re_scratch env @ [''record.msq'']) variant)
      (\<lambda>h. st_return (variant, h))) variants w = (Inr pairs, w1)"
    and e: "item = (n, bits, dict_update [] pairs)" "card (set (map snd (dict_update [] pairs))) = 1"
    using assms by (auto simp: verify_cell_def cell Let_def st_return_Inr st_fail_Inr elim!: st_bindE split: if_splits)
  have "list_all2 (\<lambda>v p. fst p = v) variants pairs"
    by (rule st_traverse_all2 [OF t]) (auto simp: st_return_Inr elim!: st_bindE)
  then have "map fst pairs = variants" by (auto simp: list_all2_conv_all_nth intro: nth_equalityI)
  moreover obtain d where d: "set (map snd (dict_update [] pairs)) = {d}" using e(2) by (meson card_1_singletonE)
  ultimately have "map_of (dict_update [] pairs) v = Some d" if "v \<in> set variants" for v
  proof -
    have "v \<in> set (map fst (dict_update [] pairs))" using \<open>map fst pairs = variants\<close> that by (simp add: dict_update_keys del: set_map)
    then have "map_of (dict_update [] pairs) v \<noteq> None" by (simp add: map_of_eq_None_iff)
    then obtain x where "map_of (dict_update [] pairs) v = Some x" by blast
    moreover from this have "x = d" using d by (metis image_eqI list.set_map map_of_SomeD singletonD snd_conv)
    ultimately show ?thesis by simp
  qed
  then show ?thesis by (auto simp: e(1) cell same_records_def)
qed

lemma verify_variants_same:
  assumes "verify_variant_records env binary inputs cells variants w = (Inr identity, w')"
  shows "map (\<lambda>e. (fst e, fst (snd e))) identity = cells \<and> list_all (same_records variants) identity"
proof -
  have "list_all2 (\<lambda>c e. (fst e, fst (snd e)) = c \<and> same_records variants e) cells identity"
    using assms unfolding verify_variant_records_def by (rule st_traverse_all2) (rule verify_cell_same)
  then show ?thesis by (auto simp: list_all2_conv_all_nth list_all_length intro!: nth_equalityI)
qed

text \<open>
  What a finished run gives its analysis: a verified binary, one identical record per cell for all
  variants, and one sampled record per round, cell and variant.
\<close>

definition complete_run :: "'p resident_env \<Rightarrow> resident_config \<Rightarrow> string list \<Rightarrow> resident_run \<Rightarrow> bool" where
  "complete_run env cfg variants run \<longleftrightarrow>
     ru_cells run = experiment_cells cfg
     \<and> (\<exists>fs. verify_stamp (re_stamps env) (re_build env) (ru_binary run) (identity_of (ru_git run)) True (Some [''build-cuda'']) fs
           = Inr (ru_stamp run))
     \<and> (1 < length variants \<longrightarrow> map (\<lambda>e. (fst e, fst (snd e))) (ru_identity run) = ru_cells run
           \<and> list_all (same_records variants) (ru_identity run))
     \<and> mset (map record_key (ru_records run)) = mset (List.product [0..<xc_processes cfg] (List.product (ru_cells run) variants))
     \<and> list_all (sampled variants (xc_reps cfg)) (ru_records run)"

lemma measured_run:
  assumes "measure_and_publish env cfg variants analyze inputs run snap w = (Inr target, w')"
    and perm: "\<And>s r n. mset (re_shuffle env s r n) = mset [0..<n]"
  obtains records table gpu_end hardware w1 w2 snap' where
    "analyze (run\<lparr>ru_records := records, ru_warmups := table, ru_gpu_end := gpu_end, ru_hardware := hardware,
        ru_output := partial snap\<rparr>) (partial snap) w1 = (Inr (), w2)"
    "mset (map record_key records) = mset (List.product [0..<xc_processes cfg] (List.product (ru_cells run) variants))"
    "list_all (sampled variants (xc_reps cfg)) records"
    "commit snap (fst w2) = Inr (snap', fst w')" "target = final snap'"
proof -
  obtain table records gpu_end hardware w0 w0' w1 w2 snap' where
      r: "timed_rounds env cfg (ru_binary run) inputs table variants (ru_cells run) w0 = (Inr records, w0')"
    and a: "analyze (run\<lparr>ru_records := records, ru_warmups := table, ru_gpu_end := gpu_end, ru_hardware := hardware,
        ru_output := partial snap\<rparr>) (partial snap) w1 = (Inr (), w2)"
    and c: "on_files ResidentStore (commit snap) w2 = (Inr snap', w')" and t: "target = final snap'"
    using assms(1) by (auto simp: measure_and_publish_def Let_def st_return_Inr elim!: st_bindE)
  show thesis using that [OF a timed_rounds_records(1) [OF r perm] _ _ t] timed_rounds_records(2) [OF r perm] c
    by (simp add: on_files_Inr list_all_iff)
qed

lemma scratch_run:
  assumes "experiment_in_scratch env cfg variants analyze aff su w = (Inr target, w')"
  obtains run inputs snap w1 where "ru_cells run = experiment_cells cfg" "ru_stamp run = st_stamp su"
    "ru_git run = st_git su" "ru_binary run = st_binary su"
    "1 < length variants \<longrightarrow> map (\<lambda>e. (fst e, fst (snd e))) (ru_identity run) = experiment_cells cfg
       \<and> list_all (same_records variants) (ru_identity run)"
    "measure_and_publish env cfg variants analyze inputs run snap w1 = (Inr target, w')"
proof -
  obtain gpu_start generated identity warm probe_start probe_items probe_end device snap wa wb wc where
    i: "(if 1 < length variants then verify_variant_records env (st_binary su) (input_path generated) (experiment_cells cfg) variants
        else st_return []) wa = (Inr identity, wb)"
    and m: "measure_and_publish env cfg variants analyze (input_path generated)
          \<lparr>ru_git = st_git su, ru_stamp = st_stamp su, ru_binary = st_binary su, ru_build = st_build su, ru_hardware = [],
           ru_probe = probe_items, ru_device = device, ru_gpu_start = gpu_start, ru_probe_start = probe_start,
           ru_probe_end = probe_end, ru_gpu_end = JNull, ru_warm_up = warm, ru_readiness = st_readiness su,
           ru_identity = identity, ru_inputs = generated, ru_cells = experiment_cells cfg, ru_records = [], ru_warmups = [],
           ru_processes = xc_processes cfg, ru_reps = xc_reps cfg, ru_in_process_seconds = xc_in_process_seconds cfg,
           ru_mask = aff_mask aff, ru_excluded = excluded_cpus aff, ru_evidence = xc_evidence cfg, ru_output = []\<rparr> snap wc
        = (Inr target, w')"
    using assms unfolding experiment_in_scratch_def Let_def by (elim st_bindE)
  have "1 < length variants \<longrightarrow> map (\<lambda>e. (fst e, fst (snd e))) identity = experiment_cells cfg
       \<and> list_all (same_records variants) identity"
    using i by (auto dest: verify_variants_same)
  then show thesis by (intro that [OF _ _ _ _ _ m]) simp_all
qed

lemma setup_verified:
  assumes "resident_setup_of env cfg w = (Inr su, w')"
  shows "\<exists>fs. verify_stamp (re_stamps env) (re_build env) (st_binary su) (identity_of (st_git su)) True (Some [''build-cuda'']) fs
      = Inr (st_stamp su)"
proof -
  have "\<exists>po fs. find_binary po (re_stamps env) (re_build env) True (Some (st_git su)) None fs = Inr (st_binary su, st_stamp su)"
    using assms by (auto simp: resident_setup_of_def Let_def st_return_Inr st_fail_Inr from_world_Inr elim!: st_bindE split: if_splits) blast+
  then obtain po fs where "find_binary po (re_stamps env) (re_build env) True (Some (st_git su)) None fs = Inr (st_binary su, st_stamp su)"
    by blast
  then show ?thesis using find_binary_verified(1) by fastforce
qed


subsection \<open>A small experiment\<close>

text \<open>One cell, both variants, one round, on a machine whose tools answer at once.\<close>

definition sample_tools :: process_ops where
  "sample_tools = \<lparr>po_run = (\<lambda>args fs. Inr \<lparr>fin_code = 0, fin_out = (if hd args = ''gcc'' then ''gcc'' else []), fin_err = []\<rparr>),
     po_loads = (\<lambda>s. Inr (JObj [(''device'', JObj [])])), po_now = []\<rparr>"

definition built :: "string \<Rightarrow> string \<Rightarrow> fs \<Rightarrow> fs" where
  "built name recipe fs =
     (case write_stamp sample_stamps sample_build [''build'', name] recipe (put [''build'', name] (File (Bytes [7])) fs) of
        Inl e \<Rightarrow> fs | Inr (stamp, fs) \<Rightarrow> fs)"

definition built_tree :: fs where
  "built_tree = built ''stream_probe'' ''build-stream-probe'' (built ''stoquant'' ''build-cuda'' [([''build''], Dir)])"

definition sample_payload :: "string \<Rightarrow> (string \<times> json) list" where
  "sample_payload variant =
     (''configuration'', JObj (expected_items (resident_request 16 8 variant 10 10) ''resident'' ''none'' 256 0))
     # map (\<lambda>k. (k, JList (replicate 10 (JFloat fp_zero)))) [''samples_ms'', ''k1_ms'', ''k2_ms'', ''k3_ms'']"

definition sample_device :: "nat world \<Rightarrow> string list \<Rightarrow> proc_outcome \<times> nat world" where
  "sample_device w argv =
     (if argv ! 1 = ''bench'' then (Completed 0 (if ''optimized'' \<in> set argv then ''o'' else ''r'') [], w)
      else (Completed 0 [] [], (put [''t'', ''record.msq''] (File (Bytes [3])) (fst w), snd w)))"

definition sample_resident :: "nat resident_env" where
  "sample_resident = \<lparr>re_run = sample_device,
     re_loads = (\<lambda>s. Some (JObj (sample_payload (if s = ''o'' then ''optimized'' else ''reference'')))),
     re_clock = (\<lambda>w i. fp_zero), re_fuel = 1, re_elapsed = (\<lambda>n. fp_zero), re_process = (\<lambda>p. sample_tools),
     re_probes = mx_probes idle_matrix, re_exn_text = (\<lambda>e. []), re_stamps = sample_stamps, re_build = sample_build,
     re_platform = \<lparr>pn_processor = [], pn_identifier = None, pn_machine = []\<rparr>, re_inputs = sample_ops,
     re_shuffle = (\<lambda>s r n. [0..<n]), re_day = [], re_second = [], re_scratch = [''t'']\<rparr>"

definition sample_config :: resident_config where
  "sample_config = \<lparr>xc_kind = ''k1-ab'', xc_counts = [16], xc_bits = [8], xc_processes = 1, xc_reps = 10, xc_gpu_seconds = fp_zero,
     xc_in_process_seconds = fp_zero, xc_output = Some [''s''], xc_allow_dirty = False, xc_pilot = False, xc_evidence = True,
     xc_readiness = False\<rparr>"

lemma sample_experiment:
  "fst (run_resident_experiment sample_resident sample_config DEFAULT_VARIANTS (\<lambda>run out. st_return ())
     \<lparr>hs_mask = 15, hs_world = (built_tree, 0)\<rparr>) = Inr [''s'']"
  by code_simp

lemma sample_shuffle: "mset (re_shuffle sample_resident s r n) = mset [0..<n]"
  by (simp add: sample_resident_def)


end
