(* ===== verification/K1.thy ===== *)
theory K1
  imports Resident
begin

text \<open>
  The K1 experiments: bandwidth of the reference scale reduction (\<open>src/stoquant/k1_bandwidth.py\<close>) and the
  same-tree comparison of the reference and the optimized K1 (\<open>src/stoquant/k1_ab.py\<close>): launch counts,
  bandwidth figures, the summary of a cell and of an arm, the keep rule, and the analyses that write the
  documents of a resident run. NumPy, the text of a float, the time and the drawing of F5 are arguments.
  The lemmas bound the launch counts and say what the keep rule decides.
\<close>

definition REDUCTION_THREADS :: nat where "REDUCTION_THREADS = 256"
definition BYTES_PER_VALUE :: nat where "BYTES_PER_VALUE = 4"
definition K1_INPUT_READS :: nat where "K1_INPUT_READS = 2"
definition DRAM_L2_MULTIPLE :: int where "DRAM_L2_MULTIPLE = 4"
definition TREE_SPAN :: nat where "TREE_SPAN = 2048"
definition VARIANTS :: "string list" where "VARIANTS = [''reference'', ''optimized'']"
definition K1_AB_PILOT_COUNTS :: "nat list" where "K1_AB_PILOT_COUNTS = [2 ^ 10, 2 ^ 14, 2 ^ 20, 2 ^ 25, 2 ^ 26]"
definition PILOT_PROCESSES :: nat where "PILOT_PROCESSES = 2"
definition DEFAULT_IN_PROCESS_WARMUP_SECONDS :: fp where "DEFAULT_IN_PROCESS_WARMUP_SECONDS = fp_of_nat 1"
definition ANALYSED_STAGES :: "string list" where "ANALYSED_STAGES = [''k2_ms'', ''k3_ms'', ''samples_ms'']"

definition MEDIAN_KEYS :: "string \<Rightarrow> string" where
  "MEDIAN_KEYS stage =
     (if stage = ''k2_ms'' then ''k2_median_ms'' else if stage = ''k3_ms'' then ''k3_median_ms'' else ''total_median_ms'')"

subsection \<open>Launch counts\<close>

definition block_count :: "nat \<Rightarrow> nat" where
  "block_count n = nat (- (- int n div int REDUCTION_THREADS))"

text \<open>The doubling loop, which starts from one: the padded size and the number of steps.\<close>

function pad_up :: "nat \<Rightarrow> nat \<Rightarrow> nat \<Rightarrow> nat \<times> nat" where
  "pad_up blocks padded levels =
     (if padded < blocks \<and> 0 < padded then pad_up blocks (2 * padded) (Suc levels) else (padded, levels))"
  by pat_completeness auto
termination by (relation "measure (\<lambda>(blocks, padded, levels). blocks - padded)") auto

declare pad_up.simps [simp del]

definition k1_launch_count :: "nat \<Rightarrow> nat" where
  "k1_launch_count n = 4 + snd (pad_up (block_count n) 1 0)"

function tree_passes :: "nat \<Rightarrow> nat \<Rightarrow> nat" where
  "tree_passes active launches =
     (if 1 < active then tree_passes (active div min active TREE_SPAN) (Suc launches) else launches)"
  by pat_completeness auto
termination by (relation "measure fst") (auto simp: TREE_SPAN_def)

declare tree_passes.simps [simp del]

definition optimized_launch_count :: "nat \<Rightarrow> nat" where
  "optimized_launch_count n = tree_passes (fst (pad_up (block_count n) 1 0)) 4"

subsection \<open>Bandwidth\<close>

definition k1_min_bytes :: "nat \<Rightarrow> nat" where
  "k1_min_bytes n = K1_INPUT_READS * BYTES_PER_VALUE * n"

text \<open>A Python integer as an operand of float arithmetic.\<close>

definition int_float :: "int \<Rightarrow> (py_exn, fp) result" where
  "int_float z =
     (case fp_of_rat binary64 False (of_int z) of
        FInf s \<Rightarrow> Inl (OverflowError ''int too large to convert to float'')
      | x \<Rightarrow> Inr x)"

definition theoretical_peak_gbps :: "int \<Rightarrow> int \<Rightarrow> (py_exn, fp) result" where
  "theoretical_peak_gbps clock_khz bus_bits =
     bindE (int_float clock_khz) (\<lambda>clock.
     bindE (int_float bus_bits) (\<lambda>bus.
     let doubled = fp_mul binary64 (fp_of_nat 2) clock;
         bits = fp_mul binary64 (fp_mul binary64 doubled (fp_of_nat 1000)) bus
     in Inr (fp_div binary64 (fp_div binary64 bits (fp_of_nat 8)) (fp_of_nat (10 ^ 9)))))"

definition regime_for_bytes :: "int \<Rightarrow> int \<Rightarrow> string" where
  "regime_for_bytes size_bytes l2_bytes =
     (if DRAM_L2_MULTIPLE * l2_bytes \<le> size_bytes then ''dram''
      else if l2_bytes < size_bytes then ''transitional'' else ''l2-resident'')"

definition regime :: "nat \<Rightarrow> int \<Rightarrow> string" where
  "regime n l2_bytes = regime_for_bytes (int (n * BYTES_PER_VALUE)) l2_bytes"

text \<open>Attributes of the device and of a probe size: integers, and a bandwidth that is a number.\<close>

definition int_item :: "(string \<times> json) list \<Rightarrow> string \<Rightarrow> (py_exn, int) result" where
  "int_item items k =
     (case map_of items k of None \<Rightarrow> Inl (KeyError k) | Some (JInt z) \<Rightarrow> Inr z | Some _ \<Rightarrow> Inl (TypeError k))"

definition float_item :: "(string \<times> json) list \<Rightarrow> string \<Rightarrow> (py_exn, fp) result" where
  "float_item items k =
     (case map_of items k of
        None \<Rightarrow> Inl (KeyError k)
      | Some v \<Rightarrow> if is_number v then Inr (sample_value v) else Inl (TypeError k))"

record probe_size =
  pz_count :: int
  pz_bytes :: int
  pz_gbps :: fp

definition read_probe_size :: "json \<Rightarrow> (py_exn, probe_size) result" where
  "read_probe_size v =
     (case v of
        JObj items \<Rightarrow>
          bindE (int_item items ''bytes'') (\<lambda>b.
          bindE (float_item items ''best_gbps'') (\<lambda>g.
          bindE (int_item items ''count'') (\<lambda>n. Inr \<lparr>pz_count = n, pz_bytes = b, pz_gbps = g\<rparr>)))
      | _ \<Rightarrow> Inl (TypeError ''sizes''))"

text \<open>Python's \<open>max\<close> with a key keeps the first greatest element.\<close>

definition best_size :: "probe_size \<Rightarrow> probe_size list \<Rightarrow> probe_size" where
  "best_size s sizes = foldl (\<lambda>m x. if pz_gbps m < pz_gbps x then x else m) s sizes"

definition probe_ceiling :: "(string \<times> json) list \<Rightarrow> int \<Rightarrow> (py_exn, probe_size) result" where
  "probe_ceiling probe_items l2_bytes =
     (case map_of probe_items ''sizes'' of
        Some (JList vs) \<Rightarrow>
          bindE (traverse read_probe_size vs) (\<lambda>sizes.
            case filter (\<lambda>s. regime_for_bytes (pz_bytes s) l2_bytes = ''dram'') sizes of
              [] \<Rightarrow> Inl (ValueError ''the probe has no size of at least 4x L2; raise --max-exp'')
            | s # ss \<Rightarrow> Inr (best_size s ss))
      | Some _ \<Rightarrow> Inl (TypeError ''sizes'')
      | None \<Rightarrow> Inl (KeyError ''sizes''))"

subsection \<open>The summary of a cell\<close>

record cell_summary =
  kc_count :: nat
  kc_bits :: nat
  kc_regime :: string
  kc_launches :: nat
  kc_min_bytes :: nat
  kc_k1 :: case_stats
  kc_effective :: fp
  kc_of_peak :: "fp option"
  kc_of_ceiling :: "fp option"
  kc_ideal_ms :: "fp option"
  kc_headroom :: "fp option"
  kc_medians :: "(string \<times> fp) list"

definition device_peak :: "(string \<times> json) list \<Rightarrow> (py_exn, fp) result" where
  "device_peak device =
     bindE (int_item device ''memory_clock_khz'') (\<lambda>clock.
     bindE (int_item device ''bus_width_bits'') (\<lambda>bus. theoretical_peak_gbps clock bus))"

definition when_dram :: "bool \<Rightarrow> (py_exn, fp) result \<Rightarrow> (py_exn, fp option) result" where
  "when_dram in_dram v = (if in_dram then map_sum id Some v else Inr None)"

definition summarize_cell ::
  "numpy_ops \<Rightarrow> nat \<Rightarrow> nat \<Rightarrow> fp list list \<Rightarrow> (string \<times> fp list) list \<Rightarrow> (string \<times> json) list \<Rightarrow> fp
     \<Rightarrow> (py_exn, cell_summary) result" where
  "summarize_cell np n bits trial_k1_samples stage_trial_medians device ceiling_gbps =
     bindE (compute_case_statistics np trial_k1_samples) (\<lambda>k1.
     bindE (case case_median k1 of None \<Rightarrow> Inl (KeyError ''median_ms'') | Some m \<Rightarrow> Inr m) (\<lambda>k1_median.
     bindE (int_float (int (k1_min_bytes n))) (\<lambda>min_bytes.
     bindE (py_fdiv min_bytes k1_median) (\<lambda>per_ms.
     bindE (int_item device ''l2_bytes'') (\<lambda>l2_bytes.
     let effective = fp_div binary64 per_ms (fp_of_nat (10 ^ 6));
         cell_regime = regime n l2_bytes;
         in_dram = (cell_regime = ''dram'')
     in
     bindE (device_peak device) (\<lambda>peak.
     bindE (py_fdiv min_bytes ceiling_gbps) (\<lambda>ideal.
     let ideal_ms = fp_div binary64 ideal (fp_of_nat (10 ^ 6)) in
     bindE (when_dram in_dram (py_fdiv effective peak)) (\<lambda>of_peak.
     bindE (when_dram in_dram (py_fdiv effective ceiling_gbps)) (\<lambda>of_ceiling.
     bindE (when_dram in_dram (py_fdiv k1_median ideal_ms)) (\<lambda>headroom.
     bindE (traverse (\<lambda>(stage, values). bindE (py_median values) (\<lambda>m. Inr (MEDIAN_KEYS stage, m))) stage_trial_medians) (\<lambda>medians.
       Inr \<lparr>kc_count = n, kc_bits = bits, kc_regime = cell_regime, kc_launches = k1_launch_count n,
         kc_min_bytes = k1_min_bytes n, kc_k1 = k1, kc_effective = effective, kc_of_peak = of_peak,
         kc_of_ceiling = of_ceiling, kc_ideal_ms = (if in_dram then Some ideal_ms else None),
         kc_headroom = headroom, kc_medians = medians\<rparr>)))))))))))"

definition stage_samples :: "resident_record \<Rightarrow> string \<Rightarrow> fp list" where
  "stage_samples x stage =
     (if stage = ''samples_ms'' then xr_samples x else if stage = ''k1_ms'' then xr_k1 x
      else if stage = ''k2_ms'' then xr_k2 x else xr_k3 x)"

definition cell_rows :: "resident_record list \<Rightarrow> nat \<times> nat \<Rightarrow> resident_record list" where
  "cell_rows records cell = filter (\<lambda>x. (xr_count x, xr_bits x) = cell) records"

definition stage_trials :: "resident_record list \<Rightarrow> (py_exn, (string \<times> fp list) list) result" where
  "stage_trials rows =
     traverse (\<lambda>stage. bindE (traverse (\<lambda>x. py_median (stage_samples x stage)) rows) (\<lambda>ms. Inr (stage, ms))) ANALYSED_STAGES"

definition summarize_rows ::
  "numpy_ops \<Rightarrow> nat \<times> nat \<Rightarrow> resident_record list \<Rightarrow> (string \<times> json) list \<Rightarrow> fp \<Rightarrow> (py_exn, cell_summary) result" where
  "summarize_rows np cell rows device ceiling_gbps =
     bindE (stage_trials rows) (\<lambda>medians.
       summarize_cell np (fst cell) (snd cell) (map xr_k1 rows) medians device ceiling_gbps)"

subsection \<open>Reference against optimized\<close>

record arm_summary =
  ka_cell :: cell_summary
  ka_stage_medians :: "((string \<times> fp) list \<times> fp) option"
  ka_total :: case_stats

record ab_cell =
  ab_count :: nat
  ab_bits :: nat
  ab_regime :: string
  ab_arms :: "(string \<times> arm_summary) list"
  ab_k1 :: "speedup \<times> claims"
  ab_total :: "speedup \<times> claims"

record keep_report =
  kd_dram_cells :: nat
  kd_kept :: bool
  kd_failing :: "(nat \<times> nat \<times> verdict) list"
  kd_slowdowns :: "(nat \<times> nat \<times> string) list"

definition compare_arms :: "numpy_ops \<Rightarrow> fp list list \<Rightarrow> fp list list \<Rightarrow> (py_exn, speedup \<times> claims) result" where
  "compare_arms np reference_trials optimized_trials =
     bindE (compute_case_statistics np reference_trials) (\<lambda>reference.
     bindE (compute_case_statistics np optimized_trials) (\<lambda>optimized.
     let comparison = compare_speedup np reference optimized in
       Inr (comparison, claim_support (verdict comparison) False reference optimized)))"

definition faster_supported :: "ab_cell \<Rightarrow> bool" where
  "faster_supported c \<longleftrightarrow> verdict (fst (ab_k1 c)) = Faster \<and> direction_supported (snd (ab_k1 c))"

definition slower_supported :: "ab_cell \<Rightarrow> bool" where
  "slower_supported c \<longleftrightarrow> verdict (fst (ab_k1 c)) = Slower \<and> direction_supported (snd (ab_k1 c))"

definition keep_decision :: "ab_cell list \<Rightarrow> keep_report" where
  "keep_decision cells =
     (let dram = filter (\<lambda>c. ab_regime c = ''dram'') cells;
          failing = filter (\<lambda>c. \<not> faster_supported c) dram;
          slowdowns = filter (\<lambda>c. ab_regime c \<noteq> ''dram'' \<and> slower_supported c) cells
      in \<lparr>kd_dram_cells = length dram, kd_kept = (dram \<noteq> [] \<and> failing = []),
          kd_failing = map (\<lambda>c. (ab_count c, ab_bits c, verdict (fst (ab_k1 c)))) failing,
          kd_slowdowns = map (\<lambda>c. (ab_count c, ab_bits c, ab_regime c)) slowdowns\<rparr>)"

definition arm_rows :: "resident_record list \<Rightarrow> string \<Rightarrow> resident_record list" where
  "arm_rows rows variant = filter (\<lambda>x. xr_variant x = variant) rows"

definition resident_timed :: "resident_record \<Rightarrow> timed_run" where
  "resident_timed x = \<lparr>samples_ms = xr_samples x,
     stages = [''k1_ms'' \<mapsto> xr_k1 x, ''k2_ms'' \<mapsto> xr_k2 x, ''k3_ms'' \<mapsto> xr_k3 x]\<rparr>"

definition summarize_arm ::
  "numpy_ops \<Rightarrow> nat \<times> nat \<Rightarrow> resident_record list \<Rightarrow> (string \<times> json) list \<Rightarrow> fp \<Rightarrow> string
     \<Rightarrow> (py_exn, string \<times> arm_summary) result" where
  "summarize_arm np cell rows device ceiling_gbps variant =
     (let runs = arm_rows rows variant in
      bindE (summarize_rows np cell runs device ceiling_gbps) (\<lambda>arm.
      bindE (compute_case_statistics np (map xr_samples runs)) (\<lambda>total.
        Inr (variant,
          \<lparr>ka_cell = (if variant = ''optimized'' then arm\<lparr>kc_launches := optimized_launch_count (fst cell)\<rparr> else arm),
           ka_stage_medians = compute_stage_medians np (map resident_timed runs), ka_total = total\<rparr>))))"

definition summarize_ab_cell ::
  "numpy_ops \<Rightarrow> resident_record list \<Rightarrow> (string \<times> json) list \<Rightarrow> fp \<Rightarrow> nat \<times> nat \<Rightarrow> (py_exn, ab_cell) result" where
  "summarize_ab_cell np rows device ceiling_gbps cell =
     bindE (traverse (summarize_arm np cell rows device ceiling_gbps) VARIANTS) (\<lambda>arms.
     bindE (case map_of arms ''reference'' of None \<Rightarrow> Inl (KeyError ''reference'') | Some arm \<Rightarrow> Inr (kc_regime (ka_cell arm))) (\<lambda>cell_regime.
     bindE (compare_arms np (map xr_k1 (arm_rows rows ''reference'')) (map xr_k1 (arm_rows rows ''optimized''))) (\<lambda>k1.
     bindE (compare_arms np (map xr_samples (arm_rows rows ''reference'')) (map xr_samples (arm_rows rows ''optimized''))) (\<lambda>total.
       Inr \<lparr>ab_count = fst cell, ab_bits = snd cell, ab_regime = cell_regime, ab_arms = arms, ab_k1 = k1, ab_total = total\<rparr>))))"

subsection \<open>The documents\<close>

definition float_list :: "fp list \<Rightarrow> json" where
  "float_list xs = JList (map JFloat xs)"

definition cell_items :: "cell_summary \<Rightarrow> (string \<times> json) list" where
  "cell_items c =
     dict_update
       [(''count'', JInt (int (kc_count c))), (''bits'', JInt (int (kc_bits c))), (''regime'', JStr (kc_regime c)),
        (''launches'', JInt (int (kc_launches c))), (''min_bytes'', JInt (int (kc_min_bytes c))),
        (''k1'', JObj (case_stats_items (kc_k1 c))), (''effective_gbps'', JFloat (kc_effective c)),
        (''fraction_of_peak'', float_or_null (kc_of_peak c)), (''fraction_of_ceiling'', float_or_null (kc_of_ceiling c)),
        (''ideal_ms_at_ceiling'', float_or_null (kc_ideal_ms c)), (''headroom'', float_or_null (kc_headroom c))]
       (map (\<lambda>(k, m). (k, JFloat m)) (kc_medians c))"

definition arm_json :: "arm_summary \<Rightarrow> json" where
  "arm_json a =
     JObj (cell_items (ka_cell a)
       @ [(''stage_medians_ms'', stage_document (ka_stage_medians a)),
          (''total'', JObj (case_stats_items (ka_total a)))])"

definition comparison_json :: "speedup \<times> claims \<Rightarrow> json" where
  "comparison_json = (\<lambda>(sp, k). JObj (speedup_items ''speedup'' sp @ claim_items k))"

definition ab_cell_json :: "ab_cell \<Rightarrow> json" where
  "ab_cell_json c =
     JObj [(''count'', JInt (int (ab_count c))), (''bits'', JInt (int (ab_bits c))), (''regime'', JStr (ab_regime c)),
       (''arms'', JObj (map (\<lambda>(v, a). (v, arm_json a)) (ab_arms c))), (''k1_comparison'', comparison_json (ab_k1 c)),
       (''total_comparison'', comparison_json (ab_total c))]"

definition decision_json :: "string \<Rightarrow> keep_report \<Rightarrow> json" where
  "decision_json rule d =
     JObj [(''rule'', JStr rule), (''dram_cells'', JInt (int (kd_dram_cells d))), (''kept'', JBool (kd_kept d)),
       (''failing_cells'', JList (map (\<lambda>(n, b, v). JObj [(''count'', JInt (int n)), (''bits'', JInt (int b)),
          (''verdict'', JStr (verdict_text v))]) (kd_failing d))),
       (''descriptive_slowdowns'', JList (map (\<lambda>(n, b, r). JObj [(''count'', JInt (int n)), (''bits'', JInt (int b)),
          (''regime'', JStr r)]) (kd_slowdowns d)))]"

definition resident_record_json :: "resident_record \<Rightarrow> json" where
  "resident_record_json x =
     JObj [(''process'', JInt (int (xr_process x))), (''position'', JInt (int (xr_position x))), (''slot'', JInt (int (xr_slot x))),
       (''variant'', JStr (xr_variant x)), (''count'', JInt (int (xr_count x))), (''bits'', JInt (int (xr_bits x))),
       (''warmups'', JInt (int (xr_warmups x))), (''reps'', JInt (int (xr_reps x))), (''samples_ms'', float_list (xr_samples x)),
       (''k1_ms'', float_list (xr_k1 x)), (''k2_ms'', float_list (xr_k2 x)), (''k3_ms'', float_list (xr_k3 x))]"

definition PEAK_RULE :: string where
  "PEAK_RULE =
     ''theoretical_peak_gbps = 2 * memory_clock_khz * 1e3 * bus_width_bits / 8 / 1e9 ''
     @ ''(DDR convention, CUDA C++ Best Practices Guide); the RTX 5060 vendor figure is ''
     @ ''448 GB/s (28 Gbps x 128-bit GDDR7)''"

definition EFFECTIVE_RULE :: string where
  "EFFECTIVE_RULE =
     ''effective_gbps = K1_INPUT_READS * 4 * count / k1 pooled median (ms) / 1e6; ''
     @ ''the contract forces two full input reads (max|x|, then the squared terms)''"

definition REGIME_RULE :: string where
  "REGIME_RULE =
     ''dram when 4 * count >= '' @ str_int DRAM_L2_MULTIPLE @ '' * L2 size, transitional when 4 * count > L2 ''
     @ ''size, else l2-resident; fractions, headroom and the probe ceiling use dram sizes only''"

definition KEEP_RULE :: string where
  "KEEP_RULE =
     ''the optimized K1 is kept only if every dram cell (4 * count >= 4 * L2) has K1 verdict ''
     @ [CHR 0x27] @ ''faster'' @ [CHR 0x27] @ '' with direction_supported (revision 3; no boundary, so no inversion). ''
     @ ''magnitude_supported and the bootstrap CI are reported; no decision depends on them''"

definition ORDER_RULE :: string where
  "ORDER_RULE =
     ''cells shuffled per process round with random.Random(ORDER_SEED); within a cell the ''
     @ ''reference runs first in even rounds and the optimized K1 first in odd rounds''"

subsection \<open>The analyses\<close>

definition raised :: "(py_exn, 'a) result \<Rightarrow> ('p world, resident_exn, 'a) st" where
  "raised m = st_lift (map_sum ResidentPy id m)"

record k1_ops =
  ko_np :: numpy_ops
  ko_float_text :: "fp \<Rightarrow> string"
  ko_created :: string
  ko_draw :: "json \<Rightarrow> (py_exn, byte list) result"

text \<open>The fields both summaries share, before and after the machine's own fields.\<close>

definition protocol_items :: "resident_run \<Rightarrow> (string \<times> json) list" where
  "protocol_items run =
     [(''reps_per_process'', JInt (int (ru_reps run))), (''in_process_warmup_seconds'', JFloat (ru_in_process_seconds run)),
      (''min_warmups'', JInt (int MIN_WARMUPS)), (''seed'', JInt DEFAULT_COMPRESSION_SEED),
      (''affinity_mask'', JInt (ru_mask run)),
      (''excluded_logical_cpus'', JList (map (\<lambda>c. JInt (int c)) (ru_excluded run)))]"

definition ceiling_items :: "fp \<Rightarrow> probe_size \<Rightarrow> (string \<times> json) list" where
  "ceiling_items peak best =
     [(''theoretical_peak_gbps'', JFloat peak), (''probe_ceiling_gbps'', JFloat (pz_gbps best)),
      (''probe_ceiling_size'', JObj [(''count'', JInt (pz_count best)), (''bytes'', JInt (pz_bytes best))])]"

definition state_items :: "resident_run \<Rightarrow> (string \<times> json) list" where
  "state_items run =
     [(''inputs'', JList (map (\<lambda>e. JObj (gi_provenance (snd e))) (ru_inputs run))), (''initial_gpu_warm_up'', ru_warm_up run),
      (''gpu_state_start'', ru_gpu_start run), (''gpu_state_end'', ru_gpu_end run)]"

definition probe_state :: "resident_run \<Rightarrow> json" where
  "probe_state run = JObj [(''start'', ru_probe_start run), (''end'', ru_probe_end run)]"

definition identity_json :: "nat \<times> nat \<times> (string \<times> string) list \<Rightarrow> json" where
  "identity_json = (\<lambda>(n, bits, hashes).
     JObj [(''count'', JInt (int n)), (''bits'', JInt (int bits)), (''record_sha256'', text_dict hashes)])"

definition k1_ab_summary ::
  "k1_ops \<Rightarrow> resident_run \<Rightarrow> fp \<Rightarrow> probe_size \<Rightarrow> ab_cell list \<Rightarrow> (string \<times> json) list" where
  "k1_ab_summary ops run peak best cells =
     dict_update
       (dict_update
         [(''created_utc'', JStr (ko_created ops)),
          (''purpose'', JStr ''issue #23 same-tree A/B of the reference and optimized K1''),
          (''evidence'', JBool (ru_evidence run)), (''git'', JObj (ru_git run)), (''build'', JObj (ru_build run))]
         (ru_hardware run))
       ([(''device'', JObj (ru_device run))] @ ceiling_items peak best
        @ [(''gpu_state_probe'', probe_state run),
           (''protocol'', JObj ([(''path'', JStr ''cuda resident''), (''variants'', JList (map JStr VARIANTS)),
              (''measurand'', JStr ''k1_ms (K1 stage events); the resident total is descriptive''),
              (''processes_per_variant'', JInt (int (ru_processes run))), (''order'', JStr ORDER_RULE)]
              @ protocol_items run @ [(''readiness'', JStr ''recorded, not enforced'')])),
           (''readiness_facts'', case ru_readiness run of None \<Rightarrow> JNull | Some facts \<Rightarrow> JObj facts),
           (''record_identity'', JList (map identity_json (ru_identity run)))]
        @ state_items run
        @ [(''cells'', JList (map ab_cell_json cells)), (''decision'', decision_json KEEP_RULE (keep_decision cells))])"

definition plot_f5 :: "k1_ops \<Rightarrow> json \<Rightarrow> path \<Rightarrow> ('p world, resident_exn, unit) st" where
  "plot_f5 ops summary dir =
     st_bind (on_files ResidentPy (derived_directory dir)) (\<lambda>derived.
     st_bind (raised (ko_draw ops summary)) (\<lambda>drawn.
       on_file ResidentPy (write_file (derived @ [''f5_k1_stages.png'']) (Bytes drawn))))"

definition analyze_k1_ab :: "k1_ops \<Rightarrow> resident_run \<Rightarrow> path \<Rightarrow> ('p world, resident_exn, unit) st" where
  "analyze_k1_ab ops run out =
     (st_bind (raised (int_item (ru_device run) ''l2_bytes'')) (\<lambda>l2.
      st_bind (raised (probe_ceiling (ru_probe run) l2)) (\<lambda>best.
      st_bind (raised (traverse (\<lambda>cell. summarize_ab_cell (ko_np ops) (cell_rows (ru_records run) cell) (ru_device run) (pz_gbps best) cell)
                 (ru_cells run))) (\<lambda>cells.
      st_bind (on_file ResidentPy (write_file (out @ [''processes.json'']) (JsonDoc (JList (map resident_record_json (ru_records run)))))) (\<lambda>_.
      st_bind (raised (device_peak (ru_device run))) (\<lambda>peak.
      let summary = JObj (k1_ab_summary ops run peak best cells) in
      st_bind (on_file ResidentPy (write_file (out @ [''summary.json'']) (JsonDoc summary))) (\<lambda>_.
        plot_f5 ops summary out)))))))"

text \<open>
  The rows of \<open>processes.csv\<close>: the text written before a median fails, if one does. The CSV writer ends
  its lines with a carriage return and a line feed.
\<close>

definition csv_line :: "string list \<Rightarrow> string" where
  "csv_line cols = join '','' cols @ [char_of (13 :: nat), char_of (10 :: nat)]"

definition csv_stages :: "string list" where
  "csv_stages = [''samples_ms'', ''k1_ms'', ''k2_ms'', ''k3_ms'']"

definition csv_row :: "k1_ops \<Rightarrow> resident_record \<Rightarrow> (py_exn, string) result" where
  "csv_row ops x =
     bindE (traverse (\<lambda>k. py_median (stage_samples x k)) csv_stages) (\<lambda>medians.
       Inr (csv_line (map str_nat [xr_process x, xr_position x, xr_count x, xr_bits x, xr_warmups x, xr_reps x]
         @ map (ko_float_text ops) medians)))"

fun csv_rows :: "k1_ops \<Rightarrow> resident_record list \<Rightarrow> string \<times> py_exn option" where
  "csv_rows ops [] = ([], None)"
| "csv_rows ops (x # xs) =
     (case csv_row ops x of
        Inl e \<Rightarrow> ([], Some e)
      | Inr line \<Rightarrow> (case csv_rows ops xs of (text, err) \<Rightarrow> (line @ text, err)))"

definition write_processes_csv :: "k1_ops \<Rightarrow> resident_run \<Rightarrow> path \<Rightarrow> ('p world, resident_exn, unit) st" where
  "write_processes_csv ops run out =
     (let header = csv_line ([''process'', ''position'', ''count'', ''bits'', ''warmups'', ''reps'']
            @ map (\<lambda>k. k @ ''_median'') csv_stages) in
      case csv_rows ops (ru_records run) of (text, err) \<Rightarrow>
      st_bind (on_file ResidentPy (write_file (out @ [''processes.csv'']) (Text (header @ text)))) (\<lambda>_.
        case err of None \<Rightarrow> st_return () | Some e \<Rightarrow> st_fail (ResidentPy e)))"

definition baseline_summary ::
  "k1_ops \<Rightarrow> resident_run \<Rightarrow> fp \<Rightarrow> probe_size \<Rightarrow> cell_summary list \<Rightarrow> (string \<times> json) list" where
  "baseline_summary ops run peak best cells =
     dict_update
       (dict_update
         [(''created_utc'', JStr (ko_created ops)), (''purpose'', JStr ''issue #23 K1 baseline before any K1 change''),
          (''git'', JObj (ru_git run)), (''build'', JObj (ru_build run))]
         (ru_hardware run))
       ([(''device'', JObj (ru_device run)),
         (''rules'', JObj [(''peak'', JStr PEAK_RULE), (''effective'', JStr EFFECTIVE_RULE), (''regime'', JStr REGIME_RULE)])]
        @ ceiling_items peak best
        @ [(''gpu_state_probe'', probe_state run),
           (''protocol'', JObj ([(''path'', JStr ''cuda resident''), (''processes'', JInt (int (ru_processes run))),
              (''order'', JStr (''cells shuffled per process round, random.Random('' @ str_int ORDER_SEED @ '')''))]
              @ protocol_items run))]
        @ state_items run @ [(''cells'', JList (map (\<lambda>c. JObj (cell_items c)) cells))])"

definition analyze_baseline :: "k1_ops \<Rightarrow> resident_run \<Rightarrow> path \<Rightarrow> ('p world, resident_exn, unit) st" where
  "analyze_baseline ops run out =
     (st_bind (raised (int_item (ru_device run) ''l2_bytes'')) (\<lambda>l2.
      st_bind (raised (probe_ceiling (ru_probe run) l2)) (\<lambda>best.
      st_bind (raised (traverse (\<lambda>cell. summarize_rows (ko_np ops) cell (cell_rows (ru_records run) cell) (ru_device run) (pz_gbps best))
                 (ru_cells run))) (\<lambda>cells.
      st_bind (write_processes_csv ops run out) (\<lambda>_.
      st_bind (on_file ResidentPy (write_file (out @ [''processes.json'']) (JsonDoc (JList (map resident_record_json (ru_records run)))))) (\<lambda>_.
      st_bind (raised (device_peak (ru_device run))) (\<lambda>peak.
        on_file ResidentPy (write_file (out @ [''summary.json'']) (JsonDoc (JObj (baseline_summary ops run peak best cells)))))))))))"

subsection \<open>The commands\<close>

record k1_options =
  kg_output :: "path option"
  kg_figure :: "path option"
  kg_pilot :: bool
  kg_counts :: "nat list"
  kg_bits :: "nat list"
  kg_processes :: nat
  kg_reps :: nat
  kg_gpu_seconds :: fp
  kg_in_process_seconds :: fp
  kg_allow_dirty :: bool

definition is_default_design :: "k1_options \<Rightarrow> nat list \<Rightarrow> nat \<Rightarrow> bool" where
  "is_default_design a counts processes \<longleftrightarrow>
     \<not> (kg_pilot a \<or> kg_allow_dirty a) \<and> counts = DEFAULT_COUNTS \<and> kg_bits a = DEFAULT_BITS
     \<and> processes = DEFAULT_PROCESSES \<and> kg_reps a = DEFAULT_REPS \<and> fp_eq (kg_gpu_seconds a) GPU_WARMUP_SECONDS
     \<and> fp_eq (kg_in_process_seconds a) DEFAULT_IN_PROCESS_WARMUP_SECONDS"

text \<open>
  An option that is absent, like an empty list or zero, takes the default: \<open>kg_counts = []\<close> and
  \<open>kg_processes = 0\<close> stand for it.
\<close>

definition k1_ab_config :: "k1_options \<Rightarrow> resident_config" where
  "k1_ab_config a =
     (let counts = (if kg_counts a \<noteq> [] then kg_counts a else if kg_pilot a then K1_AB_PILOT_COUNTS else DEFAULT_COUNTS);
          processes = (if kg_processes a \<noteq> 0 then kg_processes a else if kg_pilot a then PILOT_PROCESSES else DEFAULT_PROCESSES)
      in \<lparr>xc_kind = ''k1-ab'', xc_counts = counts, xc_bits = kg_bits a, xc_processes = processes, xc_reps = kg_reps a,
          xc_gpu_seconds = kg_gpu_seconds a, xc_in_process_seconds = kg_in_process_seconds a, xc_output = kg_output a,
          xc_allow_dirty = kg_allow_dirty a, xc_pilot = kg_pilot a, xc_evidence = is_default_design a counts processes,
          xc_readiness = True\<rparr>)"

definition k1_baseline_config :: "k1_options \<Rightarrow> resident_config" where
  "k1_baseline_config a =
     \<lparr>xc_kind = ''k1-baseline'', xc_counts = kg_counts a, xc_bits = kg_bits a, xc_processes = kg_processes a,
      xc_reps = kg_reps a, xc_gpu_seconds = kg_gpu_seconds a, xc_in_process_seconds = kg_in_process_seconds a,
      xc_output = kg_output a, xc_allow_dirty = kg_allow_dirty a, xc_pilot = False, xc_evidence = False, xc_readiness = False\<rparr>"

definition run_k1_ab ::
  "'p resident_env \<Rightarrow> k1_ops \<Rightarrow> resident_config \<Rightarrow> ('p world host_state, resident_exn, path) st" where
  "run_k1_ab env ops cfg = run_resident_experiment env cfg VARIANTS (analyze_k1_ab ops)"

definition run_k1_baseline ::
  "'p resident_env \<Rightarrow> k1_ops \<Rightarrow> resident_config \<Rightarrow> ('p world host_state, resident_exn, path) st" where
  "run_k1_baseline env ops cfg = run_resident_experiment env cfg [''reference''] (analyze_baseline ops)"

definition refigure :: "k1_ops \<Rightarrow> path \<Rightarrow> ('p world, resident_exn, unit) st" where
  "refigure ops dir = (\<lambda>w.
     case read_json (fst w) (dir @ [''summary.json'']) of
       None \<Rightarrow> (Inl (ResidentPy (FileNotFoundError (join ''/'' (dir @ [''summary.json''])))), w)
     | Some summary \<Rightarrow> plot_f5 ops summary dir w)"

definition k1_ab_main :: "'p resident_env \<Rightarrow> k1_ops \<Rightarrow> k1_options \<Rightarrow> ('p world host_state, resident_exn, unit) st" where
  "k1_ab_main env ops a =
     (case kg_figure a of
        Some dir \<Rightarrow> in_world (refigure ops dir)
      | None \<Rightarrow> st_bind (run_k1_ab env ops (k1_ab_config a)) (\<lambda>_. st_return ()))"

subsection \<open>Launch counts, exactly\<close>

lemma pad_up_power:
  "\<exists>k. pad_up blocks (2 ^ l) l = (2 ^ k, k)
     \<and> ((\<forall>j < l. 2 ^ j < blocks) \<longrightarrow> blocks \<le> 2 ^ k \<and> (\<forall>j < k. 2 ^ j < blocks))"
proof (induction "blocks - 2 ^ l" arbitrary: l rule: less_induct)
  case less
  show ?case
  proof (cases "2 ^ l < blocks")
    case True
    moreover have "(2::nat) ^ l < 2 ^ Suc l" by simp
    ultimately have "blocks - 2 ^ Suc l < blocks - 2 ^ l" by linarith
    then obtain k where "pad_up blocks (2 ^ Suc l) (Suc l) = (2 ^ k, k)"
      "(\<forall>j < Suc l. 2 ^ j < blocks) \<longrightarrow> blocks \<le> 2 ^ k \<and> (\<forall>j < k. 2 ^ j < blocks)"
      using less by blast
    then show ?thesis using True by (auto simp: pad_up.simps [of blocks "2 ^ l" l] less_Suc_eq)
  qed (auto simp: pad_up.simps [of blocks "2 ^ l" l])
qed

text \<open>The number of doublings: the least power of two times the block size that holds the input.\<close>

definition tree_levels :: "nat \<Rightarrow> nat" where
  "tree_levels n = (LEAST k. n \<le> REDUCTION_THREADS * 2 ^ k)"

lemma block_count_le: "block_count n \<le> m \<longleftrightarrow> n \<le> REDUCTION_THREADS * m"
  by (simp add: block_count_def REDUCTION_THREADS_def) linarith

lemma pad_up_levels: "pad_up (block_count n) 1 0 = (2 ^ tree_levels n, tree_levels n)"
proof -
  obtain k where k: "pad_up (block_count n) 1 0 = (2 ^ k, k)" "block_count n \<le> 2 ^ k" "\<forall>j < k. 2 ^ j < block_count n"
    using pad_up_power [of "block_count n" 0] by auto
  have "n \<le> REDUCTION_THREADS * 2 ^ k" using k(2) by (simp only: block_count_le)
  moreover have "k \<le> j" if "n \<le> REDUCTION_THREADS * 2 ^ j" for j
  proof (rule ccontr)
    assume "\<not> k \<le> j"
    then have "2 ^ j < block_count n" using k(3) by simp
    moreover have "block_count n \<le> 2 ^ j" using that by (simp only: block_count_le)
    ultimately show False by simp
  qed
  ultimately have "tree_levels n = k" unfolding tree_levels_def by (rule Least_equality)
  then show ?thesis using k by simp
qed

lemma tree_passes_power: "tree_passes (2 ^ k) c = c + (k + 10) div 11"
proof (induction k arbitrary: c rule: less_induct)
  case (less k)
  show ?case
  proof (cases "k = 0")
    case False
    have m: "min (2 ^ k) TREE_SPAN = 2 ^ min k 11"
    proof (cases "k \<le> 11")
      case True
      then have "(2::nat) ^ k \<le> 2 ^ 11" by (intro power_increasing) auto
      then show ?thesis using True by (simp add: TREE_SPAN_def)
    next
      case False
      then have "(2::nat) ^ 11 \<le> 2 ^ k" by (intro power_increasing) auto
      then show ?thesis using False by (simp add: TREE_SPAN_def)
    qed
    have "(2::nat) ^ k div 2 ^ min k 11 = 2 ^ (k - min k 11)" by (simp add: power_diff)
    moreover have "1 < (2::nat) ^ k" using False one_less_power [of "2::nat" k] by simp
    ultimately have "tree_passes (2 ^ k) c = tree_passes (2 ^ (k - min k 11)) (Suc c)"
      by (subst tree_passes.simps) (simp only: m if_True)
    also have "\<dots> = Suc c + (k - min k 11 + 10) div 11" using False by (intro less) auto
    also have "\<dots> = c + (k + 10) div 11" using False by (cases "k \<le> 11") auto
    finally show ?thesis .
  qed (simp add: tree_passes.simps)
qed

text \<open>
  C35: The launch counts are exact. The reference K1 launches four kernels and one per level of the pair tree, whose
  depth is the least power of two that covers the blocks of the input; the optimized K1 launches four and one per eleven
  levels or part of them. Both loops return, and the optimized K1 never launches more kernels.
\<close>

theorem launch_counts_exact:
  "k1_launch_count n = 4 + tree_levels n \<and> optimized_launch_count n = 4 + (tree_levels n + 10) div 11
     \<and> optimized_launch_count n \<le> k1_launch_count n"
  using pad_up_levels [of n] by (simp add: k1_launch_count_def optimized_launch_count_def tree_passes_power)

subsection \<open>What the keep rule decides\<close>

definition dram_cell :: "int \<Rightarrow> nat \<times> nat \<Rightarrow> bool" where
  "dram_cell l2 cell \<longleftrightarrow> DRAM_L2_MULTIPLE * l2 \<le> int (fst cell * BYTES_PER_VALUE)"

definition arm_medians :: "numpy_ops \<Rightarrow> resident_record list \<Rightarrow> string \<Rightarrow> fp set" where
  "arm_medians np rows variant = set (map (np_median np \<circ> xr_k1) (arm_rows rows variant))"

text \<open>Usable statistics in both arms, and every process of the optimized arm below every one of the reference.\<close>

definition separated :: "numpy_ops \<Rightarrow> resident_record list \<Rightarrow> bool" where
  "separated np rows \<longleftrightarrow>
     (\<exists>b c. compute_case_statistics np (map xr_k1 (arm_rows rows ''reference'')) = Inr b
        \<and> compute_case_statistics np (map xr_k1 (arm_rows rows ''optimized'')) = Inr c \<and> all_usable b c)
     \<and> (\<forall>x \<in> arm_medians np rows ''reference''. \<forall>y \<in> arm_medians np rows ''optimized''. y < x)"

lemma compare_arms_faster:
  assumes "\<And>xs. fp_ok binary64 (np_median np xs)"
    and "compare_arms np (map xr_k1 (arm_rows rows ''reference'')) (map xr_k1 (arm_rows rows ''optimized'')) = Inr (sp, k)"
  shows "verdict sp = Faster \<and> direction_supported k \<longleftrightarrow> separated np rows"
proof -
  obtain b c where b: "compute_case_statistics np (map xr_k1 (arm_rows rows ''reference'')) = Inr b"
    and c: "compute_case_statistics np (map xr_k1 (arm_rows rows ''optimized'')) = Inr c"
    and sp: "sp = compare_speedup np b c" "k = claim_support (verdict sp) False b c"
    using assms(2) by (auto simp: compare_arms_def Let_def result_simps)
  have m: "set (trial_medians_ms b) = arm_medians np rows ''reference''" "set (trial_medians_ms c) = arm_medians np rows ''optimized''"
    using case_statistics_trials(1) [OF b] case_statistics_trials(1) [OF c] by (simp_all add: arm_medians_def)
  have "verdict sp = Faster \<and> direction_supported k \<longleftrightarrow> verdict sp = Faster" by (auto simp: sp(2) claim_support_direction)
  also have "\<dots> \<longleftrightarrow> all_usable b c \<and> (\<forall>x \<in> set (trial_medians_ms b). \<forall>y \<in> set (trial_medians_ms c). y < x)"
    using verdict_ranges(1) [OF b c assms(1)] by (auto simp: sp(1) compare_verdict)
  finally show ?thesis by (simp add: separated_def b c m)
qed

lemma summarized_cell:
  assumes "\<And>xs. fp_ok binary64 (np_median np xs)" and "int_item device ''l2_bytes'' = Inr l2"
    and "summarize_ab_cell np rows device gbps cell = Inr c"
  shows "ab_regime c = ''dram'' \<longleftrightarrow> dram_cell l2 cell" and "faster_supported c \<longleftrightarrow> separated np rows"
proof -
  obtain arms arm k1 total where arms: "traverse (summarize_arm np cell rows device gbps) VARIANTS = Inr arms"
    and arm: "map_of arms ''reference'' = Some arm" and r: "ab_regime c = kc_regime (ka_cell arm)"
    and k1: "compare_arms np (map xr_k1 (arm_rows rows ''reference'')) (map xr_k1 (arm_rows rows ''optimized'')) = Inr k1"
    and c: "ab_k1 c = k1"
    using assms(3) by (auto simp: summarize_ab_cell_def result_simps split: option.splits)
  have "summarize_arm np cell rows device gbps ''reference'' = Inr (''reference'', arm)"
    using arms arm by (auto simp: VARIANTS_def result_simps summarize_arm_def Let_def)
  then obtain s where "summarize_rows np cell (arm_rows rows ''reference'') device gbps = Inr s" "kc_regime (ka_cell arm) = kc_regime s"
    by (auto simp: summarize_arm_def Let_def result_simps)
  then have "kc_regime (ka_cell arm) = regime (fst cell) l2"
    using assms(2) by (auto simp: summarize_rows_def summarize_cell_def Let_def result_simps)
  then show "ab_regime c = ''dram'' \<longleftrightarrow> dram_cell l2 cell"
    by (auto simp: r regime_def regime_for_bytes_def dram_cell_def split: if_splits)
  show "faster_supported c \<longleftrightarrow> separated np rows"
    using compare_arms_faster [OF assms(1), where sp = "fst k1" and k = "snd k1"] k1 by (simp add: faster_supported_def c)
qed

lemma keep_decision_kept:
  "kd_kept (keep_decision cells) \<longleftrightarrow>
     (\<exists>c \<in> set cells. ab_regime c = ''dram'') \<and> (\<forall>c \<in> set cells. ab_regime c = ''dram'' \<longrightarrow> faster_supported c)"
  by (auto simp: keep_decision_def Let_def filter_empty_conv)

lemma all2_transfer:
  assumes "list_all2 (\<lambda>x y. (D y \<longleftrightarrow> d x) \<and> (F y \<longleftrightarrow> f x)) xs ys"
  shows "(\<exists>y \<in> set ys. D y) \<and> (\<forall>y \<in> set ys. D y \<longrightarrow> F y) \<longleftrightarrow> (\<exists>x \<in> set xs. d x) \<and> (\<forall>x \<in> set xs. d x \<longrightarrow> f x)"
proof -
  have "(\<exists>y \<in> set ys. D y) \<longleftrightarrow> (\<exists>x \<in> set xs. d x)" using assms by (induction rule: list_all2_induct) auto
  moreover have "(\<forall>y \<in> set ys. D y \<longrightarrow> F y) \<longleftrightarrow> (\<forall>x \<in> set xs. d x \<longrightarrow> f x)"
    using assms by (induction rule: list_all2_induct) auto
  ultimately show ?thesis by blast
qed

lemma dict_update_append: "dict_update items (xs @ ys) = dict_update (dict_update items xs) ys"
  by (simp add: dict_update_def)

lemma dict_update_last: "get_field (dict_update items [(k', v'), (k, v)]) k = v"
  by (simp add: dict_update_def)

lemma derived_keeps:
  assumes "derived_directory dir fs = Inr (out, fs')" "\<not> under (dir @ [''derived'']) p" "lookup fs p = Some n"
  shows "out = dir @ [''derived''] \<and> lookup fs' p = Some n"
  using assms by (auto simp: derived_directory_def Let_def result_simps remove_tree_lookup split: if_splits dest!: mkdir_parents_keeps [where p = p])

lemma summary_not_derived: "\<not> under (dir @ [''derived'']) (dir @ [''summary.json''])"
  by (simp add: under_def starts_with_def)

lemma written: "write_file p c fs = Inr fs' \<Longrightarrow> fs' = put p (File c) fs"
  by (simp add: write_file_def split: if_splits)

lemma plot_keeps_summary:
  assumes "plot_f5 ops summary dir w = (Inr (), w')" "lookup (fst w) (dir @ [''summary.json'']) = Some n"
  shows "lookup (fst w') (dir @ [''summary.json'']) = Some n"
proof -
  obtain out fs1 drawn where d: "derived_directory dir (fst w) = Inr (out, fs1)"
    and f: "write_file (out @ [''f5_k1_stages.png'']) (Bytes drawn) fs1 = Inr (fst w')"
    using assms(1) by (auto simp: plot_f5_def raised_def on_files_Inr on_file_Inr st_lift_Inr elim!: st_bindE)
  have "out = dir @ [''derived''] \<and> lookup fs1 (dir @ [''summary.json'']) = Some n"
    by (rule derived_keeps [OF d summary_not_derived assms(2)])
  moreover have "fst w' = put (out @ [''f5_k1_stages.png'']) (File (Bytes drawn)) fs1" using f by (rule written)
  ultimately show ?thesis by simp
qed

text \<open>
  C34: The decision that a finished comparison writes into \<open>summary.json\<close> keeps the optimized K1 exactly when some cell
  is in the DRAM regime, and in every such cell the statistics of both arms are usable and the K1 median of every process
  of the reference is above that of every process of the optimized K1, although the rule compares quotients of
  floats. Drawing the figure leaves the document in place. NumPy's median is assumed to be a float64 value.
\<close>

theorem kept_exactly_when_faster:
  assumes "\<And>xs. fp_ok binary64 (np_median (ko_np ops) xs)"
    and "map_of (ru_device run) ''l2_bytes'' = Some (JInt l2)"
    and "analyze_k1_ab ops run out w = (Inr (), w')"
  shows "\<exists>items decision. read_json (fst w') (out @ [''summary.json'']) = Some (JObj items)
    \<and> get_field items ''decision'' = JObj decision
    \<and> get_field decision ''kept'' = JBool ((\<exists>cell \<in> set (ru_cells run). dram_cell l2 cell)
        \<and> (\<forall>cell \<in> set (ru_cells run). dram_cell l2 cell \<longrightarrow> separated (ko_np ops) (cell_rows (ru_records run) cell)))"
proof -
  have l2: "int_item (ru_device run) ''l2_bytes'' = Inr l2" using assms(2) by (simp add: int_item_def)
  obtain best cells peak w1 w2 w3 where
      c: "traverse (\<lambda>cell. summarize_ab_cell (ko_np ops) (cell_rows (ru_records run) cell) (ru_device run) (pz_gbps best) cell)
        (ru_cells run) = Inr cells"
    and wr: "on_file ResidentPy (write_file (out @ [''summary.json'']) (JsonDoc (JObj (k1_ab_summary ops run peak best cells)))) w1
        = (Inr (), w2)"
    and pl: "plot_f5 ops (JObj (k1_ab_summary ops run peak best cells)) out w2 = (Inr (), w')"
    using assms(3) by (auto simp: analyze_k1_ab_def raised_def st_lift_Inr Let_def elim!: st_bindE)
  have "lookup (fst w2) (out @ [''summary.json'']) = Some (File (JsonDoc (JObj (k1_ab_summary ops run peak best cells))))"
    using wr by (auto simp: on_file_Inr dest!: written)
  then have "read_json (fst w') (out @ [''summary.json'']) = Some (JObj (k1_ab_summary ops run peak best cells))"
    using plot_keeps_summary [OF pl] by (simp add: read_json_def read_file_def)
  moreover have "get_field (k1_ab_summary ops run peak best cells) ''decision'' = decision_json KEEP_RULE (keep_decision cells)"
    unfolding k1_ab_summary_def dict_update_append by (rule dict_update_last)
  moreover have "kd_kept (keep_decision cells) \<longleftrightarrow> (\<exists>cell \<in> set (ru_cells run). dram_cell l2 cell)
        \<and> (\<forall>cell \<in> set (ru_cells run). dram_cell l2 cell \<longrightarrow> separated (ko_np ops) (cell_rows (ru_records run) cell))"
  proof -
    have "list_all2 (\<lambda>cell x. (ab_regime x = ''dram'' \<longleftrightarrow> dram_cell l2 cell)
        \<and> (faster_supported x \<longleftrightarrow> separated (ko_np ops) (cell_rows (ru_records run) cell))) (ru_cells run) cells"
      using c unfolding traverse_Inr_iff by (rule list_all2_mono) (use summarized_cell [OF assms(1) l2] in blast)
    then show ?thesis unfolding keep_decision_kept by (rule all2_transfer)
  qed
  ultimately show ?thesis by (auto simp: decision_json_def get_field_def)
qed

subsection \<open>A small comparison\<close>

definition sample_record :: "string \<Rightarrow> fp \<Rightarrow> resident_record" where
  "sample_record variant t =
     \<lparr>xr_process = 0, xr_position = 0, xr_slot = 0, xr_variant = variant, xr_count = 250000, xr_bits = 8, xr_warmups = 10,
      xr_reps = 1, xr_samples = [t], xr_k1 = [t], xr_k2 = [t], xr_k3 = [t]\<rparr>"

definition sample_run :: resident_run where
  "sample_run =
     \<lparr>ru_git = [], ru_stamp = [], ru_binary = [], ru_build = [], ru_hardware = [],
      ru_probe = [(''sizes'', JList [JObj [(''bytes'', JInt 64), (''best_gbps'', JFloat (FFin False 2)), (''count'', JInt 16)]])],
      ru_device = [(''l2_bytes'', JInt 16), (''memory_clock_khz'', JInt 500000), (''bus_width_bits'', JInt 8)],
      ru_gpu_start = JNull, ru_probe_start = JNull, ru_probe_end = JNull, ru_gpu_end = JNull, ru_warm_up = JNull,
      ru_readiness = None, ru_identity = [], ru_inputs = [], ru_cells = [(250000, 8)],
      ru_records = [sample_record ''reference'' (FFin False 3), sample_record ''optimized'' (FFin False 2)],
      ru_warmups = [], ru_processes = 1, ru_reps = 1, ru_in_process_seconds = fp_zero, ru_mask = 3, ru_excluded = [],
      ru_evidence = False, ru_output = []\<rparr>"

definition sample_k1_ops :: k1_ops where
  "sample_k1_ops = \<lparr>ko_np = example_ops, ko_float_text = (\<lambda>x. []), ko_created = [], ko_draw = (\<lambda>j. Inr [])\<rparr>"


lemma round_exact:
  assumes "n \<le> 2 ^ 53"
  shows "fp_round binary64 s (of_nat n) = FFin s (of_nat n)"
proof -
  have "of_nat n \<le> (2::rat) ^ 53" using assms by (metis of_nat_le_iff of_nat_numeral of_nat_power)
  then have "round_mag binary64 (of_nat n) \<le> maxfin binary64"
    by (intro fp_round_small) (simp_all add: binary64_def)
  then show ?thesis using r64.rnd_nat [OF assms] by (simp add: fp_round_def)
qed

lemma round_exact_numeral [simp]:
  "(numeral k :: nat) \<le> 2 ^ 53 \<Longrightarrow> fp_round binary64 s (numeral k) = FFin s (numeral k)"
  "fp_round binary64 s 1 = FFin s 1"
  using round_exact [of "numeral k" s] round_exact [of 1 s] by simp_all

lemma sample_statistics:
  "compute_case_statistics example_ops [[FFin False 3]] = Inr (example_case 3)"
  "compute_case_statistics example_ops [[FFin False 2]] = Inr (example_case 2)"
  by (simp_all add: example_case_def compute_case_statistics_def Let_def py_min_def py_max_def fp_of_nat_def)

lemma sample_arms:
  "arm_rows (cell_rows (ru_records sample_run) (250000, 8)) ''reference'' = [sample_record ''reference'' (FFin False 3)]"
  "arm_rows (cell_rows (ru_records sample_run) (250000, 8)) ''optimized'' = [sample_record ''optimized'' (FFin False 2)]"
  by (simp_all add: arm_rows_def cell_rows_def sample_run_def sample_record_def)

lemma sample_k1_device:
  "int_item (ru_device sample_run) ''l2_bytes'' = Inr 16"
  "device_peak (ru_device sample_run) = Inr (FFin False 1)"
  by (simp_all add: int_item_def sample_run_def device_peak_def theoretical_peak_gbps_def int_float_def fp_of_rat_def Let_def fp_of_nat_def)

lemma sample_ceiling: "\<exists>best. probe_ceiling (ru_probe sample_run) 16 = Inr best \<and> pz_gbps best = FFin False 2"
  by (simp add: probe_ceiling_def sample_run_def read_probe_size_def int_item_def float_item_def regime_for_bytes_def
      DRAM_L2_MULTIPLE_def best_size_def sample_value_def)

lemma sample_summary:
  assumes "t = 2 \<or> t = 3" 
  shows "\<exists>s. summarize_rows example_ops (250000, 8) [sample_record v (FFin False t)] (ru_device sample_run) (FFin False 2) = Inr s
     \<and> kc_regime s = ''dram''"
proof -
  have "compute_case_statistics example_ops [[FFin False t]] = Inr (example_case (if t = 2 then 2 else 3))"
    using assms sample_statistics by auto
  moreover have "case_median (example_case (if t = 2 then 2 else 3)) = Some (FFin False t)"
    using assms example_case_fields by auto
  ultimately show ?thesis using assms 
    by (auto simp: summarize_rows_def stage_trials_def ANALYSED_STAGES_def stage_samples_def sample_record_def py_median_def py_sorted_def
        summarize_cell_def Let_def sample_k1_device int_float_def fp_of_rat_def k1_min_bytes_def K1_INPUT_READS_def BYTES_PER_VALUE_def
        py_fdiv_nonzero regime_def regime_for_bytes_def DRAM_L2_MULTIPLE_def when_dram_def fp_of_nat_def)
qed

lemma sample_separated: "separated example_ops (cell_rows (ru_records sample_run) (250000, 8))"
proof -
  have "all_usable (example_case 3) (example_case 2)" by (simp add: all_usable_def example_case_fields usable_examples)
  then show ?thesis using sample_statistics
    by (simp add: separated_def arm_medians_def sample_arms) (simp add: sample_record_def example_ops_def)
qed

lemma sample_cell:
  "\<exists>c. summarize_ab_cell example_ops (cell_rows (ru_records sample_run) (250000, 8)) (ru_device sample_run) (FFin False 2) (250000, 8) = Inr c"
proof -
  obtain r q where "summarize_rows example_ops (250000, 8) [sample_record ''reference'' (FFin False 3)] (ru_device sample_run) (FFin False 2) = Inr r"
    "summarize_rows example_ops (250000, 8) [sample_record ''optimized'' (FFin False 2)] (ru_device sample_run) (FFin False 2) = Inr q"
    using sample_summary [of 3 "''reference''"] sample_summary [of 2 "''optimized''"] by blast
  then show ?thesis using sample_statistics
    by (simp add: summarize_ab_cell_def VARIANTS_def summarize_arm_def sample_arms Let_def compare_arms_def)
       (simp add: sample_record_def)
qed

lemma sample_analysis: "\<exists>w'. analyze_k1_ab sample_k1_ops sample_run [''s''] ([([''s''], Dir)], 0 :: nat) = (Inr (), w')"
proof -
  obtain best c where "probe_ceiling (ru_probe sample_run) 16 = Inr best" "pz_gbps best = FFin False 2"
    "summarize_ab_cell example_ops (cell_rows (ru_records sample_run) (250000, 8)) (ru_device sample_run) (FFin False 2) (250000, 8) = Inr c"
    using sample_ceiling sample_cell by blast
  moreover have "ru_cells sample_run = [(250000, 8)]" by (simp add: sample_run_def)
  ultimately show ?thesis using sample_k1_device
    by (simp add: analyze_k1_ab_def raised_def st_bind_def st_lift_def sample_k1_ops_def Let_def on_file_def on_files_def
        write_file_def is_dir_def plot_f5_def derived_directory_def path_exists_def mkdir_parents_def ancestors_def lookup_def put_def)
qed

theorem kept_exactly_when_faster_witness:
  "\<exists>w' items decision. analyze_k1_ab sample_k1_ops sample_run [''s''] ([([''s''], Dir)], 0 :: nat) = (Inr (), w')
     \<and> read_json (fst w') [''s'', ''summary.json''] = Some (JObj items) \<and> get_field items ''decision'' = JObj decision
     \<and> get_field decision ''kept'' = JBool True"
proof -
  obtain w' where w: "analyze_k1_ab sample_k1_ops sample_run [''s''] ([([''s''], Dir)], 0 :: nat) = (Inr (), w')"
    using sample_analysis by blast
  have np: "ko_np sample_k1_ops = example_ops" by (simp add: sample_k1_ops_def)
  have l2: "map_of (ru_device sample_run) ''l2_bytes'' = Some (JInt 16)" by (simp add: sample_run_def)
  have "ru_cells sample_run = [(250000, 8)]" "dram_cell 16 (250000, 8)"
    by (simp_all add: sample_run_def dram_cell_def DRAM_L2_MULTIPLE_def BYTES_PER_VALUE_def)
  then show ?thesis using kept_exactly_when_faster [OF _ l2 w] example_median_ok sample_separated w by (auto simp: np)
qed

end
