(* ===== verification/Unbiasedness.thy ===== *)
theory Unbiasedness
  imports Resident
begin

text \<open>
  The empirical-expectation suite (\<open>src/stoquant/unbiasedness.py\<close>): the decoded expectation and the realised rounding
  probability of every element, the gate on the measured means, the runs of the native \<open>expect\<close> command on each
  backend, the report, and the snapshot, which is committed only when every case passed. NumPy's generators,
  \<open>linspace\<close> and \<open>sum\<close>, the drawing of the figure and the processes are arguments. The lemmas tie the expectation
  to the rounding of the oracle and say what a published suite has passed.
\<close>

definition SUITE_SEEDS :: int where "SUITE_SEEDS = 4096"
definition SEED_START :: int where "SEED_START = 1"
definition SUITE_COUNT :: nat where "SUITE_COUNT = 2 ^ 14"
definition SUITE_MODEL_TENSOR :: string where "SUITE_MODEL_TENSOR = ''layer1.0.conv1.weight''"
definition SUITE_SIGMA :: fp where "SUITE_SIGMA = fp_of_nat 5"
definition BIT_WIDTHS :: "nat list" where "BIT_WIDTHS = [4, 8]"
definition BACKENDS :: "string list" where "BACKENDS = [''cpu'', ''cuda'']"
definition RESULTS :: string where "RESULTS = ''unbiasedness.json''"
definition FIGURE :: string where "FIGURE = ''f_unbiasedness.png''"

definition GATE_RULE :: string where
  "GATE_RULE =
     ''each element with realised rounding probability q strictly between 0 and 1 satisfies ''
     @ ''|mean - E| <= 5 * delta * sqrt(q * (1 - q) / T), where E is the decoded expectation ''
     @ ''(1 - q) * dec(l) + q * dec(l + 1), delta = |dec(l + 1) - dec(l)|, l = floor(a), ''
     @ ''a = min(|x| / scale * s, s) in FP32, and q = floor(fl32(p * 2^32)) / 2^32 is the ''
     @ ''Bernoulli probability the rounding comparison realises for p = a - l; every element ''
     @ ''with q = 0 has mean exactly dec(l); any non-finite mean or sum fails. The bound is a ''
     @ ''normal approximation, validated for the pinned suite (T = 4096 seeds, the four suite ''
     @ ''inputs, the default input seed), and is not an exact bound for small q * T''"

subsection \<open>The expectation of an element\<close>

definition decoded_level :: "fp \<Rightarrow> bool \<Rightarrow> nat \<Rightarrow> fp \<Rightarrow> fp" where
  "decoded_level level negative s scale =
     (let v = fp_mul binary32 (fp_div binary32 level (fp_of_nat s)) scale in
      fp_cast binary64 (if negative \<and> \<not> fp_eq level fp_zero then fp_neg v else v))"

record expected_element =
  ue_a :: fp
  ue_p :: fp
  ue_q :: fp
  ue_low :: fp
  ue_high :: fp
  ue_expected :: fp
  ue_delta :: fp

definition suite_expectation :: "fp \<Rightarrow> nat \<Rightarrow> fp \<Rightarrow> expected_element" where
  "suite_expectation scale s x =
     (let scaled = fp_min (fp_mul binary32 (fp_div binary32 (fp_abs x) scale) (fp_of_nat s)) (fp_of_nat s);
          lower = fp_floor scaled;
          p = fp_sub binary32 scaled lower;
          q = fp_div binary64 (fp_floor (fp_cast binary64 (fp_mul binary32 p (fp_of_nat (2 ^ 32))))) (fp_of_nat (2 ^ 32));
          negative = fp_signbit x;
          low = decoded_level lower negative s scale;
          high = decoded_level (fp_min (fp_add binary32 lower (fp_of_nat 1)) (fp_of_nat s)) negative s scale
      in \<lparr>ue_a = fp_cast binary64 scaled, ue_p = fp_cast binary64 p, ue_q = q, ue_low = low, ue_high = high,
          ue_expected = fp_add binary64 (fp_mul binary64 (fp_sub binary64 (fp_of_nat 1) q) low) (fp_mul binary64 q high),
          ue_delta = fp_abs (fp_sub binary64 high low)\<rparr>)"

subsection \<open>The gate\<close>

text \<open>
  Array operations element by element. Each element has its sum and its sum of squares over the seeds; an array of one
  square is broadcast, other lengths do not fit. The inputs of the suite have more than one element.
\<close>

definition seeds_float :: "int \<Rightarrow> fp" where
  "seeds_float seeds = fp_of_rat binary64 False (of_int seeds)"

definition element_mean :: "int \<Rightarrow> fp \<Rightarrow> fp" where
  "element_mean seeds total_sum = fp_div binary64 total_sum (seeds_float seeds)"

definition bernoulli_variance :: "expected_element \<Rightarrow> fp" where
  "bernoulli_variance e = fp_mul binary64 (ue_q e) (fp_sub binary64 (fp_of_nat 1) (ue_q e))"

definition stochastic :: "expected_element \<Rightarrow> bool" where
  "stochastic e \<longleftrightarrow> fp_zero < ue_q e"

definition error_ratio :: "int \<Rightarrow> expected_element \<Rightarrow> fp \<Rightarrow> fp" where
  "error_ratio seeds e mean =
     (if stochastic e
      then let sigma = fp_mul binary64 (ue_delta e) (fp_sqrt binary64 (fp_div binary64 (bernoulli_variance e) (seeds_float seeds)))
           in fp_div binary64 (fp_abs (fp_sub binary64 mean (ue_expected e))) (fp_mul binary64 SUITE_SIGMA sigma)
      else fp_zero)"

definition observed_variance :: "int \<Rightarrow> fp \<Rightarrow> fp \<Rightarrow> fp" where
  "observed_variance seeds mean square =
     fp_max (fp_sub binary64 (fp_div binary64 square (seeds_float seeds)) (fp_mul binary64 mean mean)) fp_zero"

definition expected_variance :: "expected_element \<Rightarrow> fp" where
  "expected_variance e =
     fp_mul binary64 (fp_mul binary64 (fp_mul binary64 (ue_delta e) (ue_delta e)) (ue_q e)) (fp_sub binary64 (fp_of_nat 1) (ue_q e))"

definition expectation_gap :: "fp \<Rightarrow> nat \<Rightarrow> expected_element \<Rightarrow> fp \<Rightarrow> fp" where
  "expectation_gap scale s e x =
     fp_div binary64 (fp_abs (fp_sub binary64 (ue_expected e) (fp_cast binary64 x))) (fp_div binary64 (fp_cast binary64 scale) (fp_of_nat s))"

text \<open>\<open>np.nanmax\<close>: the greatest value that is not a NaN, or a NaN.\<close>

definition nanmax :: "fp list \<Rightarrow> fp" where
  "nanmax xs = foldl (\<lambda>m x. if fp_isnan m \<or> m < x then x else m) FNaN (filter (\<lambda>x. \<not> fp_isnan x) xs)"

record gate_result =
  ug_count :: nat
  ug_scale :: fp
  ug_limit :: nat
  ug_stochastic :: nat
  ug_deterministic :: nat
  ug_exact :: bool
  ug_finite :: bool
  ug_max_ratio :: fp
  ug_over :: nat
  ug_max_z :: fp
  ug_variance :: "fp option"
  ug_gap :: fp
  ug_passed :: bool

record gate_arrays =
  ua_x :: "fp list"
  ua_mean :: "fp list"
  ua_ratio :: "fp list"
  ua_stochastic :: "bool list"

definition fit_squares :: "nat \<Rightarrow> fp list \<Rightarrow> (py_exn, fp list) result" where
  "fit_squares n squares =
     (if length squares = n then Inr squares
      else if length squares = 1 then Inr (replicate n (hd squares))
      else Inl (ValueError ''operands could not be broadcast together''))"

definition exact_mean :: "expected_element \<Rightarrow> fp \<Rightarrow> bool" where
  "exact_mean e mean \<longleftrightarrow> stochastic e \<or> fp_eq mean (ue_low e)"

definition within_bound :: "fp \<Rightarrow> bool" where
  "within_bound ratio \<longleftrightarrow> ratio \<le> fp_of_nat 1"

definition selected :: "expected_element list \<Rightarrow> 'a list \<Rightarrow> 'a list" where
  "selected es xs = map snd (filter (\<lambda>(e, x). stochastic e) (zip es xs))"

definition analyse ::
  "(fp list \<Rightarrow> fp) \<Rightarrow> fp list \<Rightarrow> fp \<Rightarrow> nat \<Rightarrow> fp list \<Rightarrow> fp list \<Rightarrow> int \<Rightarrow> (py_exn, gate_result \<times> gate_arrays) result" where
  "analyse np_sum xs scale s totals squares seeds =
     (if length totals \<noteq> length xs then Inl (ValueError ''operands could not be broadcast together'')
      else bindE (fit_squares (length xs) squares) (\<lambda>sq.
        let es = map (suite_expectation scale s) xs;
            mean = map (element_mean seeds) totals;
            finite = (list_all fp_finite totals \<and> list_all fp_finite squares);
            ratio = map2 (error_ratio seeds) es mean;
            over = filter (\<lambda>r. \<not> within_bound r) ratio;
            exact = list_all2 exact_mean es mean;
            variance = map2 (observed_variance seeds) mean sq;
            drawn = filter stochastic es
        in if xs = [] then Inl (ValueError ''zero-size array to reduction operation maximum which has no identity'')
           else Inr (\<lparr>ug_count = length xs, ug_scale = scale, ug_limit = s, ug_stochastic = length drawn,
               ug_deterministic = length xs - length drawn, ug_exact = exact, ug_finite = finite,
               ug_max_ratio = (if finite \<and> drawn \<noteq> [] then nanmax ratio else fp_zero), ug_over = length over,
               ug_max_z = (if finite \<and> drawn \<noteq> [] then fp_mul binary64 (nanmax ratio) SUITE_SIGMA else fp_zero),
               ug_variance = (if drawn = [] then None
                 else Some (fp_div binary64 (np_sum (selected es variance)) (np_sum (map expected_variance drawn)))),
               ug_gap = (let gaps = map2 (expectation_gap scale s) es xs in foldl fp_max (hd gaps) (tl gaps)),
               ug_passed = (finite \<and> exact \<and> over = [])\<rparr>,
             \<lparr>ua_x = map (fp_cast binary64) xs, ua_mean = mean, ua_ratio = ratio, ua_stochastic = map stochastic es\<rparr>)))"

subsection \<open>The inputs of the suite\<close>

record suite_ops =
  so_inputs :: input_ops
  so_linspace :: "fp \<Rightarrow> fp \<Rightarrow> nat \<Rightarrow> fp list"
  so_sum :: "fp list \<Rightarrow> fp"
  so_numpy_version :: string
  so_created :: string

record suite_input =
  si_name :: string
  si_values :: "fp list"
  si_provenance :: "(string \<times> json) list"

definition seeded_provenance :: "string \<Rightarrow> int \<Rightarrow> (string \<times> json) list" where
  "seeded_provenance family seed =
     [(''input_family'', JStr family), (''generator'', JStr ''numpy.random.default_rng([count, seed])''),
      (''bit_generator'', JStr ''PCG64''), (''seed'', JList [JInt (int SUITE_COUNT), JInt seed])]"

definition hashed :: "suite_ops \<Rightarrow> suite_input \<Rightarrow> suite_input" where
  "hashed ops i =
     i\<lparr>si_provenance := si_provenance i @ [(''sha256'', JStr (io_sha256 (so_inputs ops) (io_bytes (so_inputs ops) (si_values i))))]\<rparr>"

definition suite_inputs :: "suite_ops \<Rightarrow> int \<Rightarrow> (py_exn, suite_input list) result" where
  "suite_inputs ops seed =
     (let io = so_inputs ops;
          course = fst (course_vector (so_linspace ops));
          dense = hd (dense_vectors (io_normal io) [SUITE_COUNT] seed);
          (sparse, realised) = sparsify (io_uniform io) dense SPARSE_MASK_SEED SPARSE_ZERO_FRACTION;
          key = str_nat SUITE_COUNT
      in
      bindE (model_tensor_by_name SUITE_MODEL_TENSOR) (\<lambda>tensor.
      bindE (model_tensor_values (io_normal io) tensor seed) (\<lambda>model_values.
      bindE (model_tensor_seed tensor seed) (\<lambda>model_seed.
        Inr (map (hashed ops)
          [\<lparr>si_name = ''course'', si_values = course,
             si_provenance = [(''input_family'', JStr ''course''),
               (''generator'', JStr (''fixed construction: signed zeros, +/-2, +/-2k/7, +/-2k/127, ''
                  @ ''and a ramp inside +/-1.95''))]\<rparr>,
           \<lparr>si_name = ''dense_n'' @ key, si_values = dense, si_provenance = seeded_provenance ''dense'' seed\<rparr>,
           \<lparr>si_name = ''sparse_n'' @ key, si_values = sparse,
             si_provenance = seeded_provenance ''sparse'' seed
               @ [(''mask_seed'', JInt SPARSE_MASK_SEED), (''zero_fraction_target'', JFloat SPARSE_ZERO_FRACTION),
                  (''zero_fraction_realised'', JFloat realised)]\<rparr>,
           \<lparr>si_name = ''model_'' @ SUITE_MODEL_TENSOR, si_values = model_values,
             si_provenance = [(''input_family'', JStr ''model''), (''model'', JStr MODEL_NAME),
               (''tensor_name'', JStr (mt_name tensor)),
               (''tensor_shape'', JList (map (\<lambda>d. JInt (int d)) (mt_shape tensor))),
               (''seed'', JList (map JInt model_seed))]\<rparr>])))))"

subsection \<open>One case\<close>

datatype suite_exn =
    SuitePy py_exn
  | SuiteStore snapshot_error
  | SuiteProvenance provenance_error
  | SuiteProcess proc_outcome
  | SuiteNotJson
  | SuiteExit suite_exn
  | SuiteNotPassed
  | SuiteUsage

definition expect_args :: "string \<Rightarrow> string \<Rightarrow> string \<Rightarrow> string \<Rightarrow> nat \<Rightarrow> int \<Rightarrow> string list" where
  "expect_args binary input_text output_text bk bits seeds =
     [binary, ''expect'', ''--input'', input_text, ''--output'', output_text, ''--seeds'', str_int seeds,
      ''--seed-start'', str_int SEED_START, ''--backend'', bk, ''--bits'', str_nat bits]"

definition run_expect ::
  "'p resident_env \<Rightarrow> path \<Rightarrow> path \<Rightarrow> path \<Rightarrow> string \<Rightarrow> nat \<Rightarrow> int \<Rightarrow> ('p world, suite_exn, json) st" where
  "run_expect env binary input out bk bits seeds = (\<lambda>w.
     case re_run env w (expect_args (native_path env binary) (native_path env input) (native_path env out) bk bits seeds) of
       (Completed code so se, w) \<Rightarrow>
         if code \<noteq> 0
         then (Inl (SuitePy (RuntimeError (''stoquant expect ('' @ bk @ '', '' @ str_nat bits @ ''-bit) failed: '' @ strip se))), w)
         else (case re_loads env so of None \<Rightarrow> Inl SuiteNotJson | Some v \<Rightarrow> Inr v, w)
     | (outcome, w) \<Rightarrow> (Inl (SuiteProcess outcome), w))"

text \<open>\<open>np.frombuffer(raw, dtype="<f8")\<close>.\<close>

definition fp_of_bits64 :: "nat \<Rightarrow> fp" where
  "fp_of_bits64 n =
     (let s = (n div 2 ^ 63 mod 2 = 1); e = n div 2 ^ 52 mod 2 ^ 11; m = n mod 2 ^ 52 in
      if e = 2047 then if m = 0 then FInf s else FNaN
      else if e = 0 then FFin s (of_nat m * 2 powi (- 1074))
      else FFin s (of_nat (2 ^ 52 + m) * 2 powi (int e - 1075)))"

definition frombuffer_f8 :: "byte list \<Rightarrow> (py_exn, fp list) result" where
  "frombuffer_f8 raw =
     (if raw = [] then Inl (ValueError ''frombuffer: buffer is empty'')
      else if length raw mod 8 \<noteq> 0 then Inl (ValueError ''buffer size must be a multiple of element size'')
      else Inr (map (fp_of_bits64 \<circ> le_value) (chunks 8 raw)))"

text \<open>\<open>int(text, 16)\<close> of ASCII text: an optional sign and prefix, and digits that underscores may separate.\<close>

definition hex_value :: "char \<Rightarrow> nat option" where
  "hex_value c =
     (let n = of_char c in
      if 48 \<le> n \<and> n \<le> (57 :: nat) then Some (n - 48)
      else if 97 \<le> n \<and> n \<le> 102 then Some (n - 87)
      else if 65 \<le> n \<and> n \<le> 70 then Some (n - 55) else None)"

fun hex_digits :: "nat \<Rightarrow> bool \<Rightarrow> string \<Rightarrow> nat option" where
  "hex_digits acc after_digit [] = (if after_digit then Some acc else None)"
| "hex_digits acc after_digit (c # cs) =
     (case hex_value c of
        Some d \<Rightarrow> hex_digits (16 * acc + d) True cs
      | None \<Rightarrow> if c = CHR ''_'' \<and> after_digit then hex_digits acc False cs else None)"

definition hex_unsigned :: "string \<Rightarrow> nat option" where
  "hex_unsigned t =
     (if starts_with ''0x'' t \<or> starts_with ''0X'' t
      then let rest = drop 2 t in hex_digits 0 False (if starts_with ''_'' rest then tl rest else rest)
      else hex_digits 0 False t)"

definition py_int16 :: "string \<Rightarrow> int option" where
  "py_int16 t =
     (let u = strip t in
      if starts_with ''-'' u then map_option (\<lambda>n. - int n) (hex_unsigned (tl u))
      else if starts_with ''+'' u then map_option int (hex_unsigned (tl u))
      else map_option int (hex_unsigned u))"

definition scale_of_meta :: "json \<Rightarrow> (py_exn, fp) result" where
  "scale_of_meta meta =
     (case meta of
        JObj items \<Rightarrow>
          (case map_of items ''scale_bits'' of
             None \<Rightarrow> Inl (KeyError ''scale_bits'')
           | Some (JStr t) \<Rightarrow>
               (case py_int16 t of
                  None \<Rightarrow> Inl (ValueError ''invalid literal for int() with base 16'')
                | Some z \<Rightarrow> if 0 \<le> z \<and> z < 2 ^ 32 then Inr (fp_of_bits32 (nat z))
                    else Inl (OverflowError ''Python integer out of bounds for uint32''))
           | Some _ \<Rightarrow> Inl (TypeError ''int() with explicit base''))
      | _ \<Rightarrow> Inl (TypeError ''meta''))"

record suite_case =
  sc_input :: string
  sc_bits :: nat
  sc_seeds :: int
  sc_backends :: "string list"
  sc_identical :: bool
  sc_provenance :: "(string \<times> json) list"
  sc_gate :: gate_result
  sc_passed :: bool

definition read_bytes :: "path \<Rightarrow> fs \<Rightarrow> (py_exn, byte list) result" where
  "read_bytes p fs =
     (case read_file fs p of Some (Bytes b) \<Rightarrow> Inr b | _ \<Rightarrow> Inl (FileNotFoundError (join ''/'' p)))"

definition expect_backend ::
  "'p resident_env \<Rightarrow> path \<Rightarrow> path \<Rightarrow> path \<Rightarrow> string \<Rightarrow> nat \<Rightarrow> int \<Rightarrow> string \<Rightarrow> ('p world, suite_exn, string \<times> json \<times> byte list) st" where
  "expect_backend env binary work input name bits seeds bk =
     (let out = work @ [name @ ''_bits'' @ str_nat bits @ ''_'' @ bk @ ''.f64''] in
      st_bind (run_expect env binary input out bk bits seeds) (\<lambda>meta.
      st_bind (from_world SuitePy (\<lambda>w. read_bytes out (fst w))) (\<lambda>raw.
        st_return (bk, meta, raw))))"

definition SIGNED_LIMITS :: "nat \<Rightarrow> (py_exn, nat) result" where
  "SIGNED_LIMITS bits = signed_limit_for bits"

definition judge_case ::
  "suite_ops \<Rightarrow> suite_input \<Rightarrow> nat \<Rightarrow> int \<Rightarrow> string list \<Rightarrow> (string \<times> json \<times> byte list) list
     \<Rightarrow> (py_exn, suite_case \<times> gate_arrays) result" where
  "judge_case ops item bits seeds backends runs =
     (let table = dict_update [] runs; n = length (si_values item) in
      case backends of
        [] \<Rightarrow> Inl (IndexError ''tuple index out of range'')
      | b # bs \<Rightarrow>
          (case map_of table b of
             None \<Rightarrow> Inl (KeyError b)
           | Some (meta, first) \<Rightarrow>
               bindE (frombuffer_f8 first) (\<lambda>values.
               bindE (scale_of_meta meta) (\<lambda>scale.
               bindE (SIGNED_LIMITS bits) (\<lambda>s.
               bindE (analyse (so_sum ops) (si_values item) scale s (take n values) (drop n values) seeds) (\<lambda>(gate, arrays).
                 let identical = (card (set (map (\<lambda>(k, meta, raw). raw) table)) = 1) in
                 Inr (\<lparr>sc_input = si_name item, sc_bits = bits, sc_seeds = seeds, sc_backends = backends,
                       sc_identical = identical, sc_provenance = si_provenance item, sc_gate = gate,
                       sc_passed = (ug_passed gate \<and> identical)\<rparr>, arrays)))))))"

definition suite_case_of ::
  "'p resident_env \<Rightarrow> suite_ops \<Rightarrow> path \<Rightarrow> path \<Rightarrow> int \<Rightarrow> string list \<Rightarrow> path \<Rightarrow> suite_input \<Rightarrow> nat
     \<Rightarrow> ('p world, suite_exn, suite_case \<times> gate_arrays) st" where
  "suite_case_of env ops binary work seeds backends input item bits =
     st_bind (st_traverse (expect_backend env binary work input (si_name item) bits seeds) backends) (\<lambda>runs.
       st_lift (map_sum SuitePy id (judge_case ops item bits seeds backends runs)))"

definition suite_item ::
  "'p resident_env \<Rightarrow> suite_ops \<Rightarrow> path \<Rightarrow> path \<Rightarrow> int \<Rightarrow> string list \<Rightarrow> suite_input
     \<Rightarrow> ('p world, suite_exn, (suite_case \<times> gate_arrays) list) st" where
  "suite_item env ops binary work seeds backends item =
     (let input = work @ [si_name item @ ''.f32''] in
      st_bind (on_file SuitePy (write_file input (Bytes (io_bytes (so_inputs ops) (si_values item))))) (\<lambda>_.
        st_traverse (suite_case_of env ops binary work seeds backends input item) BIT_WIDTHS))"

definition run_suite ::
  "'p resident_env \<Rightarrow> suite_ops \<Rightarrow> path \<Rightarrow> path \<Rightarrow> int \<Rightarrow> string list \<Rightarrow> int
     \<Rightarrow> ('p world, suite_exn, (suite_case \<times> gate_arrays) list) st" where
  "run_suite env ops binary work seeds backends input_seed =
     st_bind (on_file SuitePy (mkdir_parents work)) (\<lambda>_.
     st_bind (st_lift (map_sum SuitePy id (suite_inputs ops input_seed))) (\<lambda>items.
     st_bind (st_traverse (suite_item env ops binary work seeds backends) items) (\<lambda>cases.
       st_return (concat cases))))"

subsection \<open>The report\<close>

definition float_bits :: "fp \<Rightarrow> string" where
  "float_bits x = ''0x'' @ hex_digest (rev (le_bytes 4 (bits32_of_fp x)))"

definition suite_case_items :: "suite_case \<Rightarrow> (string \<times> json) list" where
  "suite_case_items c =
     (let g = sc_gate c in
      [(''count'', JInt (int (ug_count g))), (''scale'', JFloat (fp_cast binary64 (ug_scale g))),
       (''scale_bits'', JStr (float_bits (ug_scale g))), (''signed_limit'', JInt (int (ug_limit g))),
       (''stochastic_elements'', JInt (int (ug_stochastic g))), (''deterministic_elements'', JInt (int (ug_deterministic g))),
       (''deterministic_exact'', JBool (ug_exact g)), (''finite'', JBool (ug_finite g)),
       (''max_error_over_bound'', JFloat (ug_max_ratio g)), (''elements_over_bound'', JInt (int (ug_over g))),
       (''max_abs_z'', JFloat (ug_max_z g)), (''variance_ratio_pooled'', float_or_null (ug_variance g)),
       (''max_expectation_gap_steps'', JFloat (ug_gap g)), (''passed'', JBool (sc_passed c)),
       (''input'', JStr (sc_input c)), (''bits'', JInt (int (sc_bits c))), (''seeds'', JInt (sc_seeds c)),
       (''seed_start'', JInt SEED_START), (''backends'', JList (map JStr (sc_backends c))),
       (''backends_identical'', JBool (sc_identical c)), (''input_provenance'', JObj (sc_provenance c))])"

record suite_args =
  sg_output :: "path option"
  sg_seeds :: int
  sg_backends :: "string list"
  sg_input_seed :: int
  sg_allow_dirty :: bool

definition suite_reasons :: "suite_args \<Rightarrow> bool \<Rightarrow> string list" where
  "suite_reasons a dirty =
     (if dirty then [''dirty git tree''] else [])
     @ (if sg_seeds a \<noteq> SUITE_SEEDS then [str_int (sg_seeds a) @ '' seeds instead of '' @ str_int SUITE_SEEDS] else [])
     @ (if sg_backends a \<noteq> BACKENDS then [''not every backend''] else [])
     @ (if sg_input_seed a \<noteq> DEFAULT_INPUT_SEED
        then [''input seed '' @ str_int (sg_input_seed a) @ '' instead of '' @ str_int DEFAULT_INPUT_SEED] else [])"

definition suite_report ::
  "suite_ops \<Rightarrow> suite_args \<Rightarrow> (string \<times> json) list \<Rightarrow> stamp \<Rightarrow> suite_case list \<Rightarrow> (string \<times> json) list" where
  "suite_report ops a git stamp results =
     (let reasons = suite_reasons a (git_dirty (git_state_of git)) in
      [(''created_at_utc'', JStr (so_created ops)), (''git_provenance'', JObj git), (''build_stamp'', JObj stamp),
       (''evidence'', JBool (reasons = [])), (''non_evidence_reasons'', JList (map JStr reasons)),
       (''seeds'', JInt (sg_seeds a)), (''seed_start'', JInt SEED_START), (''sigma'', JFloat SUITE_SIGMA), (''gate_rule'', JStr GATE_RULE),
       (''variance'', JStr ''reported as the pooled ratio of observed to expected variance; not gated''),
       (''numpy_version'', JStr (so_numpy_version ops)), (''figure'', JStr FIGURE),
       (''all_passed'', JBool (list_all sc_passed results)), (''cases'', JList (map (\<lambda>c. JObj (suite_case_items c)) results))])"

subsection \<open>The command\<close>

text \<open>What \<open>except (RuntimeError, OSError)\<close> turns into an exit with a message.\<close>

fun py_exits :: "py_exn \<Rightarrow> bool" where
  "py_exits (RuntimeError m) = True"
| "py_exits (OSError m) = True"
| "py_exits (FileExistsError m) = True"
| "py_exits (FileNotFoundError m) = True"
| "py_exits e = False"

definition suite_exits :: "suite_exn \<Rightarrow> bool" where
  "suite_exits e =
     (case e of
        SuitePy x \<Rightarrow> py_exits x
      | SuiteStore (StoreError x) \<Rightarrow> py_exits x
      | SuiteStore x \<Rightarrow> True
      | SuiteProvenance (ProvenanceRaised x) \<Rightarrow> py_exits x
      | SuiteProvenance (ProvenanceStamp (StampRaised x)) \<Rightarrow> py_exits x
      | SuiteProvenance (ProvenanceStamp x) \<Rightarrow> True
      | SuiteProcess (StartFailed m) \<Rightarrow> True
      | _ \<Rightarrow> False)"

definition suite_target :: "'p resident_env \<Rightarrow> suite_args \<Rightarrow> (string \<times> json) list \<Rightarrow> path" where
  "suite_target env a git =
     (case sg_output a of
        Some dir \<Rightarrow> dir
      | None \<Rightarrow> snapshot_path (be_root (re_build env)) (text_field git ''code_revision_short'') ''unbiasedness'' False
                  (re_day env) (re_second env))"

definition suite_body ::
  "'p resident_env \<Rightarrow> suite_ops \<Rightarrow> ((suite_case \<times> gate_arrays) list \<Rightarrow> (py_exn, byte list) result) \<Rightarrow> suite_args
     \<Rightarrow> (string \<times> json) list \<Rightarrow> snapshot \<Rightarrow> ('p world, suite_exn, suite_case list) st" where
  "suite_body env ops draw a git snap =
     (let target = partial snap; work = target @ [''_temp''] in
      st_bind (from_world SuiteProvenance (\<lambda>w. find_binary (tools env w) (re_stamps env) (re_build env)
                 (''cuda'' \<in> set (sg_backends a)) (Some git) None (fst w))) (\<lambda>(binary, stamp).
      st_bind (run_suite env ops binary work (sg_seeds a) (sg_backends a) (sg_input_seed a)) (\<lambda>cases.
      st_bind (\<lambda>(fs, p). (Inr (), (remove_tree work fs, p))) (\<lambda>_.
      st_bind (on_files SuitePy (derived_directory target)) (\<lambda>derived.
      st_bind (st_lift (map_sum SuitePy id (draw cases))) (\<lambda>drawn.
      st_bind (on_file SuitePy (write_file (derived @ [FIGURE]) (Bytes drawn))) (\<lambda>_.
      let results = map fst cases in
      st_bind (on_file SuitePy (write_file (target @ [RESULTS]) (JsonDoc (JObj (suite_report ops a git stamp results))))) (\<lambda>_.
      st_bind (if list_all sc_passed results then on_files SuiteStore (commit snap) else st_return snap) (\<lambda>_.
        st_return results)))))))))"

definition caught :: "('p world, suite_exn, 'a) st \<Rightarrow> ('p world, suite_exn, 'a) st" where
  "caught body = (\<lambda>w. case body w of
     (Inl e, w) \<Rightarrow> (Inl (if suite_exits e then SuiteExit e else e), w)
   | (Inr x, w) \<Rightarrow> (Inr x, w))"

definition unbiasedness_main ::
  "'p resident_env \<Rightarrow> suite_ops \<Rightarrow> ((suite_case \<times> gate_arrays) list \<Rightarrow> (py_exn, byte list) result) \<Rightarrow> suite_args
     \<Rightarrow> ('p world, suite_exn, unit) st" where
  "unbiasedness_main env ops draw a =
     (if sg_seeds a < 1 then st_fail SuiteUsage
      else
        st_bind (from_world SuitePy (\<lambda>w. collect_git_provenance (tools env w) (re_stamps env) (re_build env) (fst w))) (\<lambda>git.
        st_bind (on_files SuiteStore (create_snapshot (suite_target env a git) (git_state_of git) (sg_allow_dirty a))) (\<lambda>snap.
        st_bind (caught (suite_body env ops draw a git snap)) (\<lambda>results.
          if list_all sc_passed results then st_return () else st_fail SuiteNotPassed))))"

subsection \<open>The expectation is that of the rounding\<close>

lemma fp_round_neg: "fp_round F (\<not> s) r = fp_neg (fp_round F s r)"
  by (simp add: fp_round_def fp_neg_def)

lemma fp_mul_neg: "fp_mul F (fp_neg x) y = fp_neg (fp_mul F x y)"
  by (cases x; cases y) (auto simp: fp_neg_def fp_round_def)

lemma fp_div_neg: "fp_div F (fp_neg x) y = fp_neg (fp_div F x y)"
  by (cases x; cases y) (auto simp: fp_neg_def fp_round_def)

lemma fp_floor_FFin: "fp_floor (FFin False v) = FFin False (of_int \<lfloor>v\<rfloor>)"
  by (simp add: fp_floor_def)

text \<open>The steps of the expectation for a scaled magnitude \<open>v\<close> are exact.\<close>

lemma realised_probability:
  assumes "on_grid binary32 v" "0 \<le> v" "v \<le> 127"
  defines "k \<equiv> nat \<lfloor>(v - of_int \<lfloor>v\<rfloor>) * 2 ^ 32\<rfloor>"
  shows "fp_div binary64 (fp_floor (fp_cast binary64 (fp_mul binary32 (fp_sub binary32 (FFin False v) (FFin False (of_int \<lfloor>v\<rfloor>)))
      (fp_of_nat (2 ^ 32))))) (fp_of_nat (2 ^ 32)) = FFin False (of_nat k / 2 ^ 32)"
proof -
  obtain j e where j: "v - of_int \<lfloor>v\<rfloor> = of_int j * 2 powi e" "0 \<le> j" "j \<le> 2 ^ 24" "- 149 \<le> e"
    using fraction_on_grid [OF assms(1-3)] .
  define f where "f = v - of_int \<lfloor>v\<rfloor>"
  have f: "0 \<le> f" "f < 1" by (simp_all add: f_def) linarith
  have g32: "on_grid binary32 f" using on_grid_small [of binary32 f j e] j by (simp add: f_def)
  have "f * 2 ^ 32 = of_int j * 2 powi (e + 32)" using j(1) by (simp add: f_def power_int_add)
  then have g: "on_grid binary32 (f * 2 ^ 32)" "on_grid binary64 (f * 2 ^ 32)"
    using on_grid_small [of binary32 "f * 2 ^ 32" j "e + 32"] on_grid_small [of binary64 "f * 2 ^ 32" j "e + 32"] j by simp_all
  have sub: "fp_sub binary32 (FFin False v) (FFin False (of_int \<lfloor>v\<rfloor>)) = FFin False f"
  proof (cases "f = 0")
    case False
    then show ?thesis using f r32.rnd_id [OF f(1) g32] of_int_floor_le [of v]
      by (simp add: not_less fp_sub_def fp_neg_def fp_of_rat_def fp_num_def fp_round_def maxfin32 f_def)
  qed (simp add: fp_sub_def fp_neg_def fp_of_rat_def fp_num_def f_def)
  have max: "(2::rat) ^ 32 \<le> maxfin binary64" "(2::rat) ^ 32 \<le> maxfin binary32" by (simp_all add: maxfin_def)
  have le: "f * 2 ^ 32 \<le> 2 ^ 32" using f by simp
  then have mul: "fp_mul binary32 (FFin False f) (fp_of_nat (2 ^ 32)) = FFin False (f * 2 ^ 32)"
    using f(1) r32.rnd_id [OF _ g(1)] max by (simp add: fp_of_nat_def fp_round_def)
  have cast: "fp_cast binary64 (FFin False (f * 2 ^ 32)) = FFin False (f * 2 ^ 32)"
    using f(1) r64.rnd_id [OF _ g(2)] max le by (simp add: fp_cast_def fp_round_def)
  have k: "of_int \<lfloor>f * 2 ^ 32\<rfloor> = (of_nat k :: rat)" using f(1) by (simp add: k_def f_def)
  have "\<lfloor>f * 2 ^ 32\<rfloor> \<le> 2 ^ 32" using le by (simp add: floor_le_iff)
  then have k32: "k \<le> 2 ^ 32" by (simp add: k_def f_def nat_le_iff)
  then have kr: "(of_nat k :: rat) \<le> 2 ^ 32" by (metis of_nat_le_iff of_nat_numeral of_nat_power)
  have q: "on_grid binary64 (of_nat k / 2 ^ 32)"
  proof (rule on_grid_small [of binary64 _ "int k" "- 32"])
    show "of_nat k / (2::rat) ^ 32 = of_int (int k) * 2 powi - 32" by (simp add: power_int_def inverse_eq_divide power_one_over)
  qed (use k32 in simp_all)
  have div: "fp_div binary64 (FFin False (of_nat k)) (fp_of_nat (2 ^ 32)) = FFin False (of_nat k / 2 ^ 32)"
    using r64.rnd_id [OF _ q] max kr by (simp add: fp_of_nat_def fp_round_def)
  show ?thesis unfolding sub mul cast fp_floor_FFin k by (rule div)
qed

lemma next_level:
  assumes "0 \<le> v" "v < of_nat n" "n \<le> 127"
  shows "fp_min (fp_add binary32 (FFin False (of_int \<lfloor>v\<rfloor>)) (fp_of_nat 1)) (fp_of_nat n) = FFin False (of_int (\<lfloor>v\<rfloor> + 1))"
proof -
  have "\<lfloor>v\<rfloor> < int n" using assms(2) by (simp add: floor_less_iff)
  then have le: "\<lfloor>v\<rfloor> + 1 \<le> int n" by simp
  define m where "m = nat (\<lfloor>v\<rfloor> + 1)"
  have m: "of_int \<lfloor>v\<rfloor> + 1 = (of_nat m :: rat)" "m \<le> n" "0 < m" using assms(1) le by (simp_all add: m_def)
  have "(of_nat m :: rat) \<le> of_nat 127" using m(2) assms(3) by (simp only: of_nat_le_iff)
  then have mx: "(of_nat m :: rat) \<le> maxfin binary32" by (simp add: maxfin32)
  have "fp_add binary32 (FFin False (of_int \<lfloor>v\<rfloor>)) (fp_of_nat 1) = FFin False (of_nat m)"
    using m(1,3) r32.rnd_nat [of m] m(2) assms(3) mx
    by (simp add: fp_of_nat_def fp_of_rat_def fp_num_def fp_round_def)
  then show ?thesis using m by (simp add: fp_min_def fp_of_nat_def fp_num_def)
qed

lemma decode_level:
  assumes "int (unat c) = int s + (if negative then - m else m)" "0 \<le> m"
  shows "fp_cast binary64 (decode_code s sc c) = decoded_level (FFin False (of_int m)) negative s sc"
proof -
  have "fp_of_int (int (unat c) - int s) = (if negative \<and> m \<noteq> 0 then fp_neg (FFin False (of_int m)) else FFin False (of_int m))"
    using assms by (simp add: fp_of_int_def fp_neg_def)
  then show ?thesis
    by (simp add: decode_code_def decoded_level_def Let_def fp_mul_neg fp_div_neg fp_eq_def fp_zero_def fp_num_def)
qed

text \<open>
  C37: The weights and the values of the suite's expectation are those of the oracle's rounding over one random word. The
  realised probability \<open>q\<close> of an element is \<open>k / 2 ^ 32\<close> with no rounding error, where for exactly the \<open>k\<close> words below \<open>k\<close> the
  code that \<open>round_codes_fp32\<close> chooses decodes to the upper value of the expectation, and for all others to the lower one.
\<close>

theorem expectation_realised:
  assumes "val32 x" "val32 sc" "\<not> fp_lt sc fp_zero" "\<not> fp_eq sc fp_zero" "signed_limit_for bits = Inr s"
  shows "\<exists>k. ue_q (suite_expectation sc s x) = FFin False (of_nat k / 2 ^ 32) \<and> card {w :: 32 word. unat w < k} = k
    \<and> (\<forall>w. fp_cast binary64 (decode_code s sc (round_code s sc x w)) =
          (if unat w < k then ue_high (suite_expectation sc s x) else ue_low (suite_expectation sc s x)))"
proof -
  have s: "0 < s" "s \<le> 127" using assms(5) by (auto simp: signed_limit_Inr)
  obtain v where v: "scaled_level s sc x = FFin False v" "0 \<le> v" "v \<le> of_nat s" "on_grid binary32 v"
    using scaled_level_fin [OF assms(1-4) s] .
  have "(of_nat s :: rat) \<le> of_nat 127" using s(2) by (simp only: of_nat_le_iff)
  then have v127: "v \<le> 127" using v(3) by simp
  define k where "k = nat \<lfloor>(v - of_int \<lfloor>v\<rfloor>) * 2 ^ 32\<rfloor>"
  let ?e = "suite_expectation sc s x"
  note e = suite_expectation_def [of sc s x, folded scaled_level_def, unfolded v(1) Let_def fp_floor_FFin]
  have q: "ue_q ?e = FFin False (of_nat k / 2 ^ 32)"
    unfolding k_def e by (simp only: expected_element.simps realised_probability [OF v(4,2) v127])
  have low: "ue_low ?e = decoded_level (FFin False (of_int \<lfloor>v\<rfloor>)) (fp_signbit x) s sc" by (simp add: e)
  have high: "ue_high ?e = decoded_level (FFin False (of_int (\<lfloor>v\<rfloor> + 1))) (fp_signbit x) s sc" if "0 < k"
  proof -
    have "v \<noteq> of_nat s" using that by (auto simp: k_def)
    then have "v < of_nat s" using v(3) by simp
    then show ?thesis unfolding e by (simp only: expected_element.simps next_level [OF v(2) _ s(2)])
  qed
  note code = round_code_unat [OF v(1,4,2,3) s(2)] and mag = round_magnitude_fin [OF v(4,2) v127, folded k_def]
  have nonneg: "0 \<le> round_magnitude (FFin False v) w" for w by (rule round_magnitude_range [OF v(4,2,3) s(2)])
  have "fp_cast binary64 (decode_code s sc (round_code s sc x w)) = (if unat w < k then ue_high ?e else ue_low ?e)" for w
    using decode_level [OF code nonneg, of sc w] high by (auto simp: mag low)
  moreover have "(v - of_int \<lfloor>v\<rfloor>) * 2 ^ 32 < 2 ^ 32" using frac_lt_1 [of v] by (simp add: frac_def)
  then have "k \<le> 2 ^ 32" unfolding k_def by (simp add: nat_le_iff floor_le_iff)
  ultimately show ?thesis using q card_words_below by blast
qed

theorem expectation_realised_witness:
  "\<exists>k. ue_q (suite_expectation (FFin False 4) 127 (FFin True 3)) = FFin False (of_nat k / 2 ^ 32)
     \<and> (\<forall>w. fp_cast binary64 (decode_code 127 (FFin False 4) (round_code 127 (FFin False 4) (FFin True 3) w)) =
          (if unat w < k then ue_high (suite_expectation (FFin False 4) 127 (FFin True 3)) else ue_low (suite_expectation (FFin False 4) 127 (FFin True 3))))"
proof -
  have v: "val32 (FFin True 3)" "val32 (FFin False 4)"
    using r32.grid_nat [of 3] r32.grid_nat [of 4] by (simp_all add: val32_FFin maxfin32)
  have z: "\<not> fp_lt (FFin False 4) fp_zero" "\<not> fp_eq (FFin False 4) fp_zero"
    by (simp_all add: fp_zero_def fp_num_def fp_eq_def)
  have s: "signed_limit_for 8 = Inr 127" by (simp add: signed_limit_for_def)
  show ?thesis using expectation_realised [OF v z s] by blast
qed

subsection \<open>What a published suite has passed\<close>

definition element_passed :: "int \<Rightarrow> fp \<Rightarrow> nat \<Rightarrow> fp \<Rightarrow> fp \<Rightarrow> bool" where
  "element_passed seeds scale s x total_sum =
     (let e = suite_expectation scale s x; mean = element_mean seeds total_sum in
      fp_finite total_sum \<and> (if fp_zero < ue_q e then error_ratio seeds e mean \<le> fp_of_nat 1 else fp_eq mean (ue_low e)))"

lemma analysis_passed:
  assumes "analyse np_sum xs scale s totals squares seeds = Inr (g, arrays)"
  shows "ug_passed g \<longleftrightarrow> list_all2 (element_passed seeds scale s) xs totals \<and> list_all fp_finite squares"
proof -
  let ?es = "map (suite_expectation scale s) xs" and ?mean = "map (element_mean seeds) totals"
  have n: "length totals = length xs" using assms by (auto simp: analyse_def split: if_splits)
  have g: "ug_passed g \<longleftrightarrow> (list_all fp_finite totals \<and> list_all fp_finite squares) \<and> list_all2 exact_mean ?es ?mean
      \<and> filter (\<lambda>r. \<not> within_bound r) (map2 (error_ratio seeds) ?es ?mean) = []"
    using assms by (auto simp: analyse_def Let_def result_simps split: if_splits)
  have over: "filter (\<lambda>r. \<not> within_bound r) (map2 (error_ratio seeds) ?es ?mean) = []
      \<longleftrightarrow> (\<forall>i < length xs. within_bound (error_ratio seeds (suite_expectation scale s (xs ! i)) (element_mean seeds (totals ! i))))"
    using n by (simp add: filter_empty_conv all_set_conv_all_nth)
  have exact: "list_all2 exact_mean ?es ?mean
      \<longleftrightarrow> (\<forall>i < length xs. exact_mean (suite_expectation scale s (xs ! i)) (element_mean seeds (totals ! i)))"
    by (simp add: list_all2_conv_all_nth n)
  have finite: "list_all fp_finite totals \<longleftrightarrow> (\<forall>i < length xs. fp_finite (totals ! i))"
    by (simp add: list_all_length n)
  have "within_bound fp_zero" by (simp add: within_bound_def less_eq_fp_def fp_zero_def fp_of_nat_def fp_eq_def fp_num_def)
  then have "element_passed seeds scale s x t \<longleftrightarrow> fp_finite t \<and> exact_mean (suite_expectation scale s x) (element_mean seeds t)
      \<and> within_bound (error_ratio seeds (suite_expectation scale s x) (element_mean seeds t))" for x t
    by (simp add: element_passed_def Let_def exact_mean_def stochastic_def error_ratio_def within_bound_def)
  then have "list_all2 (element_passed seeds scale s) xs totals \<longleftrightarrow> (\<forall>i < length xs. fp_finite (totals ! i)
      \<and> exact_mean (suite_expectation scale s (xs ! i)) (element_mean seeds (totals ! i))
      \<and> within_bound (error_ratio seeds (suite_expectation scale s (xs ! i)) (element_mean seeds (totals ! i))))"
    by (simp add: list_all2_conv_all_nth n)
  then show ?thesis unfolding g over exact finite by blast
qed

text \<open>One case that passed: each backend wrote the same bytes, which hold a sum and a square that fit every element.\<close>

definition case_passed_gate :: "suite_args \<Rightarrow> suite_input \<times> nat \<Rightarrow> suite_case \<Rightarrow> bool" where
  "case_passed_gate a = (\<lambda>(item, bits) c.
     sc_input c = si_name item \<and> sc_bits c = bits \<and> sc_backends c = sg_backends a
     \<and> (\<exists>(runs :: (string \<times> json \<times> byte list) list) raw values s. map fst runs = sg_backends a \<and> (\<forall>b \<in> set (sg_backends a). \<exists>meta. map_of (dict_update [] runs) b = Some (meta, raw))
        \<and> frombuffer_f8 raw = Inr values \<and> signed_limit_for bits = Inr s
        \<and> list_all2 (element_passed (sg_seeds a) (ug_scale (sc_gate c)) s) (si_values item) (take (length (si_values item)) values)
        \<and> list_all fp_finite (drop (length (si_values item)) values)))"

lemma judged_case:
  assumes j: "judge_case ops item bits (sg_seeds a) (sg_backends a) runs = Inr (c, arrays)"
    and k: "map fst runs = sg_backends a" and passed: "sc_passed c"
  shows "case_passed_gate a (item, bits) c"
proof -
  let ?t = "dict_update [] runs" and ?n = "length (si_values item)"
  obtain b bs meta raw xs scale s g where b: "sg_backends a = b # bs" and m: "map_of ?t b = Some (meta, raw)"
    and v: "frombuffer_f8 raw = Inr xs" "signed_limit_for bits = Inr s"
    and an: "analyse (so_sum ops) (si_values item) scale s (take ?n xs) (drop ?n xs) (sg_seeds a) = Inr (g, arrays)"
    and c: "c = \<lparr>sc_input = si_name item, sc_bits = bits, sc_seeds = sg_seeds a, sc_backends = sg_backends a,
        sc_identical = (card (set (map (\<lambda>(k, meta, raw). raw) ?t)) = 1), sc_provenance = si_provenance item, sc_gate = g,
        sc_passed = (ug_passed g \<and> (card (set (map (\<lambda>(k, meta, raw). raw) ?t)) = 1))\<rparr>"
    using j by (auto simp: judge_case_def Let_def result_simps SIGNED_LIMITS_def split: list.splits option.splits)
  have gate: "ug_passed g" "card (set (map (\<lambda>(k, meta, raw). raw) ?t)) = 1" using passed by (simp_all add: c)
  then obtain d where d: "set (map (\<lambda>(k, meta, raw). raw) ?t) = {d}" by (meson card_1_singletonE)
  have one: "r = d" if "map_of ?t q = Some (mt, r)" for q mt r
    using d map_of_SomeD [OF that] by force
  have "\<exists>mt. map_of ?t q = Some (mt, raw)" if "q \<in> set (sg_backends a)" for q
  proof -
    have "q \<in> set (map fst ?t)" using that k by (simp add: dict_update_keys del: set_map)
    then obtain mt r where "map_of ?t q = Some (mt, r)" by (metis map_of_eq_None_iff not_None_eq list.set_map surj_pair)
    then show ?thesis using one m by blast
  qed
  moreover have "scale = ug_scale g" using an by (auto simp: analyse_def Let_def result_simps split: if_splits)
  ultimately show ?thesis using v gate(1) analysis_passed [OF an] k unfolding case_passed_gate_def c
    by (simp only: prod.case suite_case.simps) blast
qed

lemma suite_case_judged:
  assumes "suite_case_of env ops binary work (sg_seeds a) (sg_backends a) input item bits w = (Inr (c, arrays), w')" "sc_passed c"
  shows "case_passed_gate a (item, bits) c"
proof -
  obtain runs w1 where t: "st_traverse (expect_backend env binary work input (si_name item) bits (sg_seeds a)) (sg_backends a) w = (Inr runs, w1)"
    and j: "judge_case ops item bits (sg_seeds a) (sg_backends a) runs = Inr (c, arrays)"
    using assms(1) by (auto simp: suite_case_of_def st_lift_Inr elim!: st_bindE)
  have "list_all2 (\<lambda>b r. fst r = b) (sg_backends a) runs"
    by (rule st_traverse_all2 [OF t]) (auto simp: expect_backend_def Let_def st_return_Inr elim!: st_bindE)
  then have "map fst runs = sg_backends a" by (auto simp: list_all2_conv_all_nth intro: nth_equalityI)
  then show ?thesis by (rule judged_case [OF j _ assms(2)])
qed

lemma run_suite_cases:
  assumes "run_suite env ops binary work (sg_seeds a) (sg_backends a) (sg_input_seed a) w = (Inr cases, w')"
    and "list_all sc_passed (map fst cases)"
  obtains items where "suite_inputs ops (sg_input_seed a) = Inr items"
    "list_all2 (case_passed_gate a) (List.product items BIT_WIDTHS) (map fst cases)"
proof -
  obtain items groups w1 where i: "suite_inputs ops (sg_input_seed a) = Inr items"
    and t: "st_traverse (suite_item env ops binary work (sg_seeds a) (sg_backends a)) items w1 = (Inr groups, w')"
    and c: "cases = concat groups"
    using assms(1) by (auto simp: run_suite_def st_lift_Inr st_return_Inr elim!: st_bindE)
  have "list_all2 (\<lambda>item g. list_all2 (\<lambda>bits x. sc_passed (fst x) \<longrightarrow> case_passed_gate a (item, bits) (fst x)) BIT_WIDTHS g) items groups"
  proof (rule st_traverse_all2 [OF t])
    fix item w g w' assume "suite_item env ops binary work (sg_seeds a) (sg_backends a) item w = (Inr g, w')"
    then obtain w2 where "st_traverse (suite_case_of env ops binary work (sg_seeds a) (sg_backends a) (work @ [si_name item @ ''.f32'']) item)
        BIT_WIDTHS w2 = (Inr g, w')" by (auto simp: suite_item_def Let_def elim!: st_bindE)
    then show "list_all2 (\<lambda>bits x. sc_passed (fst x) \<longrightarrow> case_passed_gate a (item, bits) (fst x)) BIT_WIDTHS g"
      by (rule st_traverse_all2) (metis prod.collapse suite_case_judged)
  qed
  then have "list_all2 (\<lambda>ib x. sc_passed (fst x) \<longrightarrow> case_passed_gate a ib (fst x)) (List.product items BIT_WIDTHS) (concat groups)"
    by (induction rule: list_all2_induct) (auto simp: list_all2_map1 intro!: list_all2_appendI)
  then have "list_all2 (case_passed_gate a) (List.product items BIT_WIDTHS) (map fst cases)"
    using assms(2) by (auto simp: c list_all2_conv_all_nth list_all_length)
  then show thesis using that i by blast
qed

lemma caught_Inr: "caught body w = (Inr x, w') \<longleftrightarrow> body w = (Inr x, w')"
  by (auto simp: caught_def split: prod.splits sum.splits)

lemma written_report:
  assumes "on_file raise (write_file p (JsonDoc (JObj report))) w = (Inr (), w')"
  shows "read_json (fst w') p = Some (JObj report)"
proof -
  have "fst w' = put p (File (JsonDoc (JObj report))) (fst w)"
    using assms by (auto simp: on_file_Inr write_file_def split: if_splits)
  then show ?thesis by (simp add: read_json_def read_file_def)
qed

text \<open>A failure inside the suite is never reported as a suite that did not pass.\<close>

lemma st_bind_Inl:
  "st_bind m f p = (Inl e, p') \<longleftrightarrow> m p = (Inl e, p') \<or> (\<exists>x q. m p = (Inr x, q) \<and> f x q = (Inl e, p'))"
  by (auto simp: st_bind_def split: prod.splits sum.splits)

definition not_verdict :: "('p, suite_exn, 'a) st \<Rightarrow> bool" where
  "not_verdict m \<longleftrightarrow> (\<forall>p p'. m p \<noteq> (Inl SuiteNotPassed, p'))"

lemma not_verdictD: "not_verdict m \<Longrightarrow> m p = (Inl SuiteNotPassed, p') \<Longrightarrow> P"
  by (simp add: not_verdict_def)

lemma not_verdict_bind: "not_verdict m \<Longrightarrow> (\<And>x. not_verdict (f x)) \<Longrightarrow> not_verdict (st_bind m f)"
  by (auto simp: not_verdict_def st_bind_Inl)

lemma not_verdict_return: "not_verdict (st_return x)" "not_verdict (\<lambda>(fs, p). (Inr y, g fs p))"
  by (simp_all add: not_verdict_def st_return_def split: prod.splits)

lemma not_verdict_traverse: "(\<And>x. not_verdict (f x)) \<Longrightarrow> not_verdict (st_traverse f xs)"
  by (induction xs) (auto intro!: not_verdict_bind not_verdict_return)

lemma not_verdict_lift: "not_verdict (st_lift (map_sum SuitePy f m))"
  by (cases m) (simp_all add: not_verdict_def st_lift_def)

lemma not_verdict_files:
  "not_verdict (on_file SuitePy m)" "not_verdict (on_files SuitePy g)" "not_verdict (on_files SuiteStore h)"
  "not_verdict (from_world SuitePy k)" "not_verdict (from_world SuiteProvenance l)"
  by (auto simp: not_verdict_def on_file_def on_files_def from_world_def split: prod.splits sum.splits)

lemma not_verdict_expect: "not_verdict (run_expect env binary input out bk bits seeds)"
  by (auto simp: not_verdict_def run_expect_def split: prod.splits proc_outcome.splits if_splits option.splits)

lemmas not_verdict_intros = not_verdict_bind not_verdict_return not_verdict_traverse not_verdict_lift not_verdict_files
  not_verdict_expect

lemma not_verdict_suite: "not_verdict (run_suite env ops binary work seeds backends input_seed)"
  unfolding run_suite_def suite_item_def suite_case_of_def expect_backend_def Let_def by (intro not_verdict_intros)

lemma not_verdict_body: "not_verdict (caught (suite_body env ops draw a git snap))"
proof -
  have "not_verdict (suite_body env ops draw a git snap)"
    unfolding suite_body_def Let_def by (auto intro!: not_verdict_intros not_verdict_suite split: prod.splits)
  then show ?thesis by (auto simp: not_verdict_def caught_def split: prod.splits sum.splits)
qed

lemma suite_success:
  assumes "unbiasedness_main env ops draw a w = (Inr (), w')"
  shows "\<exists>items results report git snap snap' fs. suite_inputs ops (sg_input_seed a) = Inr items
    \<and> list_all2 (case_passed_gate a) (List.product items BIT_WIDTHS) results
    \<and> read_json fs (partial snap @ [RESULTS]) = Some (JObj report) \<and> get_field report ''all_passed'' = JBool True
    \<and> get_field report ''cases'' = JList (map (\<lambda>c. JObj (suite_case_items c)) results)
    \<and> get_field report ''evidence'' = JBool (\<not> git_dirty (git_state_of git) \<and> sg_seeds a = SUITE_SEEDS
        \<and> sg_backends a = BACKENDS \<and> sg_input_seed a = DEFAULT_INPUT_SEED)
    \<and> final snap = suite_target env a git \<and> commit snap fs = Inr (snap', fst w')"
proof -
  obtain git snap results w1 w2 where snap: "on_files SuiteStore (create_snapshot (suite_target env a git) (git_state_of git) (sg_allow_dirty a)) w1 = (Inr snap, w2)"
    and body: "suite_body env ops draw a git snap w2 = (Inr results, w')" and passed: "list_all sc_passed results"
    using assms by (auto simp: unbiasedness_main_def caught_Inr st_return_Inr st_fail_Inr elim!: st_bindE split: if_splits)
  obtain binary stamp cases w3 w4 w5 w6 snap' where
      run: "run_suite env ops binary (partial snap @ [''_temp'']) (sg_seeds a) (sg_backends a) (sg_input_seed a) w3 = (Inr cases, w4)"
    and wr: "on_file SuitePy (write_file (partial snap @ [RESULTS]) (JsonDoc (JObj (suite_report ops a git stamp results)))) w5 = (Inr (), w6)"
    and co: "on_files SuiteStore (commit snap) w6 = (Inr snap', w')" and r: "results = map fst cases"
    using body passed by (auto simp: suite_body_def Let_def st_return_Inr elim!: st_bindE)
  obtain items where i: "suite_inputs ops (sg_input_seed a) = Inr items"
    "list_all2 (case_passed_gate a) (List.product items BIT_WIDTHS) results"
    using run_suite_cases [OF run] passed r by blast
  note written_report [OF wr]
  moreover have "get_field (suite_report ops a git stamp results) ''all_passed'' = JBool True"
      "get_field (suite_report ops a git stamp results) ''cases'' = JList (map (\<lambda>c. JObj (suite_case_items c)) results)"
      "get_field (suite_report ops a git stamp results) ''evidence'' = JBool (\<not> git_dirty (git_state_of git) \<and> sg_seeds a = SUITE_SEEDS
        \<and> sg_backends a = BACKENDS \<and> sg_input_seed a = DEFAULT_INPUT_SEED)"
    using passed by (simp_all add: suite_report_def Let_def get_field_def suite_reasons_def)
  moreover have "final snap = suite_target env a git"
    using snap by (auto simp: on_files_Inr create_snapshot_def Let_def result_simps)
  moreover have "commit snap (fst w6) = Inr (snap', fst w')" using co by (simp add: on_files_Inr)
  ultimately show ?thesis using i by blast
qed

lemma suite_failure:
  assumes "unbiasedness_main env ops draw a w = (Inl SuiteNotPassed, w')"
  shows "\<exists>results (snap :: snapshot) report. \<not> list_all sc_passed results
    \<and> read_json (fst w') (partial snap @ [RESULTS]) = Some (JObj report) \<and> get_field report ''all_passed'' = JBool False
    \<and> get_field report ''cases'' = JList (map (\<lambda>c. JObj (suite_case_items c)) results)"
proof -
  obtain git snap results w1 where body: "suite_body env ops draw a git snap w1 = (Inr results, w')"
    and failed: "\<not> list_all sc_passed results"
    using assms by (auto simp: unbiasedness_main_def st_bind_Inl caught_Inr st_return_def st_fail_def split: if_splits
      dest: not_verdictD [OF not_verdict_body] not_verdictD [OF not_verdict_files(3)] not_verdictD [OF not_verdict_files(4)])
  obtain stamp w5 where
    wr: "on_file SuitePy (write_file (partial snap @ [RESULTS]) (JsonDoc (JObj (suite_report ops a git stamp results)))) w5 = (Inr (), w')"
    using body failed by (auto simp: suite_body_def Let_def st_return_Inr elim!: st_bindE)
  have "get_field (suite_report ops a git stamp results) ''all_passed'' = JBool False"
      "get_field (suite_report ops a git stamp results) ''cases'' = JList (map (\<lambda>c. JObj (suite_case_items c)) results)"
    using failed by (simp_all add: suite_report_def Let_def get_field_def)
  then show ?thesis using failed written_report [OF wr] by blast
qed


end
