(* ===== verification/Report.thy ===== *)
theory Report
  imports Schema Host Snapshot_Store
begin

text \<open>
  The report of a size sweep (\<open>src/stoquant/report.py\<close>) and the readers of stored claims in \<open>src/stoquant/stats.py\<close>:
  the index of the cases, the crossover rule, the summary table, and the rendering of a snapshot into its derived
  directory. The figures (matplotlib), the publication renderer and the text of a number are arguments. Counts and
  bit widths are integers, as the sweep writes them. The lemmas say when a crossover is resolved.
\<close>

subsection \<open>Stored claims\<close>

definition stats_direction :: "(string \<times> json) list \<Rightarrow> bool" where
  "stats_direction stats =
     (case map_of stats ''direction_supported'' of
        Some v \<Rightarrow> truthy v
      | None \<Rightarrow> get_field stats ''verdict'' \<in> {JStr ''faster'', JStr ''slower''}
          \<and> \<not> truthy (get_field stats ''boundary_inversion''))"

definition stats_magnitude :: "(string \<times> json) list \<Rightarrow> bool option" where
  "stats_magnitude stats =
     (case get_field stats ''magnitude_supported'' of JNull \<Rightarrow> None | JBool b \<Rightarrow> Some b | v \<Rightarrow> Some (truthy v))"

definition stats_rev2 :: "(string \<times> json) list \<Rightarrow> bool" where
  "stats_rev2 stats =
     truthy (case map_of stats ''claim_supported_rev2'' of Some v \<Rightarrow> v | None \<Rightarrow> get_field stats ''claim_supported'')"

subsection \<open>Cases\<close>

type_synonym items = "(string \<times> json) list"
type_synonym case_index = "((int \<times> int \<times> string) \<times> items) list"

definition REPORT_LABELS :: "string list" where
  "REPORT_LABELS = [''C comparator'', ''AVX2 comparator (descriptive)'', ''CUDA resident'', ''CUDA resident-graph'', ''CUDA host-origin'']"

definition PATHS :: "string list" where
  "PATHS = map path_key REPORT_PATHS"

definition CUDA_PATHS :: "string list" where
  "CUDA_PATHS = map path_key (filter (\<lambda>p. backend p = ''cuda'') REPORT_PATHS)"

definition LABELS :: "string \<Rightarrow> (py_exn, string) result" where
  "LABELS path = (case map_of (zip PATHS REPORT_LABELS) path of None \<Rightarrow> Inl (KeyError path) | Some l \<Rightarrow> Inr l)"

definition item :: "items \<Rightarrow> string \<Rightarrow> (py_exn, json) result" where
  "item items k = (case map_of items k of None \<Rightarrow> Inl (KeyError k) | Some v \<Rightarrow> Inr v)"

definition object_item :: "items \<Rightarrow> string \<Rightarrow> (py_exn, items) result" where
  "object_item items k =
     bindE (item items k) (\<lambda>v. case v of JObj inner \<Rightarrow> Inr inner | _ \<Rightarrow> Inl (TypeError k))"

definition integer_item :: "items \<Rightarrow> string \<Rightarrow> (py_exn, int) result" where
  "integer_item items k =
     bindE (item items k) (\<lambda>v. case v of JInt z \<Rightarrow> Inr z | _ \<Rightarrow> Inl (TypeError k))"

definition case_family :: "items \<Rightarrow> json" where
  "case_family c = (case map_of c ''input_family'' of None \<Rightarrow> JStr ''dense'' | Some v \<Rightarrow> v)"

text \<open>The conditions of the comprehension, in its order; \<open>Some\<close> key is a case the index keeps.\<close>

definition indexed_key :: "items \<Rightarrow> (py_exn, (int \<times> int \<times> string) option) result" where
  "indexed_key c =
     bindE (object_item c ''correctness'') (\<lambda>correctness.
     bindE (item correctness ''status'') (\<lambda>status.
       if status \<noteq> JStr ''passed'' then Inr None
       else bindE (item c ''statistics'') (\<lambda>statistics.
         if statistics = JNull then Inr None
         else bindE (item c ''timing_boundary'') (\<lambda>bd.
           case bd of
             JStr path \<Rightarrow>
               if path \<in> set PATHS \<and> get_field c ''transfer_policy'' \<noteq> JStr ''pinned'' \<and> case_family c = JStr ''dense''
               then bindE (integer_item c ''count'') (\<lambda>n. bindE (integer_item c ''bits'') (\<lambda>bits. Inr (Some (n, bits, path))))
               else Inr None
           | _ \<Rightarrow> Inr None))))"

fun index_cases :: "items list \<Rightarrow> case_index \<Rightarrow> (py_exn, case_index) result" where
  "index_cases [] indexed = Inr indexed"
| "index_cases (c # cs) indexed =
     bindE (indexed_key c) (\<lambda>key.
       index_cases cs (case key of None \<Rightarrow> indexed | Some k \<Rightarrow> dict_set indexed k c))"

definition finite_number :: "json \<Rightarrow> bool" where
  "finite_number v = (case v of JBool b \<Rightarrow> True | JInt z \<Rightarrow> True | JFloat x \<Rightarrow> fp_finite x | _ \<Rightarrow> False)"

definition speedup_interval :: "items \<Rightarrow> json \<times> json" where
  "speedup_interval stats =
     (let low = get_field stats ''speedup_ci_low''; high = get_field stats ''speedup_ci_high'' in
      if low \<noteq> JNull \<and> high \<noteq> JNull then (low, high)
      else (get_field stats ''speedup_low'', get_field stats ''speedup_high''))"

definition has_speedup_data :: "items \<Rightarrow> string \<Rightarrow> bool" where
  "has_speedup_data stats point_key =
     (let (low, high) = speedup_interval stats in list_all finite_number [get_field stats point_key, low, high])"

text \<open>Powers of two by their exponent; \<open>and\<close> and \<open>bit_length\<close> as on Python integers, zero and negative ones included.\<close>

definition power_label :: "int \<Rightarrow> string" where
  "power_label n = (if and n (n - 1) = 0 then ''2^'' @ str_int (int (bit_length (nat \<bar>n\<bar>)) - 1) else str_int n)"

subsection \<open>Crossovers\<close>

datatype crossover =
    Resolved int int string
  | NotResolved "(int \<times> int) list" "int option" "int option"

record sweep_point =
  sp_count :: int
  sp_verdict :: string
  sp_supported :: bool

definition point_of :: "(items \<Rightarrow> bool) \<Rightarrow> int \<Rightarrow> items \<Rightarrow> (py_exn, sweep_point) result" where
  "point_of supported n c =
     bindE (object_item c ''statistics'') (\<lambda>stats.
     bindE (item stats ''verdict'') (\<lambda>v.
       case v of
         JStr verdict \<Rightarrow> Inr \<lparr>sp_count = n, sp_verdict = verdict, sp_supported = supported stats\<rparr>
       | _ \<Rightarrow> Inl (TypeError ''verdict'')))"

definition sweep_points ::
  "case_index \<Rightarrow> int list \<Rightarrow> int \<Rightarrow> string \<Rightarrow> (items \<Rightarrow> bool) \<Rightarrow> (py_exn, sweep_point list) result" where
  "sweep_points indexed counts bits path supported =
     traverse (\<lambda>(n, c). point_of supported n c)
       (concat (map (\<lambda>n. case map_of indexed (n, bits, path) of None \<Rightarrow> [] | Some c \<Rightarrow> [(n, c)]) counts))"

definition opposite :: "sweep_point \<Rightarrow> sweep_point \<Rightarrow> bool" where
  "opposite a b \<longleftrightarrow> sp_supported a \<and> sp_supported b \<and> {sp_verdict a, sp_verdict b} = {''faster'', ''slower''}"

definition flips_of :: "sweep_point list \<Rightarrow> (sweep_point \<times> sweep_point) list" where
  "flips_of points = filter (\<lambda>(a, b). opposite a b) (zip points (tl points))"

definition supported_counts :: "string \<Rightarrow> sweep_point list \<Rightarrow> int list" where
  "supported_counts verdict points = map sp_count (filter (\<lambda>p. sp_supported p \<and> sp_verdict p = verdict) points)"

definition judge_crossover :: "sweep_point list \<Rightarrow> crossover" where
  "judge_crossover points =
     (let flips = flips_of points;
          slower = supported_counts ''slower'' points; faster = supported_counts ''faster'' points
      in case flips of
           [(a, b)] \<Rightarrow> Resolved (sp_count a) (sp_count b) (sp_verdict a @ '' to '' @ sp_verdict b)
         | _ \<Rightarrow> NotResolved (map (\<lambda>(a, b). (sp_count a, sp_count b)) flips)
             (case slower of [] \<Rightarrow> None | x # xs \<Rightarrow> Some (foldl max x xs))
             (case faster of [] \<Rightarrow> None | x # xs \<Rightarrow> Some (foldl min x xs)))"

definition find_crossovers ::
  "case_index \<Rightarrow> int list \<Rightarrow> int \<Rightarrow> string \<Rightarrow> (items \<Rightarrow> bool) \<Rightarrow> (py_exn, crossover) result" where
  "find_crossovers indexed counts bits path supported =
     bindE (sweep_points indexed counts bits path supported) (\<lambda>points. Inr (judge_crossover points))"

subsection \<open>The text of the report\<close>

text \<open>
  Text is its UTF-8 encoding. \<open>ro_number\<close> is Python's \<open>format(value, ".<n>g")\<close> and \<open>ro_text\<close> is \<open>format(value, "")\<close> of a
  JSON value that is neither text nor a truth value; \<open>ro_plot\<close> draws a figure and \<open>ro_publication\<close> is the renderer of
  publication snapshots, which returns the figures and the report it wrote.
\<close>

definition EM_DASH :: string where "EM_DASH = [CHR 0xE2, CHR 0x80, CHR 0x94]"
definition TIMES_SIGN :: string where "TIMES_SIGN = [CHR 0xC3, CHR 0x97]"

record report_ops =
  ro_number :: "nat \<Rightarrow> json \<Rightarrow> (py_exn, string) result"
  ro_text :: "json \<Rightarrow> string"
  ro_plot :: "string \<Rightarrow> case_index \<Rightarrow> int list \<Rightarrow> int list \<Rightarrow> (py_exn, byte list) result"
  ro_publication :: "path \<Rightarrow> items \<Rightarrow> items list \<Rightarrow> path option \<Rightarrow> path option \<Rightarrow> path option \<Rightarrow> fs
    \<Rightarrow> (py_exn, (path list \<times> path) \<times> fs) result"

definition format_value :: "report_ops \<Rightarrow> json \<Rightarrow> string" where
  "format_value ops v =
     (case v of JStr s \<Rightarrow> s | JBool b \<Rightarrow> if b then ''True'' else ''False'' | _ \<Rightarrow> ro_text ops v)"

definition fmt_ms :: "report_ops \<Rightarrow> json \<Rightarrow> (py_exn, string) result" where
  "fmt_ms ops v = ro_number ops 4 v"

definition yes_no :: "bool option \<Rightarrow> string" where
  "yes_no v = (case v of None \<Rightarrow> EM_DASH | Some b \<Rightarrow> if b then ''yes'' else ''no'')"

definition speedup_text :: "report_ops \<Rightarrow> items \<Rightarrow> (py_exn, string) result" where
  "speedup_text ops stats =
     (let v = get_field stats ''speedup_vs_cpu'' in
      if finite_number v then bindE (ro_number ops 3 v) (\<lambda>t. Inr (t @ TIMES_SIGN)) else Inr EM_DASH)"

definition interval_text :: "report_ops \<Rightarrow> json \<Rightarrow> json \<Rightarrow> (py_exn, string) result" where
  "interval_text ops low high =
     (if finite_number low \<and> finite_number high
      then bindE (ro_number ops 3 low) (\<lambda>l. bindE (ro_number ops 3 high) (\<lambda>h. Inr (''['' @ l @ '', '' @ h @ '']'')))
      else Inr EM_DASH)"

definition T1_HEADER :: "string list" where
  "T1_HEADER =
     [''| Elements | Bits | Path | C (ms) | CUDA (ms) | Speedup | Trial range | 95% CI | '' @ ''Verdict | Direction | Magnitude | Rev 2 |'',
      ''|---|---|---|---|---|---|---|---|---|---|---|---|'']"

definition t1_line :: "string list \<Rightarrow> string" where
  "t1_line cells = ''| '' @ join '' | '' cells @ '' |''"

definition t1_cells :: "report_ops \<Rightarrow> items option \<Rightarrow> (py_exn, string list) result" where
  "t1_cells ops found =
     (case found of
        None \<Rightarrow> Inr (''failed'' # replicate 7 EM_DASH)
      | Some c \<Rightarrow>
          bindE (object_item c ''statistics'') (\<lambda>stats.
            if map_of stats ''verdict'' = None then Inr (''failed'' # replicate 7 EM_DASH)
            else
              bindE (speedup_text ops stats) (\<lambda>speedup.
              bindE (interval_text ops (get_field stats ''speedup_low'') (get_field stats ''speedup_high'')) (\<lambda>range.
              bindE (interval_text ops (get_field stats ''speedup_ci_low'') (get_field stats ''speedup_ci_high'')) (\<lambda>ci.
              bindE (item stats ''median_ms'') (\<lambda>median.
              bindE (fmt_ms ops median) (\<lambda>cuda_ms.
                case get_field stats ''verdict'' of
                  JStr verdict \<Rightarrow> Inr [cuda_ms, speedup, range, ci, verdict, yes_no (Some (stats_direction stats)),
                    yes_no (stats_magnitude stats), yes_no (Some (stats_rev2 stats))]
                | _ \<Rightarrow> Inl (TypeError ''sequence item: expected str instance'')))))))) "

definition t1_row :: "report_ops \<Rightarrow> case_index \<Rightarrow> int \<Rightarrow> int \<Rightarrow> string \<Rightarrow> string \<Rightarrow> (py_exn, string) result" where
  "t1_row ops indexed n bits c_ms path =
     bindE (LABELS path) (\<lambda>label.
     bindE (t1_cells ops (map_of indexed (n, bits, path))) (\<lambda>cells.
       Inr (t1_line ([power_label n, str_int bits, label, c_ms] @ cells))))"

definition comparator_ms :: "report_ops \<Rightarrow> case_index \<Rightarrow> int \<Rightarrow> int \<Rightarrow> (py_exn, string) result" where
  "comparator_ms ops indexed n bits =
     (case map_of indexed (n, bits, path_key COMPARATOR) of
        None \<Rightarrow> Inr ''failed''
      | Some cpu \<Rightarrow> bindE (object_item cpu ''statistics'') (\<lambda>stats. bindE (item stats ''median_ms'') (fmt_ms ops)))"

definition t1_table ::
  "report_ops \<Rightarrow> case_index \<Rightarrow> int list \<Rightarrow> int list \<Rightarrow> string list \<Rightarrow> (py_exn, string list) result" where
  "t1_table ops indexed counts bit_widths cuda_paths =
     bindE (traverse (\<lambda>(n, bits). bindE (comparator_ms ops indexed n bits) (\<lambda>c_ms.
              traverse (t1_row ops indexed n bits c_ms) cuda_paths)) (List.product counts bit_widths)) (\<lambda>rows.
       Inr (T1_HEADER @ concat rows))"

definition bracket_text :: "int option \<Rightarrow> string" where
  "bracket_text n = (case n of None \<Rightarrow> ''none'' | Some z \<Rightarrow> if z = 0 then ''none'' else power_label z)"

definition crossover_line :: "(int \<times> string) \<times> crossover \<Rightarrow> (py_exn, string) result" where
  "crossover_line = (\<lambda>((bits, path), result).
     bindE (LABELS path) (\<lambda>label.
       let name = label @ '', '' @ str_int bits @ ''-bit'' in
       Inr (case result of
         Resolved low high direction \<Rightarrow>
           ''- '' @ name @ '': resolved between '' @ power_label low @ '' and '' @ power_label high @ '' elements ('' @ direction @ '').''
       | NotResolved flips slower faster \<Rightarrow>
           ''- '' @ name @ '': not resolved ('' @ join ''; ''
             ((if flips = [] then [] else [str_nat (length flips) @ '' supported flips''])
              @ [''largest supported slower size: '' @ bracket_text slower,
                 ''smallest supported faster size: '' @ bracket_text faster]) @ '').'')))"

definition crossover_lines :: "((int \<times> string) \<times> crossover) list \<Rightarrow> (py_exn, string list) result" where
  "crossover_lines crossovers = traverse crossover_line crossovers"

subsection \<open>Rendering a snapshot\<close>

definition STAGE_COUNTS :: "int list" where "STAGE_COUNTS = [2 ^ 14, 2 ^ 18, 2 ^ 22, 2 ^ 26]"
definition REPORT :: string where "REPORT = ''report.md''"
definition FIGURES :: "(string \<times> string) list" where
  "FIGURES = [(''f1'', ''f1_time_vs_elements.png''), (''f2'', ''f2_speedup_vs_elements.png''),
     (''f3'', ''f3_stage_breakdown.png''), (''f4'', ''f4_graph_vs_resident.png'')]"

datatype report_exn = ReportSchema schema_error | ReportPy py_exn

record report_result =
  rr_figures :: "path list"
  rr_report :: path
  rr_crossovers :: "((int \<times> string) \<times> crossover) list"
  rr_crossovers_rev2 :: "((int \<times> string) \<times> crossover) list"

text \<open>An operation on the files that changes nothing when it raises.\<close>

definition on_disk :: "('e \<Rightarrow> 'x) \<Rightarrow> (fs \<Rightarrow> ('e, 'a \<times> fs) result) \<Rightarrow> (fs, 'x, 'a) st" where
  "on_disk raise f = (\<lambda>fs. case f fs of Inl e \<Rightarrow> (Inl (raise e), fs) | Inr (x, fs) \<Rightarrow> (Inr x, fs))"

definition save :: "path \<Rightarrow> content \<Rightarrow> (fs, report_exn, unit) st" where
  "save p c = on_disk ReportPy (\<lambda>fs. bindE (write_file p c fs) (\<lambda>fs. Inr ((), fs)))"

definition publication_case :: "items \<Rightarrow> bool" where
  "publication_case c \<longleftrightarrow> case_family c \<noteq> JStr ''dense''
     \<or> get_field c ''timing_boundary'' = JStr (boundary CUDA_GPU_ORIGIN) \<or> get_field c ''transfer_policy'' = JStr ''pinned''"

definition distinct_sorted :: "items list \<Rightarrow> string \<Rightarrow> (py_exn, int list) result" where
  "distinct_sorted cases k = bindE (traverse (\<lambda>c. integer_item c k) cases) (\<lambda>ns. Inr (sort (remdups ns)))"

definition present_cuda_paths :: "items list \<Rightarrow> string list" where
  "present_cuda_paths cases =
     (let present = filter (\<lambda>p. list_ex (\<lambda>c. get_field c ''timing_boundary'' = JStr p) cases) CUDA_PATHS
      in if present = [] then CUDA_PATHS else present)"

definition all_crossovers ::
  "case_index \<Rightarrow> int list \<Rightarrow> int list \<Rightarrow> string list \<Rightarrow> (items \<Rightarrow> bool) \<Rightarrow> (py_exn, ((int \<times> string) \<times> crossover) list) result" where
  "all_crossovers indexed counts bit_widths paths supported =
     traverse (\<lambda>(bits, path). bindE (find_crossovers indexed counts bits path supported) (\<lambda>r. Inr ((bits, path), r)))
       (List.product bit_widths paths)"

text \<open>\<open>str.upper\<close> on ASCII text.\<close>

definition upper_text :: "string \<Rightarrow> string" where
  "upper_text s = map (\<lambda>c. let n = of_char c in if 97 \<le> n \<and> n \<le> (122 :: nat) then char_of (n - 32) else c) s"

definition report_lines ::
  "report_ops \<Rightarrow> string \<Rightarrow> json \<Rightarrow> nat \<Rightarrow> json \<Rightarrow> string list \<Rightarrow> string list \<Rightarrow> string list \<Rightarrow> string list" where
  "report_lines ops name revision cases_count all_passed crossovers crossovers_rev2 table =
     [''# Size sweep report ('' @ name @ '')'', [],
      ''Generated by `bench_report.py` from snapshot revision `'' @ format_value ops revision @ ''`, ''
        @ str_nat cases_count @ '' cases, all passed: '' @ format_value ops all_passed @ ''.'',
      [], ''## Crossover'', [], ''Located from the direction claim on both sides of the flip.'', []]
     @ crossovers
     @ [[], ''### Revision 2 crossover'', [], ''Located from the unchanged revision 2 claim, for comparison.'', []]
     @ crossovers_rev2
     @ [[], ''## T1. Summary'', [],
        ''Times are pooled medians. Speedup is C median over CUDA median. The trial ''
        @ ''range decides the verdict; the 95% CI is the bootstrap interval over trial ''
        @ ''medians, so a speedup can lie outside its CI. Direction, magnitude and ''
        @ ''revision 2 are the claim rules recorded in ''
        @ ''the manifest; '' @ EM_DASH @ '' marks a field the snapshot predates.'', []]
     @ table
     @ [[], ''## Figures'', []]
     @ map (\<lambda>(key, name). ''- !['' @ upper_text key @ '']('' @ name @ '')'') FIGURES
     @ [[]]"

definition draw_figure ::
  "report_ops \<Rightarrow> path \<Rightarrow> string \<Rightarrow> case_index \<Rightarrow> int list \<Rightarrow> int list \<Rightarrow> (fs, report_exn, unit) st" where
  "draw_figure ops out key indexed counts bit_widths =
     (case map_of FIGURES key of
        None \<Rightarrow> st_fail (ReportPy (KeyError key))
      | Some name \<Rightarrow> st_bind (st_lift (map_sum ReportPy id (ro_plot ops key indexed counts bit_widths))) (\<lambda>drawn.
          save (out @ [name]) (Bytes drawn)))"

definition sweep_report ::
  "report_ops \<Rightarrow> path \<Rightarrow> path option \<Rightarrow> int list \<Rightarrow> items \<Rightarrow> items list \<Rightarrow> (fs, report_exn, report_result) st" where
  "sweep_report ops snap output_dir stage_counts manifest cases =
     st_bind (case output_dir of Some out \<Rightarrow> st_return out | None \<Rightarrow> on_disk ReportPy (derived_directory snap)) (\<lambda>out.
     st_bind (on_disk ReportPy (\<lambda>fs. bindE (mkdir_parents out fs) (\<lambda>fs. Inr ((), fs)))) (\<lambda>_.
     st_bind (st_lift (map_sum ReportPy id (index_cases cases []))) (\<lambda>indexed.
     st_bind (st_lift (map_sum ReportPy id (distinct_sorted cases ''count''))) (\<lambda>counts.
     st_bind (st_lift (map_sum ReportPy id (distinct_sorted cases ''bits''))) (\<lambda>bit_widths.
     let chosen = filter (\<lambda>n. n \<in> set counts) stage_counts; paths = present_cuda_paths cases in
     st_bind (draw_figure ops out ''f1'' indexed counts bit_widths) (\<lambda>_.
     st_bind (draw_figure ops out ''f2'' indexed counts bit_widths) (\<lambda>_.
     st_bind (draw_figure ops out ''f3'' indexed (if chosen = [] then counts else chosen) bit_widths) (\<lambda>_.
     st_bind (draw_figure ops out ''f4'' indexed counts bit_widths) (\<lambda>_.
     st_bind (st_lift (map_sum ReportPy id (all_crossovers indexed counts bit_widths paths stats_direction))) (\<lambda>crossovers.
     st_bind (st_lift (map_sum ReportPy id (all_crossovers indexed counts bit_widths paths stats_rev2))) (\<lambda>rev2.
     st_bind (st_lift (map_sum ReportPy id (bindE (object_item manifest ''git_provenance'') (\<lambda>git. item git ''code_revision_short'')))) (\<lambda>revision.
     st_bind (st_lift (map_sum ReportPy id (item manifest ''all_cases_passed''))) (\<lambda>all_passed.
     st_bind (st_lift (map_sum ReportPy id (crossover_lines crossovers))) (\<lambda>lines1.
     st_bind (st_lift (map_sum ReportPy id (crossover_lines rev2))) (\<lambda>lines2.
     st_bind (st_lift (map_sum ReportPy id (t1_table ops indexed counts bit_widths paths))) (\<lambda>table.
     st_bind (save (out @ [REPORT]) (Text (join [CHR 0x0A]
       (report_lines ops (if snap = [] then [] else last snap) revision (length cases) all_passed lines1 lines2 table)))) (\<lambda>_.
       st_return \<lparr>rr_figures = map (\<lambda>(key, name). out @ [name]) FIGURES, rr_report = out @ [REPORT],
                  rr_crossovers = crossovers, rr_crossovers_rev2 = rev2\<rparr>)))))))))))))))))"

datatype rendered = SizeSweep report_result | Publication "path list" path

definition render_report ::
  "report_ops \<Rightarrow> path \<Rightarrow> path option \<Rightarrow> int list \<Rightarrow> path option \<Rightarrow> path option \<Rightarrow> (fs, report_exn, rendered) st" where
  "render_report ops snap output_dir stage_counts k1_ab second_platform =
     st_bind (on_disk ReportSchema (\<lambda>fs. bindE (read_snapshot snap fs) (\<lambda>r. Inr (r, fs)))) (\<lambda>(manifest, cases).
       if list_ex publication_case cases
       then st_bind (on_disk ReportPy (ro_publication ops snap manifest cases output_dir k1_ab second_platform)) (\<lambda>(figures, report).
              st_return (Publication figures report))
       else st_bind (sweep_report ops snap output_dir stage_counts manifest cases) (\<lambda>r. st_return (SizeSweep r)))"

text \<open>The command prints the files it wrote.\<close>

definition report_main ::
  "report_ops \<Rightarrow> path \<Rightarrow> path option \<Rightarrow> path option \<Rightarrow> path option \<Rightarrow> (fs, report_exn, path list) st" where
  "report_main ops snap output_dir k1_ab second_platform =
     st_bind (render_report ops snap output_dir STAGE_COUNTS k1_ab second_platform) (\<lambda>result.
       st_return (case result of SizeSweep r \<Rightarrow> rr_figures r @ [rr_report r] | Publication figures report \<Rightarrow> figures @ [report]))"

subsection \<open>When a crossover is resolved\<close>

text \<open>What the index claims at a size: the verdict, and whether the claim is supported.\<close>

definition claim_at :: "case_index \<Rightarrow> int \<Rightarrow> string \<Rightarrow> (items \<Rightarrow> bool) \<Rightarrow> int \<Rightarrow> (string \<times> bool) option" where
  "claim_at indexed bits path supported n =
     (case map_of indexed (n, bits, path) of
        None \<Rightarrow> None
      | Some c \<Rightarrow> (case point_of supported n c of Inl e \<Rightarrow> None | Inr p \<Rightarrow> Some (sp_verdict p, sp_supported p)))"

text \<open>Sizes with supported, opposite verdicts and no measured size between them.\<close>

definition flip_pairs :: "(int \<Rightarrow> (string \<times> bool) option) \<Rightarrow> int list \<Rightarrow> (int \<times> int) set" where
  "flip_pairs claim counts =
     {(m, n). m \<in> set counts \<and> n \<in> set counts \<and> m < n
        \<and> ((claim m = Some (''slower'', True) \<and> claim n = Some (''faster'', True))
           \<or> (claim m = Some (''faster'', True) \<and> claim n = Some (''slower'', True)))
        \<and> (\<forall>k \<in> set counts. m < k \<and> k < n \<longrightarrow> claim k = None)}"

lemma consecutive_pairs:
  fixes f :: "'a \<Rightarrow> int"
  assumes "sorted_wrt (\<lambda>a b. f a < f b) ps"
  shows "set (zip ps (tl ps)) = {(a, b). a \<in> set ps \<and> b \<in> set ps \<and> f a < f b
           \<and> (\<forall>p \<in> set ps. \<not> (f a < f p \<and> f p < f b))}"
  using assms
proof (induction ps rule: induct_list012)
  case (3 x y zs)
  then have IH: "set (zip (y # zs) zs) = {(a, b). a \<in> set (y # zs) \<and> b \<in> set (y # zs) \<and> f a < f b
      \<and> (\<forall>p \<in> set (y # zs). \<not> (f a < f p \<and> f p < f b))}" by simp
  have x: "\<forall>p \<in> set (y # zs). f x < f p" and y: "\<forall>p \<in> set zs. f y < f p" using 3(3) by auto
  have "set (zip (x # y # zs) (tl (x # y # zs))) = insert (x, y) (set (zip (y # zs) zs))" by simp
  also have "\<dots> = {(a, b). a \<in> set (x # y # zs) \<and> b \<in> set (x # y # zs) \<and> f a < f b
      \<and> (\<forall>p \<in> set (x # y # zs). \<not> (f a < f p \<and> f p < f b))}"
    unfolding IH using x y by fastforce
  finally show ?case .
qed auto

lemma distinct_pairs:
  fixes f :: "'a \<Rightarrow> int"
  assumes "sorted_wrt (\<lambda>a b. f a < f b) ps"
  shows "distinct (map (\<lambda>(a, b). (f a, f b)) (zip ps (tl ps)))"
  using assms
proof (induction ps rule: induct_list012)
  case (3 x y zs)
  then have "\<forall>p \<in> set (y # zs). f p \<noteq> f x" by force
  then have "(f x, f y) \<notin> (\<lambda>(a, b). (f a, f b)) ` set (zip (y # zs) zs)"
    by (fastforce dest: set_zip_leftD)
  then show ?case using 3 by simp
qed simp_all

lemma sweep_points_Cons:
  "sweep_points indexed (n # ns) bits path supported = Inr ps \<longleftrightarrow>
     (case map_of indexed (n, bits, path) of
        None \<Rightarrow> sweep_points indexed ns bits path supported = Inr ps
      | Some c \<Rightarrow> (\<exists>p qs. point_of supported n c = Inr p \<and> sweep_points indexed ns bits path supported = Inr qs \<and> ps = p # qs))"
  by (auto simp: sweep_points_def result_simps split: option.splits)

lemma point_of_count: "point_of supported n c = Inr p \<Longrightarrow> sp_count p = n"
  by (auto simp: point_of_def bindE_def split: sum.split_asm json.split_asm)

lemma points_claims:
  assumes "sweep_points indexed counts bits path supported = Inr points" "sorted_wrt (<) counts"
  shows "sorted_wrt (\<lambda>a b. sp_count a < sp_count b) points
    \<and> (\<forall>p \<in> set points. sp_count p \<in> set counts
         \<and> claim_at indexed bits path supported (sp_count p) = Some (sp_verdict p, sp_supported p))
    \<and> (\<forall>n \<in> set counts. \<forall>v b. claim_at indexed bits path supported n = Some (v, b)
         \<longrightarrow> (\<exists>p \<in> set points. sp_count p = n \<and> sp_verdict p = v \<and> sp_supported p = b))"
  using assms
proof (induction counts arbitrary: points)
  case (Cons n ns)
  show ?case
  proof (cases "map_of indexed (n, bits, path)")
    case None
    then show ?thesis using Cons by (auto simp: sweep_points_Cons claim_at_def)
  next
    case (Some c)
    then obtain p qs where p: "point_of supported n c = Inr p" "points = p # qs"
      and q: "sweep_points indexed ns bits path supported = Inr qs" using Cons.prems(1) by (auto simp: sweep_points_Cons)
    have "claim_at indexed bits path supported n = Some (sp_verdict p, sp_supported p)" by (simp add: claim_at_def Some p(1))
    then show ?thesis using Cons.IH [OF q] Cons.prems(2) p(2) point_of_count [OF p(1)] by auto
  qed
qed (simp add: sweep_points_def)

lemma flips_are_pairs:
  assumes sorted: "sorted_wrt (\<lambda>a b. sp_count a < sp_count b) points"
    and pts: "\<And>p. p \<in> set points \<Longrightarrow> sp_count p \<in> set counts \<and> claim (sp_count p) = Some (sp_verdict p, sp_supported p)"
    and cls: "\<And>n v b. n \<in> set counts \<Longrightarrow> claim n = Some (v, b)
      \<Longrightarrow> \<exists>p \<in> set points. sp_count p = n \<and> sp_verdict p = v \<and> sp_supported p = b"
  shows "set (map (\<lambda>(a, b). (sp_count a, sp_count b)) (flips_of points)) = flip_pairs claim counts" (is "?F = ?G")
    and "set (supported_counts v points) = {n \<in> set counts. claim n = Some (v, True)}"
proof -
  have gap: "claim k = None \<longleftrightarrow> (\<forall>p \<in> set points. sp_count p \<noteq> k)" if "k \<in> set counts" for k
    using pts cls [OF that] by (cases "claim k") auto
  define has where "has v n \<longleftrightarrow> (\<exists>p \<in> set points. sp_count p = n \<and> sp_verdict p = v \<and> sp_supported p)" for v n
  have ex: "has v n \<longleftrightarrow> n \<in> set counts \<and> claim n = Some (v, True)" for v n
  proof
    assume "has v n"
    then show "n \<in> set counts \<and> claim n = Some (v, True)" unfolding has_def by (metis (full_types) pts)
  next
    assume "n \<in> set counts \<and> claim n = Some (v, True)"
    then show "has v n" using cls [of n v True] by (simp add: has_def)
  qed
  show "?F = ?G"
  proof (rule set_eqI, clarify)
    fix m n
    have "(m, n) \<in> ?F \<longleftrightarrow> (\<exists>a \<in> set points. \<exists>b \<in> set points. sp_count a = m \<and> sp_count b = n \<and> opposite a b \<and> m < n
        \<and> (\<forall>p \<in> set points. \<not> (m < sp_count p \<and> sp_count p < n)))"
    proof -
      have "(m, n) \<in> ?F \<longleftrightarrow> (\<exists>a b. (a, b) \<in> set (zip points (tl points)) \<and> opposite a b \<and> sp_count a = m \<and> sp_count b = n)"
        unfolding flips_of_def by force
      then show ?thesis unfolding consecutive_pairs [OF sorted] mem_Collect_eq prod.case by blast
    qed
    also have "\<dots> \<longleftrightarrow> m < n \<and> ((has ''slower'' m \<and> has ''faster'' n) \<or> (has ''faster'' m \<and> has ''slower'' n))
        \<and> (\<forall>p \<in> set points. \<not> (m < sp_count p \<and> sp_count p < n))"
      unfolding has_def opposite_def doubleton_eq_iff by blast
    also have "\<dots> \<longleftrightarrow> m \<in> set counts \<and> n \<in> set counts \<and> m < n
        \<and> ((claim m = Some (''slower'', True) \<and> claim n = Some (''faster'', True))
           \<or> (claim m = Some (''faster'', True) \<and> claim n = Some (''slower'', True)))
        \<and> (\<forall>p \<in> set points. \<not> (m < sp_count p \<and> sp_count p < n))"
      unfolding ex by blast
    also have "\<dots> \<longleftrightarrow> (m, n) \<in> ?G" using pts gap by (auto simp: flip_pairs_def)
    finally show "(m, n) \<in> ?F \<longleftrightarrow> (m, n) \<in> ?G" .
  qed
  show "set (supported_counts v points) = {n \<in> set counts. claim n = Some (v, True)}"
  proof -
    have "n \<in> set (supported_counts v points) \<longleftrightarrow> has v n" for n by (auto simp: supported_counts_def has_def)
    then show ?thesis using ex by blast
  qed
qed

lemma greatest_of: "(case xs of [] \<Rightarrow> None | x # xs \<Rightarrow> Some (foldl max x xs)) = (if set xs = {} then None else Some (Max (set xs)))"
  for xs :: "int list"
proof (cases xs)
  case (Cons y ys)
  have "foldl max y ys = fold max ys y" by (simp add: foldl_conv_fold max.commute)
  then show ?thesis using Cons Max.set_eq_fold [of y ys] by simp
qed simp

lemma least_of: "(case xs of [] \<Rightarrow> None | x # xs \<Rightarrow> Some (foldl min x xs)) = (if set xs = {} then None else Some (Min (set xs)))"
  for xs :: "int list"
proof (cases xs)
  case (Cons y ys)
  have "foldl min y ys = fold min ys y" by (simp add: foldl_conv_fold min.commute)
  then show ?thesis using Cons Min.set_eq_fold [of y ys] by simp
qed simp

lemma judge_crossover_cases:
  "judge_crossover points =
     (if length (flips_of points) = 1
      then let (a, b) = hd (flips_of points) in Resolved (sp_count a) (sp_count b) (sp_verdict a @ '' to '' @ sp_verdict b)
      else let slower = set (supported_counts ''slower'' points); faster = set (supported_counts ''faster'' points) in
        NotResolved (map (\<lambda>(a, b). (sp_count a, sp_count b)) (flips_of points))
          (if slower = {} then None else Some (Max slower)) (if faster = {} then None else Some (Min faster)))"
  unfolding judge_crossover_def Let_def greatest_of least_of by (simp split: list.splits prod.splits)


definition sample_claim :: "int \<Rightarrow> string \<Rightarrow> items" where
  "sample_claim n verdict =
     [(''count'', JInt n), (''statistics'', JObj [(''verdict'', JStr verdict), (''direction_supported'', JBool True)])]"

definition sample_index :: case_index where
  "sample_index = [((1024, 8, ''resident''), sample_claim 1024 ''slower''), ((4096, 8, ''resident''), sample_claim 4096 ''faster'')]"


text \<open>
  The sizes of a resolved interval need not be adjacent in the grid: a size between them without a passing case is
  passed over.
\<close>

lemma crossover_skips_missing_sizes:
  "map_of sample_index (2048, 8, ''resident'') = None
   \<and> find_crossovers sample_index [1024, 2048, 4096] 8 ''resident'' stats_direction = Inr (Resolved 1024 4096 ''slower to faster'')"
  by code_simp

subsection \<open>Raw files are never rewritten\<close>

definition keeps_outside :: "path \<Rightarrow> (fs, 'e, 'a) st \<Rightarrow> bool" where
  "keeps_outside d m \<longleftrightarrow>
     (\<forall>fs p n. lookup fs p = Some n \<longrightarrow> \<not> under d p \<longrightarrow> lookup (snd (m fs)) p = Some n)"

lemma outside_bind:
  "keeps_outside d m \<Longrightarrow> (\<And>x fs fs'. m fs = (Inr x, fs') \<Longrightarrow> keeps_outside d (f x)) \<Longrightarrow> keeps_outside d (st_bind m f)"
  unfolding keeps_outside_def st_bind_def by (fastforce split: prod.splits sum.splits)

lemma outside_pure: "keeps_outside d (st_return x)" "keeps_outside d (st_lift r)" "keeps_outside d (st_fail e)"
  by (simp_all add: keeps_outside_def st_return_def st_lift_def st_fail_def)

lemma outside_save: "keeps_outside d (save (d @ [name]) c)"
  by (auto simp: keeps_outside_def save_def on_disk_def write_file_def bindE_def split: sum.splits if_splits)
    (simp add: under_def starts_with_def)

lemma outside_mkdir: "keeps_outside d (on_disk raise (\<lambda>fs. bindE (mkdir_parents out fs) (\<lambda>fs. Inr ((), fs))))"
  by (auto simp: keeps_outside_def on_disk_def bindE_def split: sum.splits dest: mkdir_parents_keeps)

lemma outside_derived: "keeps_outside (snap @ [''derived'']) (on_disk raise (derived_directory snap))"
proof -
  have "lookup fs' p = Some n"
    if d: "derived_directory snap fs = Inr (out, fs')" and n: "lookup fs p = Some n" "\<not> under (snap @ [''derived'']) p" for fs out fs' p n
  proof -
    obtain fs1 where "fs1 = fs \<or> fs1 = remove_tree (snap @ [''derived'']) fs" "mkdir_parents out fs1 = Inr fs'"
      using derived_facts [OF d] by auto
    then show ?thesis using n mkdir_parents_keeps by (auto simp: remove_tree_lookup)
  qed
  then show ?thesis by (auto simp: keeps_outside_def on_disk_def split: sum.splits)
qed

lemma outside_draw: "keeps_outside out (draw_figure ops out key indexed counts bit_widths)"
  by (auto simp: draw_figure_def intro!: outside_bind outside_pure outside_save split: option.split)

lemma keeps_sweep_report: "keeps_outside (snap @ [''derived'']) (sweep_report ops snap None stage_counts manifest cases)"
proof -
  have "out = snap @ [''derived'']" if "on_disk ReportPy (derived_directory snap) fs = (Inr out, fs')" for out fs fs'
    using that by (auto simp: on_disk_def split: sum.splits dest: derived_facts)
  then show ?thesis unfolding sweep_report_def Let_def option.case
    by (intro outside_bind outside_pure outside_derived) (auto intro!: outside_bind outside_pure outside_mkdir outside_draw outside_save)
qed

text \<open>
  C39: Rendering the report of a sweep into its snapshot never rewrites or removes a raw file, whatever happens on the way: every
  file and directory outside \<open>derived\<close> is what it was.
\<close>

theorem report_keeps_raw_files:
  assumes "read_snapshot snap fs = Inr (manifest, cases)" "\<not> list_ex publication_case cases"
    and "lookup fs p = Some n" "\<not> under (snap @ [''derived'']) p"
  shows "lookup (snd (render_report ops snap None stage_counts k1_ab second_platform fs)) p = Some n"
proof -
  have "render_report ops snap None stage_counts k1_ab second_platform fs
      = st_bind (sweep_report ops snap None stage_counts manifest cases) (\<lambda>r. st_return (SizeSweep r)) fs"
    using assms(1,2) by (simp add: render_report_def st_bind_def on_disk_def bindE_def)
  moreover have "keeps_outside (snap @ [''derived'']) (st_bind (sweep_report ops snap None stage_counts manifest cases) (\<lambda>r. st_return (SizeSweep r)))"
    by (intro outside_bind keeps_sweep_report outside_pure)
  ultimately show ?thesis using assms(3,4) by (simp add: keeps_outside_def)
qed

definition sample_sweep :: fs where
  "sample_sweep = [([''s''], Dir), ([''s'', ''manifest.json''], File (JsonDoc (JObj [(''cases'', JList [JStr ''a''])]))),
     ([''s'', ''a.json''], File (JsonDoc (JObj [(''timing_boundary'', JStr ''resident'')])))]"

theorem report_keeps_raw_files_witness:
  "\<forall>ops. lookup (snd (render_report ops [''s''] None [] None None sample_sweep)) [''s'', ''a.json'']
     = Some (File (JsonDoc (JObj [(''timing_boundary'', JStr ''resident'')])))"
proof
  fix ops
  have "read_snapshot [''s''] sample_sweep = Inr ([(''cases'', JList [JStr ''a''])], [[(''timing_boundary'', JStr ''resident'')]])"
    by code_simp
  moreover have "\<not> list_ex publication_case [[(''timing_boundary'', JStr ''resident'')]]" by code_simp
  moreover have "lookup sample_sweep [''s'', ''a.json''] = Some (File (JsonDoc (JObj [(''timing_boundary'', JStr ''resident'')])))"
    by code_simp
  moreover have "\<not> under ([''s''] @ [''derived'']) [''s'', ''a.json'']" by code_simp
  ultimately show "lookup (snd (render_report ops [''s''] None [] None None sample_sweep)) [''s'', ''a.json'']
     = Some (File (JsonDoc (JObj [(''timing_boundary'', JStr ''resident'')])))" by (rule report_keeps_raw_files)
qed

end
