(* ===== verification/Equivalence.thy ===== *)
theory Equivalence
  imports Resident
begin

text \<open>
  The behaviour-equivalence check (\<open>tools/equivalence.py\<close>): the rules that hide timings and provenance, the
  flattening of a fingerprint into leaves, the comparison of two fingerprints, the collection of a fingerprint from
  frozen snapshots, records and live runs, and the two commands. Processes, Git, NumPy's generator, the CSV
  parser and the text of a value are arguments. Paths and keys are ASCII text. The lemmas say what
  an accepted comparison means and that a baseline is never overwritten.
\<close>

subsection \<open>Patterns\<close>

text \<open>
  The regular expressions of the rules, matched against a whole text by derivatives. \<open>RxMinus r s\<close> matches what
  \<open>r\<close> matches and \<open>s\<close> does not: \<open>(?!baseline$|descriptive$).*\<close> is \<open>.*\<close> without those two words, as \<open>.\<close> does not match a newline.
\<close>

datatype rx =
    RxNone
  | RxEmpty
  | RxClass "char list"
  | RxSeq rx rx
  | RxAlt rx rx
  | RxStar rx
  | RxMinus rx rx

fun rx_nullable :: "rx \<Rightarrow> bool" where
  "rx_nullable RxNone = False"
| "rx_nullable RxEmpty = True"
| "rx_nullable (RxClass cs) = False"
| "rx_nullable (RxSeq r s) = (rx_nullable r \<and> rx_nullable s)"
| "rx_nullable (RxAlt r s) = (rx_nullable r \<or> rx_nullable s)"
| "rx_nullable (RxStar r) = True"
| "rx_nullable (RxMinus r s) = (rx_nullable r \<and> \<not> rx_nullable s)"

fun rx_deriv :: "char \<Rightarrow> rx \<Rightarrow> rx" where
  "rx_deriv c RxNone = RxNone"
| "rx_deriv c RxEmpty = RxNone"
| "rx_deriv c (RxClass cs) = (if c \<in> set cs then RxEmpty else RxNone)"
| "rx_deriv c (RxSeq r s) =
     (if rx_nullable r then RxAlt (RxSeq (rx_deriv c r) s) (rx_deriv c s) else RxSeq (rx_deriv c r) s)"
| "rx_deriv c (RxAlt r s) = RxAlt (rx_deriv c r) (rx_deriv c s)"
| "rx_deriv c (RxStar r) = RxSeq (rx_deriv c r) (RxStar r)"
| "rx_deriv c (RxMinus r s) = RxMinus (rx_deriv c r) (rx_deriv c s)"

definition fullmatch :: "rx \<Rightarrow> string \<Rightarrow> bool" where
  "fullmatch r s = rx_nullable (fold rx_deriv s r)"

definition ascii_range :: "nat \<Rightarrow> nat \<Rightarrow> char list" where
  "ascii_range lo hi = map char_of [lo..<Suc hi]"

definition rx_digit :: rx where "rx_digit = RxClass (ascii_range 48 57)"
definition rx_word :: rx where
  "rx_word = RxClass (ascii_range 48 57 @ ascii_range 65 90 @ ascii_range 97 122 @ [CHR ''_''])"
definition rx_any :: rx where "rx_any = RxStar (RxClass (filter (\<lambda>c. c \<noteq> CHR 0x0A) (ascii_range 0 127)))"

definition rx_text :: "string \<Rightarrow> rx" where
  "rx_text s = foldr (\<lambda>c r. RxSeq (RxClass [c]) r) s RxEmpty"

definition rx_opt :: "rx \<Rightarrow> rx" where "rx_opt r = RxAlt RxEmpty r"
definition rx_plus :: "rx \<Rightarrow> rx" where "rx_plus r = RxSeq r (RxStar r)"
definition rx_seq :: "rx list \<Rightarrow> rx" where "rx_seq rs = foldr RxSeq rs RxEmpty"
definition rx_alts :: "string list \<Rightarrow> rx" where "rx_alts ss = foldr (\<lambda>s r. RxAlt (rx_text s) r) ss RxNone"

text \<open>\<open>(.*/)?\<close>.\<close>

definition rx_dirs :: rx where "rx_dirs = rx_opt (RxSeq rx_any (rx_text ''/''))"

subsection \<open>Rules\<close>

type_synonym rule = "rx \<times> string"

definition COLLAPSE_RULES :: "rule list" where
  "COLLAPSE_RULES =
     [(rx_seq [rx_dirs, rx_text ''build_flags''], ''path-valued provenance''),
      (rx_text ''build'', ''path-valued provenance''),
      (RxAlt (rx_seq [rx_opt (rx_text ''run_conditions/readiness/''), rx_text ''facts'']) (rx_text ''readiness_facts''),
       ''path-valued provenance''),
      (rx_seq [rx_dirs, rx_text ''gpu_state'', RxStar rx_word], ''gpu state''),
      (rx_alts [''git_provenance'', ''git''], ''git provenance''),
      (RxAlt (rx_seq [rx_dirs, rx_alts [''hardware'', ''toolkit_and_driver'']]) (rx_text ''device''), ''environment''),
      (rx_seq [rx_text ''decision/'', rx_alts [''kept'', ''failing_cells'', ''descriptive_slowdowns'']], ''timing-derived''),
      (rx_seq [rx_opt (rx_text ''run_conditions/''), rx_alts [''evidence'', ''non_evidence_reasons'']], ''run conditions''),
      (rx_seq [rx_text ''run_conditions/readiness/'', rx_alts [''passed'', ''failures'', ''overridden'']], ''run conditions'')]"

definition rx_cell :: rx where
  "rx_cell = rx_seq [rx_text ''cells/'', rx_plus rx_digit]"

definition rx_arm :: rx where
  "rx_arm = rx_opt (rx_seq [rx_text ''/arms/'', rx_plus rx_word])"

definition REDACT_RULES :: "rule list" where
  "REDACT_RULES =
     [(RxAlt (rx_seq [rx_dirs, rx_alts [''created_at_utc'', ''created_utc'', ''captured_at_utc'']]) (rx_text ''date''), ''timestamp''),
      (rx_seq [rx_dirs, rx_alts [''code_revision'', ''code_revision_short'', ''git_dirty'']], ''git provenance''),
      (rx_seq [rx_dirs, rx_text ''build_stamp/revision''], ''git provenance''),
      (rx_seq [rx_dirs, rx_text ''build_stamp/binary_sha256''], ''build provenance''),
      (rx_seq [rx_dirs, rx_text ''numpy_version''], ''environment''),
      (rx_seq [rx_dirs, RxStar rx_word, rx_text ''_ms'', rx_opt (RxSeq (rx_text ''/'') rx_any)], ''timing''),
      (rx_seq [rx_text ''statistics/'', RxMinus rx_any (rx_alts [''baseline'', ''descriptive''])], ''timing-derived''),
      (rx_seq [rx_cell, rx_arm, rx_text ''/'', rx_alts [''k1'', ''total''], rx_text ''/'', rx_any], ''timing-derived''),
      (rx_seq [rx_cell, rx_text ''/'', rx_alts [''k1'', ''total''], rx_text ''_comparison/'', rx_any], ''timing-derived''),
      (rx_seq [rx_cell, rx_arm, rx_text ''/'',
         rx_alts [''effective_gbps'', ''fraction_of_peak'', ''fraction_of_ceiling'', ''ideal_ms_at_ceiling'', ''headroom'']], ''timing-derived''),
      (RxAlt (rx_text ''probe_ceiling_gbps'') (RxAlt (rx_seq [rx_text ''probe_ceiling_size/'', rx_any])
         (rx_seq [rx_text ''sizes/'', rx_plus rx_digit, rx_text ''/best_'', rx_plus rx_word])), ''timing-derived''),
      (rx_text ''initial_gpu_warm_up/seconds_elapsed'', ''timing''),
      (rx_text ''run_conditions/affinity/previous_mask'', ''run conditions'')]"

definition match_rule :: "string \<Rightarrow> rule list \<Rightarrow> string option" where
  "match_rule p rules = map_option snd (find (\<lambda>(r, reason). fullmatch r p) rules)"

definition redacted :: "string \<Rightarrow> json" where
  "redacted reason = JStr (''<redacted: '' @ reason @ ''>'')"

definition joined_key :: "string \<Rightarrow> string \<Rightarrow> string" where
  "joined_key p k = (if p = [] then k else p @ ''/'' @ k)"

text \<open>\<open>flatten\<close>: the leaves of a document by key path, into the dictionary \<open>out\<close>.\<close>

definition collapsed :: "string \<Rightarrow> json option" where
  "collapsed p =
     (if p = [] then None
      else map_option (\<lambda>reason. JStr (''<collapsed: '' @ reason @ ''>'')) (match_rule p COLLAPSE_RULES))"

definition leaf_value :: "json \<Rightarrow> string \<Rightarrow> json" where
  "leaf_value v p = (case match_rule p REDACT_RULES of Some reason \<Rightarrow> redacted reason | None \<Rightarrow> v)"

text \<open>The size of the entries of an object, by which the recursions over documents end.\<close>

abbreviation items_size :: "(string \<times> json) list \<Rightarrow> nat" where
  "items_size \<equiv> size_list (size_prod (\<lambda>k. 0) size)"

function (sequential) flatten :: "json \<Rightarrow> string \<Rightarrow> (string \<times> json) list \<Rightarrow> (string \<times> json) list"
  and flatten_object :: "(string \<times> json) list \<Rightarrow> string \<Rightarrow> (string \<times> json) list \<Rightarrow> (string \<times> json) list"
  and flatten_array :: "nat \<Rightarrow> json list \<Rightarrow> string \<Rightarrow> (string \<times> json) list \<Rightarrow> (string \<times> json) list" where
  "flatten (JObj items) p out =
     (case collapsed p of
        Some v \<Rightarrow> dict_set out p v
      | None \<Rightarrow> flatten_object items p (if items = [] then dict_set out p (JObj []) else out))"
| "flatten (JList vs) p out =
     (case collapsed p of
        Some v \<Rightarrow> dict_set out p v
      | None \<Rightarrow> flatten_array 0 vs p (if vs = [] then dict_set out p (JList []) else out))"
| "flatten v p out = dict_set out p (case collapsed p of Some c \<Rightarrow> c | None \<Rightarrow> leaf_value v p)"
| "flatten_object [] p out = out"
| "flatten_object ((k, v) # items) p out = flatten_object items p (flatten v (joined_key p k) out)"
| "flatten_array i [] p out = out"
| "flatten_array i (v # vs) p out = flatten_array (Suc i) vs p (flatten v (joined_key p (str_nat i)) out)"
  by pat_completeness auto

termination
  by (relation "measure (\<lambda>x. case x of Inl (v, p, out) \<Rightarrow> size v | Inr (Inl (items, p, out)) \<Rightarrow> items_size items
       | Inr (Inr (i, vs, p, out)) \<Rightarrow> size_list size vs)") auto

subsection \<open>Differences\<close>

fun flatten_fingerprint :: "json \<Rightarrow> string \<Rightarrow> (string \<times> json) list"
  and flatten_children :: "(string \<times> json) list \<Rightarrow> string \<Rightarrow> (string \<times> json) list \<Rightarrow> (string \<times> json) list" where
  "flatten_fingerprint (JObj (e # items)) p = flatten_children (e # items) p []"
| "flatten_fingerprint v p = [(p, leaf_value v p)]"
| "flatten_children [] p out = out"
| "flatten_children ((k, v) # items) p out = flatten_children items p (dict_update out (flatten_fingerprint v (joined_key p k)))"

text \<open>
  \<open>==\<close> of values: truth values and integers compare as numbers with floats, and dictionaries by their keys.
\<close>

definition exact_int :: "int \<Rightarrow> fp" where
  "exact_int z = FFin (z < 0) (of_int \<bar>z\<bar>)"

definition py_number :: "json \<Rightarrow> fp option" where
  "py_number v =
     (case v of JBool b \<Rightarrow> Some (exact_int (if b then 1 else 0)) | JInt z \<Rightarrow> Some (exact_int z) | JFloat x \<Rightarrow> Some x | _ \<Rightarrow> None)"

function (sequential) py_equal :: "json \<Rightarrow> json \<Rightarrow> bool"
  and py_equal_list :: "json list \<Rightarrow> json list \<Rightarrow> bool"
  and py_equal_items :: "(string \<times> json) list \<Rightarrow> (string \<times> json) list \<Rightarrow> bool" where
  "py_equal (JList vs) w = (case w of JList ws \<Rightarrow> py_equal_list vs ws | _ \<Rightarrow> False)"
| "py_equal (JObj items) w = (case w of JObj items' \<Rightarrow> length items = length items' \<and> py_equal_items items items' | _ \<Rightarrow> False)"
| "py_equal v w =
     (case (py_number v, py_number w) of (Some x, Some y) \<Rightarrow> fp_eq x y | (None, None) \<Rightarrow> v = w | _ \<Rightarrow> False)"
| "py_equal_list [] ws = (ws = [])"
| "py_equal_list (v # vs) ws = (case ws of [] \<Rightarrow> False | w # ws \<Rightarrow> py_equal v w \<and> py_equal_list vs ws)"
| "py_equal_items [] items' = True"
| "py_equal_items ((k, v) # items) items' =
     (case map_of items' k of None \<Rightarrow> False | Some w \<Rightarrow> py_equal v w \<and> py_equal_items items items')"
  by pat_completeness auto

termination
  by (relation "measure (\<lambda>x. case x of Inl (v, w) \<Rightarrow> size v | Inr (Inl (vs, ws)) \<Rightarrow> size_list size vs
       | Inr (Inr (items, items')) \<Rightarrow> items_size items)") auto

definition diff_line ::
  "(json \<Rightarrow> string) \<Rightarrow> (string \<times> json) list \<Rightarrow> (string \<times> json) list \<Rightarrow> string \<Rightarrow> string list" where
  "diff_line repr old new k =
     (case (map_of old k, map_of new k) of
        (Some v, None) \<Rightarrow> [''- '' @ k @ '' = '' @ repr v]
      | (None, Some w) \<Rightarrow> [''+ '' @ k @ '' = '' @ repr w]
      | (Some v, Some w) \<Rightarrow> if py_equal v w then [] else [''~ '' @ k @ '': '' @ repr v @ '' -> '' @ repr w]
      | (None, None) \<Rightarrow> [])"

definition diff_leaves :: "(json \<Rightarrow> string) \<Rightarrow> json \<Rightarrow> json \<Rightarrow> string list" where
  "diff_leaves repr stored fresh =
     (let old = flatten_fingerprint stored []; new = flatten_fingerprint fresh [] in
      concat (map (diff_line repr old new) (sort (remdups (map fst old @ map fst new)))))"

subsection \<open>The configurations that are run\<close>

definition NO_WARMUP :: "string list" where
  "NO_WARMUP = [''--gpu-warmup-seconds'', ''0'', ''--case-warmup-seconds'', ''0'', ''--warmup-seconds'', ''0'']"

definition BENCH_COMMON :: "string list" where
  "BENCH_COMMON =
     [''--bits'', ''4'', ''8'', ''--backends'', ''cpu'', ''cuda'', ''cpu-avx2'', ''--boundaries'', ''gpu-origin'',
      ''--transfer-policies'', ''pageable'', ''pinned'', ''--trials'', ''10'', ''--reps'', ''3'', ''--warmup'', ''1'']
     @ NO_WARMUP @ [''--allow-dirty'', ''--ignore-readiness'']"

definition K1_COMMON :: "string list" where
  "K1_COMMON =
     [''--bits'', ''4'', ''8'', ''--processes'', ''2'', ''--reps'', ''3'',
      ''--gpu-warmup-seconds'', ''0'', ''--in-process-warmup-seconds'', ''0'', ''--allow-dirty'']"

text \<open>The runs: name, command and arguments.\<close>

definition LIVE_RUNS :: "(string \<times> string \<times> string list) list" where
  "LIVE_RUNS =
     [(''bench-dense'', ''bench-matrix'', [''--counts'', ''1024'', ''4096''] @ BENCH_COMMON),
      (''bench-sparse'', ''bench-matrix'', [''--input-family'', ''sparse'', ''--counts'', ''1024''] @ BENCH_COMMON),
      (''bench-model'', ''bench-matrix'', [''--input-family'', ''model'', ''--model-limit'', ''2''] @ BENCH_COMMON),
      (''unbiasedness'', ''unbiasedness'', [''--seeds'', ''8'', ''--backends'', ''cpu'', ''cuda'', ''--allow-dirty'']),
      (''k1-baseline'', ''k1-baseline'', [''--counts'', ''1024'', ''65536''] @ K1_COMMON),
      (''k1-ab'', ''k1-ab'', [''--counts'', ''16384'', ''262144''] @ K1_COMMON)]"

definition RECORD_INPUT_SEED :: int where "RECORD_INPUT_SEED = 2026"
definition RECORD_COUNTS :: "nat list" where "RECORD_COUNTS = [1000, 65536]"
definition RECORD_SEEDS :: "nat list" where "RECORD_SEEDS = [42, 7]"
definition RECORD_BACKENDS :: "string list" where "RECORD_BACKENDS = [''cpu'', ''cpu-avx2'', ''cuda'']"
definition SCRUBBED_ENV_PREFIXES :: "string list" where "SCRUBBED_ENV_PREFIXES = [''STOQUANT_'']"
definition EQUIVALENCE_FORMAT :: int where "EQUIVALENCE_FORMAT = 1"
definition PATH_TOKEN :: string where "PATH_TOKEN = ''<path>''"

definition record_variant :: "string \<Rightarrow> nat \<Rightarrow> nat \<Rightarrow> string option \<Rightarrow> string \<times> string list" where
  "record_variant bk bits seed k1 =
     (bk @ ''_b'' @ str_nat bits @ ''_s'' @ str_nat seed @ (case k1 of None \<Rightarrow> [] | Some m \<Rightarrow> ''_'' @ m),
      [''--backend'', bk, ''--bits'', str_nat bits, ''--seed'', str_nat seed] @ (case k1 of None \<Rightarrow> [] | Some m \<Rightarrow> [''--k1'', m]))"

definition k1_modes :: "string \<Rightarrow> string option list" where
  "k1_modes bk = (if bk = ''cuda'' then [Some ''reference'', Some ''optimized''] else [None])"

definition record_variants :: "(string \<times> string list) list" where
  "record_variants =
     concat (map (\<lambda>bk. concat (map (\<lambda>bits. concat (map (\<lambda>seed.
       map (record_variant bk bits seed) (k1_modes bk)) RECORD_SEEDS)) [4, 8])) RECORD_BACKENDS)
     @ map (\<lambda>bk. (bk @ ''_b4_s42_t3_i5'',
          [''--backend'', bk, ''--bits'', ''4'', ''--seed'', ''42'', ''--tensor-id'', ''3'', ''--invocation-id'', ''5''])) RECORD_BACKENDS"

text \<open>The slices of the mixed input: every third value zero, then every seventh from the second times \<open>1e4\<close>.\<close>

definition mix_values :: "fp list \<Rightarrow> fp list" where
  "mix_values xs =
     map (\<lambda>(i, x). let y = (if i mod 3 = 0 then FFin False 0 else x) in
            if i mod 7 = 1 then fp_mul binary32 y (fp_of_nat 10000) else y) (zip [0..<length xs] xs)"

text \<open>\<open>rng seed ns\<close>: arrays of the sizes \<open>ns\<close> drawn one after the other from the generator of the seed.\<close>

definition record_inputs :: "(int \<Rightarrow> nat list \<Rightarrow> fp list list) \<Rightarrow> (string \<times> fp list) list" where
  "record_inputs rng =
     (let drawn = rng RECORD_INPUT_SEED (RECORD_COUNTS @ [4099]) in
      map (\<lambda>(n, xs). (''normal_n'' @ str_nat n, xs)) (zip RECORD_COUNTS drawn)
      @ [(''mixed_n4099'', mix_values (last drawn)), (''constant_n512'', replicate 512 (FFin True (5 / 2)))])"

subsection \<open>Fingerprints of files\<close>

text \<open>
  \<open>ee_run\<close> runs a process in the repository with an environment, \<open>ee_csv\<close> and \<open>ee_text\<close> are what the CSV reader and a lenient
  UTF-8 decoding make of a file, \<open>ee_repr\<close> is \<open>repr\<close>, \<open>ee_quote\<close> is \<open>subprocess.list2cmdline\<close>, \<open>ee_path\<close> reads a path.
\<close>

record 'p equiv_env =
  ee_build :: build_env
  ee_stamps :: stamp_ops
  ee_python :: string
  ee_environ :: "(string \<times> string) list"
  ee_run :: "string list \<Rightarrow> (string \<times> string) list \<Rightarrow> 'p world \<Rightarrow> proc_outcome \<times> 'p world"
  ee_quote :: "string list \<Rightarrow> string"
  ee_csv :: "content \<Rightarrow> string list list"
  ee_text :: "content \<Rightarrow> string"
  ee_repr :: "json \<Rightarrow> string"
  ee_path :: "string \<Rightarrow> path"
  ee_rng :: "int \<Rightarrow> nat list \<Rightarrow> fp list list"
  ee_bytes :: "fp list \<Rightarrow> byte list"

datatype equiv_exn = EquivExit string | EquivPy py_exn | EquivProcess proc_outcome | EquivNotObject

type_synonym ('p, 'a) equiv = "('p world, equiv_exn, 'a) st"

definition on_tree :: "(fs \<Rightarrow> (py_exn, 'a) result) \<Rightarrow> ('p, 'a) equiv" where
  "on_tree f = from_world EquivPy (\<lambda>w. f (fst w))"

definition files_in :: "path \<Rightarrow> fs \<Rightarrow> path list" where
  "files_in dir fs = sort (map fst (filter (\<lambda>(p, n). under dir p \<and> p \<noteq> dir \<and> (case n of File c \<Rightarrow> True | Dir \<Rightarrow> False)) fs))"

definition relative_name :: "path \<Rightarrow> path \<Rightarrow> string" where
  "relative_name dir p = join ''/'' (drop (length dir) p)"

definition hash_tree :: "'p equiv_env \<Rightarrow> path \<Rightarrow> fs \<Rightarrow> (py_exn, (string \<times> json) list) result" where
  "hash_tree env dir fs =
     traverse (\<lambda>p. bindE (file_sha256 (ee_stamps env) fs p) (\<lambda>digest. Inr (relative_name dir p, JStr digest))) (files_in dir fs)"

definition CSV_COMPARED_COLUMNS :: "(string \<times> string list) list" where
  "CSV_COMPARED_COLUMNS =
     [(''summary.csv'', [''count'', ''bits'', ''backend'', ''boundary'', ''transfer_policy'', ''path_label'',
        ''correctness'', ''warmup'', ''reps'', ''trials'', ''baseline'', ''input_family'', ''input_key'']),
      (''processes.csv'', [''process'', ''position'', ''count'', ''bits'', ''warmups'', ''reps''])]"

definition csv_cells :: "string list option \<Rightarrow> string list \<Rightarrow> nat \<Rightarrow> string list \<Rightarrow> (py_exn, (string \<times> json) list) result" where
  "csv_cells compared header r cells =
     (if length cells \<noteq> length header then Inl (ValueError ''zip() arguments have different lengths'')
      else Inr (map (\<lambda>(column, cell). (''row/'' @ str_nat r @ ''/'' @ column,
             JStr (if (case compared of None \<Rightarrow> True | Some cols \<Rightarrow> column \<in> set cols) then cell else ''<redacted: timing-derived>'')))
           (zip header cells)))"

definition fingerprint_csv :: "string \<Rightarrow> string list list \<Rightarrow> (py_exn, json) result" where
  "fingerprint_csv name rows =
     (case rows of
        [] \<Rightarrow> Inr (JObj [(''header'', JList [])])
      | header # body \<Rightarrow>
          bindE (traverse (\<lambda>(r, cells). csv_cells (map_of CSV_COMPARED_COLUMNS name) header r cells) (zip [0..<length body] body)) (\<lambda>groups.
            Inr (JObj (dict_update [(''header'', JList (map JStr header))] (concat groups)))))"

text \<open>The verdicts of a vectorization report: what the search for \<open>VEC_VERDICT\<close> captures, one after the other.\<close>

definition vec_verdict :: "string \<Rightarrow> (string \<times> nat) option" where
  "vec_verdict s =
     (if \<not> (starts_with ''info C5001: '' s \<or> starts_with ''info C5002: '' s) then None
      else
        let rest = drop 12 s; reason = ''loop not vectorized due to reason '' @ [CHR 0x27] in
        if starts_with ''loop vectorized'' rest then Some (''loop vectorized'', 27)
        else if starts_with reason rest then
          (let digits = takeWhile (\<lambda>c. digit_value c \<noteq> None) (drop (length reason) rest) in
           if digits \<noteq> [] \<and> starts_with [CHR 0x27] (drop (length reason + length digits) rest)
           then Some (reason @ digits @ [CHR 0x27], 13 + length reason + length digits) else None)
        else None)"

fun vec_verdicts :: "nat \<Rightarrow> string \<Rightarrow> string list" where
  "vec_verdicts skip [] = []"
| "vec_verdicts (Suc skip) (c # cs) = vec_verdicts skip cs"
| "vec_verdicts 0 (c # cs) =
     (case vec_verdict (c # cs) of
        None \<Rightarrow> vec_verdicts 0 cs
      | Some (found, n) \<Rightarrow> found # vec_verdicts (n - 1) cs)"

definition fingerprint_vec_report :: "string \<Rightarrow> json" where
  "fingerprint_vec_report content =
     (let verdicts = vec_verdicts 0 content in
      JObj (map (\<lambda>v. (v, JInt (int (count_list verdicts v)))) (sort (remdups verdicts))))"

definition SEEDED_FIGURES :: "string list" where "SEEDED_FIGURES = [''f_unbiasedness.png'']"

text \<open>\<open>Path.suffix\<close>.\<close>

definition path_suffix :: "string \<Rightarrow> string" where
  "path_suffix name =
     (let ext = rev (takeWhile (\<lambda>c. c \<noteq> CHR ''.'') (rev name)) in
      if length ext < length name - 1 \<and> ext \<noteq> [] then ''.'' @ ext else [])"

definition fingerprint_file :: "'p equiv_env \<Rightarrow> fs \<Rightarrow> path \<Rightarrow> (py_exn, json) result" where
  "fingerprint_file env fs p =
     (let name = last p; suffix = path_suffix name in
      case read_file fs p of
        None \<Rightarrow> Inl (FileNotFoundError (path_text p))
      | Some c \<Rightarrow>
          if suffix = ''.json'' then
            (case c of JsonDoc j \<Rightarrow> Inr (JObj (flatten j [] [])) | _ \<Rightarrow> Inl (ValueError ''JSONDecodeError''))
          else if suffix = ''.csv'' then fingerprint_csv name (ee_csv env c)
          else if starts_with ''msvc_vectorization_report'' name then Inr (fingerprint_vec_report (ee_text env c))
          else if suffix = ''.png'' \<and> name \<notin> set SEEDED_FIGURES then Inr (JStr ''<present: drawn from timings>'')
          else bindE (file_sha256 (ee_stamps env) fs p) (\<lambda>digest. Inr (JStr digest)))"

definition fingerprint_live_dir :: "'p equiv_env \<Rightarrow> path \<Rightarrow> fs \<Rightarrow> (py_exn, json) result" where
  "fingerprint_live_dir env dir fs =
     bindE (traverse (\<lambda>p. bindE (fingerprint_file env fs p) (\<lambda>v. Inr (relative_name dir p, v))) (files_in dir fs))
       (\<lambda>items. Inr (JObj items))"

subsection \<open>Processes\<close>

text \<open>\<open>INVOCATION\<close>: the binary and the commands of the package.\<close>

definition equivalence_binary :: "'p equiv_env \<Rightarrow> path" where
  "equivalence_binary env =
     be_root (ee_build env) @ [''build'', if be_nt (ee_build env) then ''stoquant.exe'' else ''stoquant'']"

definition invocation :: "'p equiv_env \<Rightarrow> string \<Rightarrow> string list" where
  "invocation env command = [ee_python env, ''-m'', ''stoquant'', command]"

definition equiv_native :: "'p equiv_env \<Rightarrow> path \<Rightarrow> string" where
  "equiv_native env p = native_text (ee_build env) p"

definition child_env :: "'p equiv_env \<Rightarrow> (string \<times> string) list" where
  "child_env env = filter (\<lambda>(k, v). \<not> list_ex (\<lambda>prefix. starts_with prefix k) SCRUBBED_ENV_PREFIXES) (ee_environ env)"

text \<open>\<open>text.replace(old, new)\<close> for a nonempty \<open>old\<close>.\<close>

fun replace_text :: "string \<Rightarrow> string \<Rightarrow> nat \<Rightarrow> string \<Rightarrow> string" where
  "replace_text old new skip [] = []"
| "replace_text old new (Suc skip) (c # cs) = replace_text old new skip cs"
| "replace_text old new 0 (c # cs) =
     (if starts_with old (c # cs) then new @ replace_text old new (length old - 1) cs else c # replace_text old new 0 cs)"

text \<open>Each dir in its native and its POSIX form, which differ on Windows alone.\<close>

definition scrub_paths :: "'p equiv_env \<Rightarrow> string \<Rightarrow> path list \<Rightarrow> string" where
  "scrub_paths env content roots =
     foldl (\<lambda>t form. replace_text form PATH_TOKEN 0 t) content
       (concat (map (\<lambda>dir. remdups [equiv_native env dir, join ''/'' dir]) roots))"

definition newline :: string where "newline = [CHR 0x0A]"

definition run_log :: "'p equiv_env \<Rightarrow> string list \<Rightarrow> string \<Rightarrow> string \<Rightarrow> string" where
  "run_log env argv so se =
     ''$ '' @ ee_quote env argv @ newline @ ''--- stdout'' @ newline @ so @ newline @ ''--- stderr'' @ newline @ se"

definition run_logged :: "'p equiv_env \<Rightarrow> string list \<Rightarrow> path \<Rightarrow> ('p, int \<times> string \<times> string) equiv" where
  "run_logged env argv logfile = (\<lambda>w.
     case ee_run env argv (child_env env) w of
       (Completed code so se, w) \<Rightarrow>
         st_bind (on_file EquivPy (write_file logfile (Text (run_log env argv so se)))) (\<lambda>_. st_return (code, so, se)) w
     | (outcome, w) \<Rightarrow> (Inl (EquivProcess outcome), w))"

definition last_lines :: "nat \<Rightarrow> string list \<Rightarrow> string list" where
  "last_lines n lines = drop (length lines - n) lines"

definition run_or_fail :: "'p equiv_env \<Rightarrow> string list \<Rightarrow> path \<Rightarrow> ('p, unit) equiv" where
  "run_or_fail env argv logfile =
     st_bind (run_logged env argv logfile) (\<lambda>(code, so, se).
       if code \<noteq> 0
       then st_fail (EquivExit (''command failed ('' @ str_int code @ ''), log '' @ equiv_native env logfile @ '':'' @ newline
              @ join newline (last_lines 15 (split_lines [] (strip se)))))
       else st_return ())"

subsection \<open>Live runs\<close>

definition live_run :: "'p equiv_env \<Rightarrow> path \<Rightarrow> string \<times> string \<times> string list \<Rightarrow> ('p, string \<times> json) equiv" where
  "live_run env work = (\<lambda>(name, command, args).
     let target = work @ [''live'', name]; logfile = work @ [''logs'', name @ ''.log''] in
     st_bind (run_logged env (invocation env command @ [''--output-dir'', equiv_native env target] @ args) logfile) (\<lambda>(code, so, se).
     st_bind (on_tree (\<lambda>fs. Inr (path_exists fs target))) (\<lambda>there.
     let written = (if there then target else with_name target (name @ ''.partial'')) in
     st_bind (on_tree (\<lambda>fs. Inr (path_exists fs written))) (\<lambda>exists.
       if \<not> exists then st_fail (EquivExit (name @ '' wrote nothing ('' @ str_int code @ ''), log '' @ equiv_native env logfile))
       else st_bind (on_tree (fingerprint_live_dir env written)) (\<lambda>files.
         st_return (name, JObj [(''exit_code'', JInt code), (''files'', files)]))))))"

definition live_runs :: "'p equiv_env \<Rightarrow> path \<Rightarrow> ('p, json) equiv" where
  "live_runs env work = st_bind (st_traverse (live_run env work) LIVE_RUNS) (\<lambda>items. st_return (JObj items))"

subsection \<open>Records\<close>

definition record_pair ::
  "'p equiv_env \<Rightarrow> path \<Rightarrow> string \<Rightarrow> path \<Rightarrow> string \<times> string list \<Rightarrow> ('p, (string \<times> json) list) equiv" where
  "record_pair env work name source = (\<lambda>(label, args).
     let folder = work @ [''records''];
         packed = folder @ [name @ ''_'' @ label @ ''.rec''];
         unpacked = folder @ [name @ ''_'' @ label @ ''.out.f32''];
         logfile = (\<lambda>step. work @ [''logs'', ''record_'' @ name @ ''_'' @ label @ ''_'' @ step @ ''.log'']);
         native = equiv_native env in
     st_bind (run_or_fail env ([native (equivalence_binary env), ''compress'', ''--input'', native source, ''--output'', native packed] @ args)
       (logfile ''compress'')) (\<lambda>_.
     st_bind (run_or_fail env [native (equivalence_binary env), ''decompress'', ''--input'', native packed, ''--output'', native unpacked]
       (logfile ''decompress'')) (\<lambda>_.
     st_bind (on_tree (\<lambda>fs. file_sha256 (ee_stamps env) fs packed)) (\<lambda>packed_digest.
     st_bind (on_tree (\<lambda>fs. file_sha256 (ee_stamps env) fs unpacked)) (\<lambda>unpacked_digest.
       st_return [(name @ ''/'' @ label @ ''/record'', JStr packed_digest),
                  (name @ ''/'' @ label @ ''/decompressed'', JStr unpacked_digest)])))))"

definition record_input :: "'p equiv_env \<Rightarrow> path \<Rightarrow> string \<times> fp list \<Rightarrow> ('p, (string \<times> json) list) equiv" where
  "record_input env work = (\<lambda>(name, xs).
     let source = work @ [''records'', name @ ''.f32''] in
     st_bind (on_file EquivPy (write_file source (Bytes (ee_bytes env xs)))) (\<lambda>_.
     st_bind (on_tree (\<lambda>fs. file_sha256 (ee_stamps env) fs source)) (\<lambda>digest.
     st_bind (st_traverse (record_pair env work name source) record_variants) (\<lambda>groups.
       st_return ((name @ ''/input'', JStr digest) # concat groups)))))"

text \<open>\<open>mkdir(parents=True)\<close>: the directory must not exist.\<close>

definition mkdir_new :: "path \<Rightarrow> fs \<Rightarrow> (py_exn, fs) result" where
  "mkdir_new p fs = (if path_exists fs p then Inl (FileExistsError (path_text p)) else mkdir_parents p fs)"

definition record_fingerprints :: "'p equiv_env \<Rightarrow> path \<Rightarrow> ('p, json) equiv" where
  "record_fingerprints env work =
     st_bind (on_file EquivPy (mkdir_new (work @ [''records'']))) (\<lambda>_.
     st_bind (st_traverse (record_input env work) (record_inputs (ee_rng env))) (\<lambda>groups.
       st_return (JObj (dict_update [] (concat groups)))))"

subsection \<open>Frozen snapshots\<close>

definition outcome_of ::
  "'p equiv_env \<Rightarrow> path \<Rightarrow> path \<Rightarrow> string option \<Rightarrow> int \<times> string \<times> string \<Rightarrow> ('p, json) equiv" where
  "outcome_of env target work only = (\<lambda>(code, so, se).
     if code \<noteq> 0
     then st_return (JObj [(''error'', JStr (scrub_paths env
            (case rev (split_lines [] (strip se)) of [] \<Rightarrow> [] | line # lines \<Rightarrow> line) [work, be_root (ee_build env)]))])
     else st_bind (on_tree (hash_tree env target)) (\<lambda>files.
            st_return (JObj (filter (\<lambda>(k, v). case only of None \<Rightarrow> True | Some name \<Rightarrow> path_name k = name) files))))"

definition render :: "'p equiv_env \<Rightarrow> path \<Rightarrow> string list \<Rightarrow> path \<Rightarrow> ('p, json) equiv" where
  "render env work argv target =
     st_bind (on_file EquivPy (mkdir_new target)) (\<lambda>_.
     st_bind (run_logged env (argv @ [''--output-dir'', equiv_native env target]) (work @ [''logs'', ''render_'' @ last target @ ''.log'']))
       (outcome_of env target work None))"

definition copy_tree :: "path \<Rightarrow> path \<Rightarrow> fs \<Rightarrow> (py_exn, fs) result" where
  "copy_tree src dst fs =
     bindE (mkdir_new dst fs) (\<lambda>made.
       Inr (foldr (\<lambda>(p, n) fs. if under src p \<and> p \<noteq> src then put (dst @ drop (length src) p) n fs else fs) fs made))"

definition unlink_missing_ok :: "path \<Rightarrow> fs \<Rightarrow> (py_exn, fs) result" where
  "unlink_missing_ok p fs =
     (if is_dir fs p then Inl (OSError (path_text p)) else Inr (filter (\<lambda>e. fst e \<noteq> p) fs))"

definition K1_FIGURE :: string where "K1_FIGURE = ''f5_k1_stages.png''"

definition redraw_k1 :: "'p equiv_env \<Rightarrow> path \<Rightarrow> path \<Rightarrow> ('p, json) equiv" where
  "redraw_k1 env work snap =
     (let copy = work @ [''renders'', ''k1-ab-figure'', last snap] in
      st_bind (on_file EquivPy (copy_tree snap copy)) (\<lambda>_.
      st_bind (on_file EquivPy (unlink_missing_ok (copy @ [K1_FIGURE]))) (\<lambda>_.
      st_bind (run_logged env (invocation env ''k1-ab'' @ [''--figure'', equiv_native env copy])
                (work @ [''logs'', ''f5_'' @ last snap @ ''.log''])) (outcome_of env copy work (Some K1_FIGURE)))))"

definition render_snapshot :: "'p equiv_env \<Rightarrow> path \<Rightarrow> path \<Rightarrow> ('p, (string \<times> json) list) equiv" where
  "render_snapshot env work snap =
     st_bind (on_tree (\<lambda>fs. Inr (path_exists fs (snap @ [''manifest.json''])))) (\<lambda>bench.
     st_bind (if bench
              then st_bind (render env work (invocation env ''figures'' @ [equiv_native env snap]) (work @ [''renders'', last snap]))
                     (\<lambda>v. st_return [(''figures/'' @ last snap, v)])
              else st_return []) (\<lambda>figures.
     st_bind (on_tree (\<lambda>fs. Inr (path_exists fs (snap @ [''summary.json''])))) (\<lambda>summary.
     st_bind (if summary \<and> ends_with ''-k1-ab'' (last snap)
              then st_bind (redraw_k1 env work snap) (\<lambda>v. st_return [(''k1-ab-figure/'' @ last snap, v)])
              else st_return []) (\<lambda>redrawn.
       st_return (figures @ redrawn)))))"

definition render_pair :: "'p equiv_env \<Rightarrow> path \<Rightarrow> path \<Rightarrow> path \<Rightarrow> ('p, string \<times> json) equiv" where
  "render_pair env work bench ab =
     (let name = last bench @ ''+'' @ last ab in
      st_bind (render env work (invocation env ''figures'' @ [equiv_native env bench, ''--k1-ab'', equiv_native env ab]) (work @ [''renders'', name]))
        (\<lambda>v. st_return (''figures-k1-ab/'' @ name, v)))"

definition render_bench :: "'p equiv_env \<Rightarrow> path \<Rightarrow> path list \<Rightarrow> path \<Rightarrow> ('p, (string \<times> json) list) equiv" where
  "render_bench env work snapshots bench =
     st_bind (on_tree (\<lambda>fs. Inr (path_exists fs (bench @ [''manifest.json''])))) (\<lambda>there.
       if there then st_traverse (render_pair env work bench) (filter (\<lambda>p. ends_with ''-k1-ab'' (last p)) snapshots) else st_return [])"

definition snapshot_dirs :: "path \<Rightarrow> fs \<Rightarrow> path list" where
  "snapshot_dirs results fs =
     sort (map fst (filter (\<lambda>(p, n). n = Dir \<and> p \<noteq> [] \<and> butlast p = results \<and> last p \<noteq> ''pilots'') fs))"

definition equivalence_results :: "'p equiv_env \<Rightarrow> path" where
  "equivalence_results env = be_root (ee_build env) @ [''results'']"

definition frozen_snapshots :: "'p equiv_env \<Rightarrow> path \<Rightarrow> ('p, json) equiv" where
  "frozen_snapshots env work =
     (let results = equivalence_results env in
      st_bind (on_tree (\<lambda>fs. Inr (if is_dir fs results then snapshot_dirs results fs else []))) (\<lambda>snapshots.
      st_bind (on_tree (\<lambda>fs. traverse (\<lambda>p. bindE (hash_tree env p fs) (\<lambda>files. Inr (last p, JObj files))) snapshots)) (\<lambda>hashes.
      st_bind (st_traverse (render_snapshot env work) snapshots) (\<lambda>single.
      st_bind (st_traverse (render_bench env work snapshots) snapshots) (\<lambda>pairs.
        st_return (JObj [(''content'', JObj hashes), (''renders'', JObj (dict_update [] (concat single @ concat pairs)))]))))))"

subsection \<open>The fingerprint\<close>

definition git_output :: "'p equiv_env \<Rightarrow> string list \<Rightarrow> ('p, string) equiv" where
  "git_output env args = (\<lambda>w.
     case ee_run env (''git'' # args) (ee_environ env) w of
       (Completed code so se, w) \<Rightarrow> (if code \<noteq> 0 then Inl (EquivProcess (Completed code so se)) else Inr so, w)
     | (outcome, w) \<Rightarrow> (Inl (EquivProcess outcome), w))"

definition git :: "'p equiv_env \<Rightarrow> string list \<Rightarrow> ('p, string) equiv" where
  "git env args = st_bind (git_output env args) (\<lambda>so. st_return (strip so))"

definition results_state :: "'p equiv_env \<Rightarrow> ('p, string \<times> (string \<times> json) list) equiv" where
  "results_state env =
     st_bind (git_output env [''status'', ''--porcelain'', ''--'', ''results'']) (\<lambda>status.
     st_bind (on_tree (hash_tree env (equivalence_results env))) (\<lambda>hashes. st_return (status, hashes)))"

text \<open>Equal dictionaries: the same entries in any order.\<close>

definition same_state :: "string \<times> (string \<times> json) list \<Rightarrow> string \<times> (string \<times> json) list \<Rightarrow> bool" where
  "same_state a b \<longleftrightarrow> fst a = fst b \<and> set (snd a) = set (snd b)"

definition build_fingerprint :: "'p equiv_env \<Rightarrow> path \<Rightarrow> ('p, json) equiv" where
  "build_fingerprint env work =
     st_bind (on_tree (\<lambda>fs. Inr (path_exists fs (equivalence_binary env)))) (\<lambda>built.
     if \<not> built then st_fail (EquivExit (''missing '' @ equiv_native env (equivalence_binary env) @ ''; build it first''))
     else
       st_bind (results_state env) (\<lambda>before.
       st_bind (on_file EquivPy (mkdir_new (work @ [''logs'']))) (\<lambda>_.
       st_bind (frozen_snapshots env work) (\<lambda>frozen.
       st_bind (record_fingerprints env work) (\<lambda>packed.
       st_bind (live_runs env work) (\<lambda>live.
       st_bind (results_state env) (\<lambda>after.
         if \<not> same_state after before
         then st_fail (EquivExit ''results/ changed during the run; restore it before trusting anything'')
         else st_return (JObj [(''frozen'', frozen), (''records'', packed), (''live'', live)]))))))))"

subsection \<open>The commands\<close>

definition default_store :: "'p equiv_env \<Rightarrow> ('p, path) equiv" where
  "default_store env =
     st_bind (git env [''rev-parse'', ''--path-format=absolute'', ''--git-common-dir'']) (\<lambda>common.
       st_return (butlast (ee_path env common) @ [''build'', ''equivalence'']))"

definition work_dir :: "'p equiv_env \<Rightarrow> ('p, path) equiv" where
  "work_dir env =
     (let work = be_root (ee_build env) @ [''build'', ''equivalence-work''] in
      (\<lambda>(fs, p). (Inr work, (if path_exists fs work then remove_tree work fs else fs, p))))"

text \<open>\<open>json.dumps(payload, sort_keys=True)\<close>.\<close>

fun sort_keys :: "json \<Rightarrow> json" where
  "sort_keys (JObj items) = JObj (sort_key fst (map (\<lambda>(k, v). (k, sort_keys v)) items))"
| "sort_keys (JList vs) = JList (map sort_keys vs)"
| "sort_keys v = v"

definition store_of :: "'p equiv_env \<Rightarrow> path option \<Rightarrow> ('p, path) equiv" where
  "store_of env store = (case store of Some p \<Rightarrow> st_return p | None \<Rightarrow> default_store env)"

definition baseline_payload :: "string \<Rightarrow> json \<Rightarrow> json" where
  "baseline_payload sha fingerprint =
     JObj [(''format'', JInt EQUIVALENCE_FORMAT), (''commit'', JStr sha), (''fingerprint'', fingerprint)]"

definition capture :: "'p equiv_env \<Rightarrow> path option \<Rightarrow> bool \<Rightarrow> ('p, int) equiv" where
  "capture env store_arg allow_dirty =
     st_bind (git env [''status'', ''--porcelain'', ''--untracked-files=no'']) (\<lambda>status.
     if status \<noteq> [] \<and> \<not> allow_dirty
     then st_fail (EquivExit ''tracked files are modified; a baseline must match its commit'')
     else
       st_bind (store_of env store_arg) (\<lambda>store.
       st_bind (git env [''rev-parse'', ''HEAD'']) (\<lambda>sha.
       let target = store @ [sha @ ''.json''] in
       st_bind (on_tree (\<lambda>fs. Inr (path_exists fs target))) (\<lambda>there.
       if there
       then st_fail (EquivExit (''baseline '' @ equiv_native env target @ '' already exists; it is never overwritten''))
       else
         st_bind (work_dir env) (\<lambda>work.
         st_bind (build_fingerprint env work) (\<lambda>fingerprint.
         st_bind (on_file EquivPy (mkdir_parents store)) (\<lambda>_.
         st_bind (on_file EquivPy (write_file target (JsonDoc (sort_keys (baseline_payload sha fingerprint))))) (\<lambda>_.
           st_return 0))))))))"

definition file_stem :: "string \<Rightarrow> string" where
  "file_stem name = take (length name - length (path_suffix name)) name"

definition stored_baselines :: "path \<Rightarrow> fs \<Rightarrow> path list" where
  "stored_baselines store fs =
     sort (map fst (filter (\<lambda>(p, n). p \<noteq> [] \<and> butlast p = store \<and> ends_with ''.json'' (last p)) fs))"

definition resolve_baseline :: "'p equiv_env \<Rightarrow> string option \<Rightarrow> path \<Rightarrow> fs \<Rightarrow> (equiv_exn, path) result" where
  "resolve_baseline env choice store fs =
     (let stored = (if path_exists fs store then stored_baselines store fs else []) in
      case choice of
        None \<Rightarrow>
          (case stored of
             [p] \<Rightarrow> Inr p
           | _ \<Rightarrow> Inl (EquivExit (str_nat (length stored) @ '' baselines in '' @ equiv_native env store @ ''; pass --baseline'')))
      | Some t \<Rightarrow>
          if is_file fs (ee_path env t) then Inr (ee_path env t)
          else
            (case filter (\<lambda>p. starts_with t (file_stem (last p))) stored of
               [p] \<Rightarrow> Inr p
             | found \<Rightarrow> Inl (EquivExit (str_nat (length found) @ '' baselines in '' @ equiv_native env store @ '' match '' @ ee_repr env (JStr t)))))"

text \<open>The baseline as it was read: its format, its commit and its fingerprint.\<close>

definition read_baseline :: "'p equiv_env \<Rightarrow> path \<Rightarrow> fs \<Rightarrow> (equiv_exn, (string \<times> json) list) result" where
  "read_baseline env p fs =
     (case read_json fs p of
        None \<Rightarrow> Inl (EquivPy (ValueError ''JSONDecodeError''))
      | Some (JObj items) \<Rightarrow>
          if py_equal (get_field items ''format'') (JInt EQUIVALENCE_FORMAT) then Inr items
          else Inl (EquivExit (equiv_native env p @ '' has format '' @ ee_repr env (get_field items ''format'')))
      | Some v \<Rightarrow> Inl (EquivNotObject))"

definition equivalence_item :: "(string \<times> json) list \<Rightarrow> string \<Rightarrow> (equiv_exn, json) result" where
  "equivalence_item items k = (case map_of items k of None \<Rightarrow> Inl (EquivPy (KeyError k)) | Some v \<Rightarrow> Inr v)"

definition short_commit :: "(string \<times> json) list \<Rightarrow> (equiv_exn, string) result" where
  "short_commit items =
     bindE (equivalence_item items ''commit'') (\<lambda>v. case v of JStr c \<Rightarrow> Inr (take 7 c) | _ \<Rightarrow> Inl (EquivPy (TypeError ''commit'')))"

definition shown :: "int \<Rightarrow> string list \<Rightarrow> string list" where
  "shown limit lines = (if 0 \<le> limit then take (nat limit) lines else take (length lines - nat (- limit)) lines)"

text \<open>The exit code and the lines that are printed.\<close>

definition compare :: "'p equiv_env \<Rightarrow> string option \<Rightarrow> path option \<Rightarrow> int \<Rightarrow> ('p, int \<times> string list) equiv" where
  "compare env choice store_arg limit =
     st_bind (store_of env store_arg) (\<lambda>store.
     st_bind (from_world id (\<lambda>w. resolve_baseline env choice store (fst w))) (\<lambda>p.
     st_bind (from_world id (\<lambda>w. read_baseline env p (fst w))) (\<lambda>items.
     st_bind (work_dir env) (\<lambda>work.
     st_bind (build_fingerprint env work) (\<lambda>fresh.
     st_bind (st_lift (equivalence_item items ''fingerprint'')) (\<lambda>stored.
     let differences = diff_leaves (ee_repr env) stored fresh; compared = length (flatten_fingerprint fresh []) in
     st_bind (st_lift (short_commit items)) (\<lambda>sha.
       st_return (if differences \<noteq> []
         then (1, [''NOT EQUIVALENT to '' @ sha @ '': '' @ str_nat (length differences) @ '' differences''] @ shown limit differences
                  @ (if limit < int (length differences) then [''... '' @ str_int (int (length differences) - limit) @ '' more''] else []))
         else (0, [''equivalent to '' @ sha @ '' ('' @ str_nat compared @ '' leaves)''])))))))))"

subsection \<open>The patterns match what they mean\<close>

fun rx_lang :: "rx \<Rightarrow> string set" where
  "rx_lang RxNone = {}"
| "rx_lang RxEmpty = {[]}"
| "rx_lang (RxClass cs) = {[c] | c. c \<in> set cs}"
| "rx_lang (RxSeq r s) = {x @ y | x y. x \<in> rx_lang r \<and> y \<in> rx_lang s}"
| "rx_lang (RxAlt r s) = rx_lang r \<union> rx_lang s"
| "rx_lang (RxStar r) = {concat xs | xs. set xs \<subseteq> rx_lang r}"
| "rx_lang (RxMinus r s) = rx_lang r - rx_lang s"

lemma rx_nullable_lang: "rx_nullable r \<longleftrightarrow> [] \<in> rx_lang r"
  by (induction r) (auto intro: exI [of _ "[]"])

lemma rx_deriv_lang: "x \<in> rx_lang (rx_deriv c r) \<longleftrightarrow> c # x \<in> rx_lang r"
proof (induction r arbitrary: x)
  case (RxSeq r s)
  show ?case using RxSeq by (auto simp: rx_nullable_lang Cons_eq_append_conv append_eq_Cons_conv)
next
  case (RxStar r)
  have "c # x \<in> rx_lang (RxStar r) \<longleftrightarrow> (\<exists>y z. x = y @ z \<and> c # y \<in> rx_lang r \<and> z \<in> rx_lang (RxStar r))"
  proof
    assume "c # x \<in> rx_lang (RxStar r)"
    then obtain xs where "concat xs = c # x" "set xs \<subseteq> rx_lang r" by auto
    then show "\<exists>y z. x = y @ z \<and> c # y \<in> rx_lang r \<and> z \<in> rx_lang (RxStar r)"
    proof (induction xs)
      case (Cons w ws)
      then show ?case by (cases w) auto
    qed simp
  next
    assume "\<exists>y z. x = y @ z \<and> c # y \<in> rx_lang r \<and> z \<in> rx_lang (RxStar r)"
    then obtain y ws where "x = y @ concat ws" "c # y \<in> rx_lang r" "set ws \<subseteq> rx_lang r" by auto
    then show "c # x \<in> rx_lang (RxStar r)" by (auto intro!: exI [of _ "(c # y) # ws"])
  qed
  then show ?case using RxStar by auto
qed auto

lemma fullmatch_lang: "fullmatch r s \<longleftrightarrow> s \<in> rx_lang r"
  unfolding fullmatch_def by (induction s arbitrary: r) (simp_all add: rx_nullable_lang rx_deriv_lang)

subsection \<open>What an accepted comparison means\<close>

lemma diff_line_none:
  "diff_line repr old new k = [] \<longleftrightarrow> rel_option py_equal (map_of old k) (map_of new k)"
  by (simp add: diff_line_def split: option.split)

lemma diff_leaves_none:
  "diff_leaves repr stored fresh = [] \<longleftrightarrow>
     (\<forall>k. rel_option py_equal (map_of (flatten_fingerprint stored []) k) (map_of (flatten_fingerprint fresh []) k))"
proof -
  let ?old = "flatten_fingerprint stored []" and ?new = "flatten_fingerprint fresh []"
  have "rel_option py_equal (map_of ?old k) (map_of ?new k)" if "k \<notin> set (map fst ?old @ map fst ?new)" for k
    using that by (simp add: map_of_eq_None_iff [THEN iffD2])
  moreover have "diff_leaves repr stored fresh = [] \<longleftrightarrow>
      (\<forall>k \<in> set (map fst ?old @ map fst ?new). rel_option py_equal (map_of ?old k) (map_of ?new k))"
    by (simp add: diff_leaves_def Let_def diff_line_none del: set_append)
  ultimately show ?thesis by blast
qed

text \<open>A run of the fingerprint left \<open>results/\<close> as it found it.\<close>

definition results_kept :: "'p equiv_env \<Rightarrow> 'p world \<Rightarrow> 'p world \<Rightarrow> bool" where
  "results_kept env w w' \<longleftrightarrow>
     (\<exists>before after w1 w2. results_state env w = (Inr before, w1) \<and> results_state env w2 = (Inr after, w') \<and> same_state after before)"

lemma build_fingerprint_Inr:
  assumes "build_fingerprint env work w = (Inr fresh, w')"
  shows "results_kept env w w'" "\<exists>frozen packed live. fresh = JObj [(''frozen'', frozen), (''records'', packed), (''live'', live)]"
  using assms by (auto simp: build_fingerprint_def results_kept_def on_tree_def from_world_Inr st_return_Inr st_fail_Inr
      elim!: st_bindE split: if_splits) blast+

text \<open>The leaves of two fingerprints agree: the same keys, and equal values.\<close>

definition same_leaves :: "json \<Rightarrow> json \<Rightarrow> bool" where
  "same_leaves v w \<longleftrightarrow>
     (\<forall>k. rel_option py_equal (map_of (flatten_fingerprint v []) k) (map_of (flatten_fingerprint w []) k))"


lemma capture_writes_new:
  assumes "capture env store_arg allow_dirty w = (Inr code, w')"
  shows "\<exists>store sha fingerprint fs. \<not> path_exists fs (store @ [sha @ ''.json''])
    \<and> read_json (fst w') (store @ [sha @ ''.json'']) = Some (sort_keys (baseline_payload sha fingerprint))"
proof -
  obtain store sha fingerprint fs w2 where
      n: "\<not> path_exists fs (store @ [sha @ ''.json''])"
    and wr: "on_file EquivPy (write_file (store @ [sha @ ''.json'']) (JsonDoc (sort_keys (baseline_payload sha fingerprint)))) w2 = (Inr (), w')"
    using assms by (auto simp: capture_def Let_def on_tree_def from_world_Inr st_fail_Inr st_return_Inr elim!: st_bindE split: if_splits)
  have "fst w' = put (store @ [sha @ ''.json'']) (File (JsonDoc (sort_keys (baseline_payload sha fingerprint)))) (fst w2)"
    using wr by (auto simp: on_file_Inr write_file_def split: if_splits)
  then have "read_json (fst w') (store @ [sha @ ''.json'']) = Some (sort_keys (baseline_payload sha fingerprint))"
    by (simp add: read_json_def read_file_def)
  then show ?thesis using n by blast
qed

end
