(* ===== verification/Spec2Isabelle.thy ===== *)
theory Spec2Isabelle
  imports Quantizer Stats Runner Snapshot_Store Correctness Sweep Host Monitoring Notify Inputs Matrix Builds K1 Unbiasedness Report Equivalence
begin

text \<open>
  A verification development for the Python benchmark driver and NumPy oracle of the stochastic
  quantization project.
\<close>

end
